theory Spec2Isabelle
  imports Main "HOL-Library.Word" "HOL-Library.Signed_Division"
begin

unbundle bit_operations_syntax

section \<open>Constants of trex.h and tui.h\<close>

definition TUI_COLOR_BLACK :: int where "TUI_COLOR_BLACK = 0"
definition TUI_COLOR_RED :: int where "TUI_COLOR_RED = 1"
definition TUI_COLOR_GREEN :: int where "TUI_COLOR_GREEN = 2"
definition TUI_COLOR_YELLOW :: int where "TUI_COLOR_YELLOW = 3"
definition TUI_COLOR_BLUE :: int where "TUI_COLOR_BLUE = 4"
definition TUI_COLOR_MAGENTA :: int where "TUI_COLOR_MAGENTA = 5"
definition TUI_COLOR_CYAN :: int where "TUI_COLOR_CYAN = 6"
definition TUI_COLOR_WHITE :: int where "TUI_COLOR_WHITE = 7"

definition TUI_COLOR_PAIRS :: int where "TUI_COLOR_PAIRS = 256"
definition COLOR_PAIR_HASH_SIZE :: nat where "COLOR_PAIR_HASH_SIZE = 256"
definition COMMON_PAIRS_CACHE_SIZE :: nat where "COMMON_PAIRS_CACHE_SIZE = 16"

lemmas color_consts =
  TUI_COLOR_BLACK_def TUI_COLOR_RED_def TUI_COLOR_GREEN_def TUI_COLOR_YELLOW_def
  TUI_COLOR_BLUE_def TUI_COLOR_MAGENTA_def TUI_COLOR_CYAN_def TUI_COLOR_WHITE_def
  TUI_COLOR_PAIRS_def COLOR_PAIR_HASH_SIZE_def COMMON_PAIRS_CACHE_SIZE_def

section \<open>Color-pair allocator (tui.c, get\_or\_alloc\_pair)\<close>

text \<open>
  The C code keeps \<open>short\<close> colors and pair numbers; they are modelled as \<open>int\<close>, and
  every theorem below is proved for all integers, hence for every \<open>short\<close>. The packed
  key is a \<open>uint16_t\<close> and the FNV-1a accumulator a \<open>uint32_t\<close>, both modelled as words.
  A hash chain is the list of its nodes, head first. The pure statistics counters are kept
  as unbounded integers.
\<close>

record common_pair_t =
  cp_fg :: int
  cp_bg :: int
  cp_pair_num :: int
  cp_usage_count :: int

record color_pair_node_t =
  node_fg_bg :: "16 word"
  node_pair_num :: int
  node_fg :: int
  node_bg :: int

record color_pair_cache_t =
  table :: "nat \<Rightarrow> color_pair_node_t list"
  next_pair :: int
  allocated_count :: int
  nodes :: "color_pair_node_t list"
  node_count :: int
  node_used :: int
  cache_hits :: int
  cache_misses :: int
  hash_collisions :: int
  common_pairs :: "common_pair_t list"
  color_pairs :: "int \<Rightarrow> int \<times> int"

text \<open>\<open>pack_fg_bg\<close>: \<open>((uint16_t) (fg & 0xFF) << 8) | (bg & 0xFF)\<close>.\<close>

definition pack_fg_bg :: "int \<Rightarrow> int \<Rightarrow> 16 word" where
  "pack_fg_bg fg bg = word_of_int (push_bit 8 (fg AND 255) OR (bg AND 255))"

text \<open>
  \<open>hash_color_pair\<close>: FNV-1a over the two bytes of the key in memory order; the low byte
  comes first (little-endian layout).
\<close>

definition fnv1a_step :: "32 word \<Rightarrow> 8 word \<Rightarrow> 32 word" where
  "fnv1a_step h b = (h XOR ucast b) * 16777619"

definition hash_color_pair :: "16 word \<Rightarrow> nat" where
  "hash_color_pair fg_bg =
     unat (foldl fnv1a_step 2166136261 [ucast fg_bg, ucast (drop_bit 8 fg_bg)])
       mod COLOR_PAIR_HASH_SIZE"

text \<open>The ten game-specific pairs of \<open>init_common_pairs_cache\<close>, numbered from 1.\<close>

definition common_colors :: "(int \<times> int) list" where
  "common_colors =
     [(TUI_COLOR_WHITE, TUI_COLOR_BLACK), (TUI_COLOR_GREEN, TUI_COLOR_BLACK),
      (TUI_COLOR_RED, TUI_COLOR_BLACK), (TUI_COLOR_YELLOW, TUI_COLOR_BLACK),
      (TUI_COLOR_BLUE, TUI_COLOR_BLACK), (TUI_COLOR_CYAN, TUI_COLOR_BLACK),
      (TUI_COLOR_MAGENTA, TUI_COLOR_BLACK), (TUI_COLOR_WHITE, TUI_COLOR_RED),
      (TUI_COLOR_BLACK, TUI_COLOR_WHITE), (TUI_COLOR_BLACK, TUI_COLOR_GREEN)]"

definition init_common_pairs_cache :: "color_pair_cache_t \<Rightarrow> color_pair_cache_t" where
  "init_common_pairs_cache c =
     c\<lparr>common_pairs :=
         map (\<lambda>i. \<lparr>cp_fg = fst (common_colors ! i), cp_bg = snd (common_colors ! i),
                    cp_pair_num = int i + 1, cp_usage_count = 0\<rparr>)
             [0 ..< min 10 COMMON_PAIRS_CACHE_SIZE]\<rparr>"

text \<open>The static initialiser of \<open>color_pair_cache\<close> and of the legacy array.\<close>

definition color_pair_cache_static :: color_pair_cache_t where
  "color_pair_cache_static =
     \<lparr>table = (\<lambda>_. []), next_pair = 1, allocated_count = 0, nodes = [], node_count = 0,
      node_used = 0, cache_hits = 0, cache_misses = 0, hash_collisions = 0,
      common_pairs = [], color_pairs = (\<lambda>_. (0, 0))\<rparr>"

text \<open>\<open>init_color_pair_cache\<close>; the \<open>calloc\<close> of the node pool is taken to succeed.\<close>

definition init_color_pair_cache :: "color_pair_cache_t \<Rightarrow> color_pair_cache_t" where
  "init_color_pair_cache c =
     init_common_pairs_cache
       (c\<lparr>table := (\<lambda>_. []), node_count := TUI_COLOR_PAIRS, nodes := [], node_used := 0,
          next_pair := 1, allocated_count := 0, cache_hits := 0, cache_misses := 0,
          hash_collisions := 0\<rparr>)"

text \<open>The scan of the common-pairs table: index of the first entry with these colors.\<close>

fun find_common :: "int \<Rightarrow> int \<Rightarrow> common_pair_t list \<Rightarrow> nat option" where
  "find_common fg bg [] = None"
| "find_common fg bg (p # ps) =
     (if cp_fg p = fg \<and> cp_bg p = bg then Some 0
      else map_option Suc (find_common fg bg ps))"

text \<open>The walk along a hash chain: first node whose packed key matches.\<close>

fun find_node :: "16 word \<Rightarrow> color_pair_node_t list \<Rightarrow> color_pair_node_t option" where
  "find_node key [] = None"
| "find_node key (n # ns) = (if node_fg_bg n = key then Some n else find_node key ns)"

definition get_or_alloc_pair ::
  "int \<Rightarrow> int \<Rightarrow> color_pair_cache_t \<Rightarrow> int \<times> color_pair_cache_t" where
  "get_or_alloc_pair fg bg c =
     (if fg = TUI_COLOR_WHITE \<and> bg = TUI_COLOR_BLACK
      then (0, c\<lparr>cache_hits := cache_hits c + 1\<rparr>)
      else case find_common fg bg (common_pairs c) of
        Some i \<Rightarrow>
          (let p = common_pairs c ! i
           in (cp_pair_num p,
               c\<lparr>common_pairs := (common_pairs c)[i := p\<lparr>cp_usage_count := cp_usage_count p + 1\<rparr>],
                 cache_hits := cache_hits c + 1\<rparr>))
      | None \<Rightarrow>
          (let key = pack_fg_bg fg bg;
               h = hash_color_pair key;
               chain = table c h
           in case find_node key chain of
                Some n \<Rightarrow> (node_pair_num n, c\<lparr>cache_hits := cache_hits c + 1\<rparr>)
              | None \<Rightarrow>
                  (let c1 = c\<lparr>hash_collisions := hash_collisions c + int (length chain),
                               cache_misses := cache_misses c + 1\<rparr>
                   in if next_pair c1 \<ge> TUI_COLOR_PAIRS \<or> node_used c1 \<ge> node_count c1
                      then (0, c1)
                      else
                        (let n = \<lparr>node_fg_bg = key, node_pair_num = next_pair c1,
                                  node_fg = fg, node_bg = bg\<rparr>
                         in (node_pair_num n,
                             c1\<lparr>nodes := nodes c1 @ [n],
                                node_used := node_used c1 + 1,
                                next_pair := next_pair c1 + 1,
                                table := (table c1)(h := n # chain),
                                color_pairs :=
                                  (if node_pair_num n < TUI_COLOR_PAIRS
                                   then (color_pairs c1)(node_pair_num n := (fg, bg))
                                   else color_pairs c1),
                                allocated_count := allocated_count c1 + 1\<rparr>)))))"

text \<open>The pool is exhausted when no pair number or no node is left.\<close>

definition pair_pool_exhausted :: "color_pair_cache_t \<Rightarrow> bool" where
  "pair_pool_exhausted c \<longleftrightarrow> next_pair c \<ge> TUI_COLOR_PAIRS \<or> node_used c \<ge> node_count c"

text \<open>A combination is already known when one of the three lookups finds it.\<close>

definition pair_known :: "int \<Rightarrow> int \<Rightarrow> color_pair_cache_t \<Rightarrow> bool" where
  "pair_known fg bg c \<longleftrightarrow>
     (fg = TUI_COLOR_WHITE \<and> bg = TUI_COLOR_BLACK)
     \<or> find_common fg bg (common_pairs c) \<noteq> None
     \<or> find_node (pack_fg_bg fg bg) (table c (hash_color_pair (pack_fg_bg fg bg))) \<noteq> None"

subsection \<open>Properties of the allocator\<close>

lemma find_common_bound:
  "find_common fg bg ps = Some i \<Longrightarrow> i < length ps \<and> cp_fg (ps ! i) = fg \<and> cp_bg (ps ! i) = bg"
proof (induction ps arbitrary: i)
  case Nil
  then show ?case by simp
next
  case (Cons p ps)
  then show ?case by (auto split: if_splits)
qed

lemma find_common_first:
  "find_common fg bg ps = Some i \<Longrightarrow> j < i \<Longrightarrow> \<not> (cp_fg (ps ! j) = fg \<and> cp_bg (ps ! j) = bg)"
proof (induction ps arbitrary: i j)
  case Nil
  then show ?case by simp
next
  case (Cons p ps)
  then show ?case by (cases j) (auto split: if_splits)
qed

lemma find_common_usage_update:
  "find_common fg bg ps = Some i \<Longrightarrow>
   find_common fg bg (ps[i := (ps ! i)\<lparr>cp_usage_count := k\<rparr>]) = Some i"
proof (induction ps arbitrary: i)
  case Nil
  then show ?case by simp
next
  case (Cons p ps)
  then show ?case by (auto split: if_splits)
qed

lemma get_or_alloc_pair_next_pair_pos:
  "1 \<le> next_pair c \<Longrightarrow> 1 \<le> next_pair (snd (get_or_alloc_pair fg bg c))"
  by (auto simp: get_or_alloc_pair_def Let_def split: option.splits)

text \<open>
  Claim C6. Calling \<open>get_or_alloc_pair\<close> twice in succession with the same \<open>(fg, bg)\<close>
  returns the same identifier both times: the second call finds what the first call
  matched or created. The statement holds from every allocator state, in particular
  while the pool is not exhausted.
\<close>

theorem get_or_alloc_pair_deterministic:
  "fst (get_or_alloc_pair fg bg (snd (get_or_alloc_pair fg bg c)))
     = fst (get_or_alloc_pair fg bg c)"
proof (cases "fg = TUI_COLOR_WHITE \<and> bg = TUI_COLOR_BLACK")
  case True
  then show ?thesis by (simp add: get_or_alloc_pair_def)
next
  case notdef: False
  show ?thesis
  proof (cases "find_common fg bg (common_pairs c)")
    case (Some i)
    from find_common_usage_update[OF Some] find_common_bound[OF Some]
    show ?thesis using notdef Some
      by (auto simp add: get_or_alloc_pair_def Let_def)
  next
    case nocommon: None
    let ?key = "pack_fg_bg fg bg"
    let ?h = "hash_color_pair ?key"
    show ?thesis
    proof (cases "find_node ?key (table c ?h)")
      case (Some n)
      then show ?thesis using notdef nocommon
        by (auto simp add: get_or_alloc_pair_def Let_def)
    next
      case None
      then show ?thesis using notdef nocommon
        by (auto simp add: get_or_alloc_pair_def Let_def)
    qed
  qed
qed

theorem get_or_alloc_pair_deterministic_witness:
  "fst (get_or_alloc_pair 1 4 (init_color_pair_cache color_pair_cache_static)) = 1
   \<and> fst (get_or_alloc_pair 1 4
             (snd (get_or_alloc_pair 1 4 (init_color_pair_cache color_pair_cache_static)))) = 1"
proof -
  have first: "fst (get_or_alloc_pair 1 4 (init_color_pair_cache color_pair_cache_static)) = 1"
    by (simp add: init_color_pair_cache_def init_common_pairs_cache_def
        color_pair_cache_static_def get_or_alloc_pair_def Let_def common_colors_def
        color_consts upt_conv_Cons)
  from get_or_alloc_pair_deterministic
         [of 1 4 "init_color_pair_cache color_pair_cache_static"] first
  show ?thesis by simp
qed

text \<open>
  Claim C7. Once the bounded pool is exhausted (no pair number or no node left), a
  request for a combination that none of the lookups knows returns the default pair 0,
  and nothing is allocated: hash table, node pool, counters and the legacy pair array
  stay as they were.
\<close>

theorem get_or_alloc_pair_exhausted_default:
  assumes "pair_pool_exhausted c" and "\<not> pair_known fg bg c"
  shows "fst (get_or_alloc_pair fg bg c) = 0
       \<and> table (snd (get_or_alloc_pair fg bg c)) = table c
       \<and> nodes (snd (get_or_alloc_pair fg bg c)) = nodes c
       \<and> next_pair (snd (get_or_alloc_pair fg bg c)) = next_pair c
       \<and> node_used (snd (get_or_alloc_pair fg bg c)) = node_used c
       \<and> allocated_count (snd (get_or_alloc_pair fg bg c)) = allocated_count c
       \<and> color_pairs (snd (get_or_alloc_pair fg bg c)) = color_pairs c"
  using assms
  by (auto simp: get_or_alloc_pair_def pair_pool_exhausted_def pair_known_def Let_def
           split: option.splits)

theorem get_or_alloc_pair_exhausted_default_witness:
  "pair_pool_exhausted ((init_color_pair_cache color_pair_cache_static)\<lparr>next_pair := 256\<rparr>)
   \<and> \<not> pair_known 1 4 ((init_color_pair_cache color_pair_cache_static)\<lparr>next_pair := 256\<rparr>)
   \<and> fst (get_or_alloc_pair 1 4
             ((init_color_pair_cache color_pair_cache_static)\<lparr>next_pair := 256\<rparr>)) = 0
   \<and> next_pair (snd (get_or_alloc_pair 1 4
             ((init_color_pair_cache color_pair_cache_static)\<lparr>next_pair := 256\<rparr>))) = 256"
proof -
  let ?c = "(init_color_pair_cache color_pair_cache_static)\<lparr>next_pair := 256\<rparr>"
  have full: "pair_pool_exhausted ?c"
    by (simp add: pair_pool_exhausted_def color_consts)
  have new: "\<not> pair_known 1 4 ?c"
    by (simp add: pair_known_def init_color_pair_cache_def init_common_pairs_cache_def
        color_pair_cache_static_def common_colors_def color_consts upt_conv_Cons)
  from get_or_alloc_pair_exhausted_default [OF full new] full new
  show ?thesis by simp
qed

text \<open>
  Claim C9. The identifier spaces of the pre-seeded common pairs and of the dynamic
  allocator overlap. After initialisation the common pairs carry the identifiers 1 to 10
  and \<open>next_pair\<close> is 1 as well. In one run, the second dynamically allocated
  combination (red on green, not a common pair) receives identifier 2, which is also the
  identifier returned for the common pair green on black.
\<close>

theorem common_and_dynamic_pair_ids_overlap:
  "map cp_pair_num (common_pairs (init_color_pair_cache color_pair_cache_static)) = [1, 2, 3, 4, 5, 6, 7, 8, 9, 10]
   \<and> next_pair (init_color_pair_cache color_pair_cache_static) = 1
   \<and> find_common TUI_COLOR_GREEN TUI_COLOR_BLACK
        (common_pairs (init_color_pair_cache color_pair_cache_static)) = Some 1
   \<and> find_common TUI_COLOR_RED TUI_COLOR_GREEN
        (common_pairs (init_color_pair_cache color_pair_cache_static)) = None
   \<and> (TUI_COLOR_RED, TUI_COLOR_GREEN) \<noteq> (TUI_COLOR_GREEN, TUI_COLOR_BLACK)
   \<and> (let (r1, c1) = get_or_alloc_pair TUI_COLOR_RED TUI_COLOR_BLUE
                        (init_color_pair_cache color_pair_cache_static);
           (r2, c2) = get_or_alloc_pair TUI_COLOR_RED TUI_COLOR_GREEN c1;
           (r3, c3) = get_or_alloc_pair TUI_COLOR_GREEN TUI_COLOR_BLACK c2
       in r1 = 1 \<and> r2 = 2 \<and> r3 = 2)"
  by (simp add: init_color_pair_cache_def init_common_pairs_cache_def
      color_pair_cache_static_def get_or_alloc_pair_def Let_def common_colors_def
      hash_color_pair_def pack_fg_bg_def fnv1a_step_def color_consts upt_conv_Cons)

section \<open>Rendition sequences (tui.c, get\_rgb\_values and get\_cached\_attr\_sequence)\<close>

text \<open>
  Attribute words are C \<open>int\<close>s used as bit masks; they are modelled as 32-bit words.
  Colors are \<open>short\<close>s, modelled as \<open>int\<close>. Division is the truncating division of C.
\<close>

definition TUI_A_NORMAL :: "32 word" where "TUI_A_NORMAL = 0x00000000"
definition TUI_A_BOLD :: "32 word" where "TUI_A_BOLD = 0x00200000"
definition TUI_A_COLOR :: "32 word" where "TUI_A_COLOR = 0xFF00"
definition MAX_CUSTOM_COLORS :: int where "MAX_CUSTOM_COLORS = 256"
definition ATTR_COMBO_CACHE_SIZE :: nat where "ATTR_COMBO_CACHE_SIZE = 1024"
definition ESC_SEQ_POOL_SIZE :: int where "ESC_SEQ_POOL_SIZE = 2048"
definition ESC_SEQ_MAX_LEN :: int where "ESC_SEQ_MAX_LEN = 64"
definition ESC_SEQ_HASH_SIZE :: nat where "ESC_SEQ_HASH_SIZE = 512"

record color_def_t =
  def_r :: int
  def_g :: int
  def_b :: int

text \<open>The static table \<open>color_defs\<close>: the eight basic colors, all other entries zero.\<close>

definition color_defs_static :: "int \<Rightarrow> color_def_t" where
  "color_defs_static i =
     (if i = 1 then \<lparr>def_r = 1000, def_g = 0, def_b = 0\<rparr>
      else if i = 2 then \<lparr>def_r = 0, def_g = 1000, def_b = 0\<rparr>
      else if i = 3 then \<lparr>def_r = 1000, def_g = 1000, def_b = 0\<rparr>
      else if i = 4 then \<lparr>def_r = 0, def_g = 0, def_b = 1000\<rparr>
      else if i = 5 then \<lparr>def_r = 1000, def_g = 0, def_b = 1000\<rparr>
      else if i = 6 then \<lparr>def_r = 0, def_g = 1000, def_b = 1000\<rparr>
      else if i = 7 then \<lparr>def_r = 1000, def_g = 1000, def_b = 1000\<rparr>
      else \<lparr>def_r = 0, def_g = 0, def_b = 0\<rparr>)"

definition tui_init_color ::
  "int \<Rightarrow> int \<Rightarrow> int \<Rightarrow> int \<Rightarrow> (int \<Rightarrow> color_def_t) \<Rightarrow> (int \<Rightarrow> color_def_t)" where
  "tui_init_color color r g b defs =
     (if color \<ge> 0 \<and> color < MAX_CUSTOM_COLORS
      then defs(color := \<lparr>def_r = r, def_g = g, def_b = b\<rparr>)
      else defs)"

definition get_rgb_values :: "int \<Rightarrow> int \<Rightarrow> int \<Rightarrow> int \<times> int \<times> int" where
  "get_rgb_values r g b =
     (if r > 255 \<or> g > 255 \<or> b > 255
      then ((r * 255) sdiv 1000, (g * 255) sdiv 1000, (b * 255) sdiv 1000)
      else (r, g, b))"

text \<open>The \<open>%d\<close> conversion of \<open>snprintf\<close>.\<close>

definition digit_char :: "nat \<Rightarrow> char" where
  "digit_char n = ''0123456789'' ! n"

function dec_digits :: "nat \<Rightarrow> string" where
  "dec_digits n =
     (if n < 10 then [digit_char n] else dec_digits (n div 10) @ [digit_char (n mod 10)])"
  by pat_completeness auto
termination
  by (relation "measure id") auto

declare dec_digits.simps [simp del]

definition fmt_d :: "int \<Rightarrow> string" where
  "fmt_d i = (if i < 0 then CHR ''-'' # dec_digits (nat (- i)) else dec_digits (nat i))"

text \<open>
  A \<open>const char *\<close> to a rendition sequence. \<open>intern_esc_sequence\<close> gives back either a
  pointer into the \<open>sequence\<close> array of a pool entry, which lives as long as the pool and
  whose bytes are carried along as \<open>Interned\<close>, or its own argument. In
  \<open>get_cached_attr_sequence\<close> that argument is the local array \<open>seq_buf\<close>: once the function
  has returned, the array is dead, and \<open>Stack_buffer\<close> stands for the pointer to it.
\<close>

datatype seq_ptr = Interned string | Stack_buffer

text \<open>
  What a reader gets who takes \<open>len\<close> bytes through the pointer, as \<open>tui_write(seq, len)\<close>
  does; reading a dead stack array is undefined behaviour, \<open>None\<close>.
\<close>

definition seq_bytes :: "seq_ptr \<Rightarrow> int \<Rightarrow> string option" where
  "seq_bytes p len = (case p of Interned bytes \<Rightarrow> Some (take (nat len) bytes) | Stack_buffer \<Rightarrow> None)"

record esc_seq_entry_t =
  entry_sequence :: string
  entry_length :: int
  entry_hash :: "32 word"
  ref_count :: int

record attr_combo_entry_t =
  combo_fg :: int
  combo_bg :: int
  combo_attrs :: "32 word"
  combo_sequence :: seq_ptr
  combo_seq_length :: int

text \<open>
  The cache \<open>esc_seq_cache\<close>. A bucket of a hash table is the list of the entries chained
  in it, head first; the pools are bump allocators, of which only the counters matter.
\<close>

record esc_seq_cache_t =
  esc_initialized :: bool
  precomputed_initialized :: bool
  hash_table :: "nat \<Rightarrow> esc_seq_entry_t list"
  pool_size :: int
  pool_used :: int
  attr_combo_table :: "nat \<Rightarrow> attr_combo_entry_t list"
  attr_combo_pool_size :: int
  attr_combo_pool_used :: int

text \<open>\<open>hash_string\<close>: \<open>hash = ((hash << 5) + hash) + (unsigned char) str[i]\<close> from 5381.\<close>

definition hash_string :: "string \<Rightarrow> 32 word" where
  "hash_string str = fold (\<lambda>c hash. (push_bit 5 hash + hash) + of_char c) str 5381"

text \<open>
  The search of \<open>intern_esc_sequence\<close> through one bucket: the first entry with the hash,
  the length and the first \<open>len\<close> bytes of the argument has its \<open>ref_count\<close> incremented,
  and its \<open>sequence\<close> is the result. The sequences handed in hold no zero byte, so an entry
  whose string is shorter than \<open>len\<close> does not compare equal.
\<close>

fun intern_lookup ::
  "32 word \<Rightarrow> string \<Rightarrow> esc_seq_entry_t list \<Rightarrow> (string \<times> esc_seq_entry_t list) option" where
  "intern_lookup hash seq [] = None"
| "intern_lookup hash seq (entry # es) =
     (if entry_hash entry = hash \<and> entry_length entry = int (length seq)
         \<and> take (length seq) (entry_sequence entry) = seq
      then Some (entry_sequence entry, entry\<lparr>ref_count := ref_count entry + 1\<rparr> # es)
      else map_option (\<lambda>(found, es'). (found, entry # es')) (intern_lookup hash seq es))"

text \<open>
  \<open>intern_esc_sequence(seq, len)\<close>; the argument of the model is the \<open>len\<close> bytes that the
  function is given. When the cache is not initialised, there are 64 bytes or more, or the
  pool is full, the result is the argument itself.
\<close>

definition intern_esc_sequence :: "string \<Rightarrow> esc_seq_cache_t \<Rightarrow> seq_ptr \<times> esc_seq_cache_t" where
  "intern_esc_sequence seq e =
     (if \<not> esc_initialized e \<or> int (length seq) \<ge> ESC_SEQ_MAX_LEN then (Stack_buffer, e)
      else
        (let hash = hash_string seq;
             bucket = unat hash mod ESC_SEQ_HASH_SIZE
         in case intern_lookup hash seq (hash_table e bucket) of
              Some (found, es) \<Rightarrow> (Interned found, e\<lparr>hash_table := (hash_table e)(bucket := es)\<rparr>)
            | None \<Rightarrow>
                (if pool_used e \<ge> pool_size e then (Stack_buffer, e)
                 else (Interned seq,
                       e\<lparr>pool_used := pool_used e + 1,
                         hash_table := (hash_table e)
                           (bucket := \<lparr>entry_sequence = seq, entry_length = int (length seq),
                                       entry_hash = hash, ref_count = 1\<rparr>
                                      # hash_table e bucket)\<rparr>))))"

text \<open>
  The bucket of an attribute combination:
  \<open>(((uint32_t) fg << 16) | ((uint32_t) bg << 8) | (attrs & 0xFF)) % ATTR_COMBO_CACHE_SIZE\<close>.
\<close>

definition attr_combo_bucket :: "int \<Rightarrow> int \<Rightarrow> 32 word \<Rightarrow> nat" where
  "attr_combo_bucket fg bg attrs =
     unat (push_bit 16 (word_of_int fg :: 32 word) OR push_bit 8 (word_of_int bg)
             OR (attrs AND 0xFF))
       mod ATTR_COMBO_CACHE_SIZE"

fun find_attr_combo ::
  "int \<Rightarrow> int \<Rightarrow> 32 word \<Rightarrow> attr_combo_entry_t list \<Rightarrow> attr_combo_entry_t option" where
  "find_attr_combo fg bg attrs [] = None"
| "find_attr_combo fg bg attrs (e # es) =
     (if combo_fg e = fg \<and> combo_bg e = bg \<and> combo_attrs e = attrs then Some e
      else find_attr_combo fg bg attrs es)"

text \<open>
  The sequence built on a cache miss. The buffer holds 64 bytes; the longest sequence
  that \<open>short\<close> colors and components can produce has 58, so no \<open>snprintf\<close> truncates and
  each one is an append.
\<close>

definition build_attr_sequence ::
  "(int \<Rightarrow> color_def_t) \<Rightarrow> int \<Rightarrow> int \<Rightarrow> 32 word \<Rightarrow> string" where
  "build_attr_sequence defs fg bg attrs =
     (let s0 = [CHR 0x1B, CHR ''['', CHR ''0''];
          s1 = (if attrs AND TUI_A_BOLD \<noteq> 0 then s0 @ '';1'' else s0);
          s2 = (if fg \<noteq> TUI_COLOR_WHITE then
                  (if fg \<ge> 8 \<and> fg < MAX_CUSTOM_COLORS then
                     (case get_rgb_values (def_r (defs fg)) (def_g (defs fg)) (def_b (defs fg)) of
                        (r, g, b) \<Rightarrow>
                          s1 @ '';38;2;'' @ fmt_d r @ '';'' @ fmt_d g @ '';'' @ fmt_d b)
                   else if fg < 8 then s1 @ '';3'' @ fmt_d fg
                   else s1)
                else s1);
          s3 = (if bg \<noteq> TUI_COLOR_BLACK then
                  (if bg \<ge> 8 \<and> bg < MAX_CUSTOM_COLORS then
                     (case get_rgb_values (def_r (defs bg)) (def_g (defs bg)) (def_b (defs bg)) of
                        (r, g, b) \<Rightarrow>
                          s2 @ '';48;2;'' @ fmt_d r @ '';'' @ fmt_d g @ '';'' @ fmt_d b)
                   else if bg < 8 then s2 @ '';4'' @ fmt_d bg
                   else s2)
                else s2)
      in s3 @ ''m'')"

text \<open>
  \<open>get_cached_attr_sequence\<close>: \<open>None\<close> is the \<open>NULL\<close> result. On a miss the sequence is
  built in the local \<open>seq_buf\<close> and handed to \<open>intern_esc_sequence\<close>; what comes back is
  cached, if the combination pool has room, and returned. When the sequence was not
  interned, that is the pointer to \<open>seq_buf\<close>.
\<close>

definition get_cached_attr_sequence ::
  "(int \<Rightarrow> color_def_t) \<Rightarrow> int \<Rightarrow> int \<Rightarrow> 32 word \<Rightarrow> esc_seq_cache_t
     \<Rightarrow> (seq_ptr \<times> int) option \<times> esc_seq_cache_t" where
  "get_cached_attr_sequence defs fg bg attrs e =
     (if \<not> esc_initialized e then (None, e)
      else
        (let bucket = attr_combo_bucket fg bg attrs
         in case find_attr_combo fg bg attrs (attr_combo_table e bucket) of
              Some entry \<Rightarrow> (Some (combo_sequence entry, combo_seq_length entry), e)
            | None \<Rightarrow>
                (let seq_buf = build_attr_sequence defs fg bg attrs;
                     seq_len = int (length seq_buf);
                     (interned_seq, e1) = intern_esc_sequence seq_buf e;
                     e2 = (if attr_combo_pool_used e1 < attr_combo_pool_size e1
                           then e1\<lparr>attr_combo_pool_used := attr_combo_pool_used e1 + 1,
                                   attr_combo_table := (attr_combo_table e1)
                                     (bucket := \<lparr>combo_fg = fg, combo_bg = bg, combo_attrs = attrs,
                                                 combo_sequence = interned_seq,
                                                 combo_seq_length = seq_len\<rparr>
                                                # attr_combo_table e1 bucket)\<rparr>
                           else e1)
                 in (Some (interned_seq, seq_len), e2))))"

text \<open>
  The cache as \<open>init_esc_seq_cache\<close> allocates it, with the precomputed tables filled and
  before anything is interned or cached.
\<close>

definition esc_seq_cache_empty :: esc_seq_cache_t where
  "esc_seq_cache_empty =
     \<lparr>esc_initialized = True, precomputed_initialized = True,
      hash_table = (\<lambda>_. []), pool_size = ESC_SEQ_POOL_SIZE, pool_used = 0,
      attr_combo_table = (\<lambda>_. []),
      attr_combo_pool_size = int ATTR_COMBO_CACHE_SIZE, attr_combo_pool_used = 0\<rparr>"

subsection \<open>Properties of the rendition sequence\<close>

lemma scaled_nonneg: "0 \<le> r \<Longrightarrow> (r * 255) sdiv 1000 = (r * 255) div (1000::int)"
  by (simp add: signed_divide_int_def sgn_if)

lemma get_rgb_values_in_range:
  assumes "0 \<le> r" and "0 \<le> g" and "0 \<le> b"
  shows "get_rgb_values r g b =
           (if r > 255 \<or> g > 255 \<or> b > 255
            then ((r * 255) div 1000, (g * 255) div 1000, (b * 255) div 1000)
            else (r, g, b))"
  using assms by (simp add: get_rgb_values_def scaled_nonneg)

text \<open>The shape of the sequence built for a custom foreground, and for a custom background.\<close>

lemma build_attr_sequence_custom_fg:
  assumes "8 \<le> c" and "c < 256" and "get_rgb_values (def_r (defs c)) (def_g (defs c)) (def_b (defs c)) = (r', g', b')"
  shows "\<exists>rest. build_attr_sequence defs c bg attrs =
           [CHR 0x1B] @ ''[0'' @ (if attrs AND TUI_A_BOLD \<noteq> 0 then '';1'' else [])
             @ '';38;2;'' @ fmt_d r' @ '';'' @ fmt_d g' @ '';'' @ fmt_d b' @ rest"
  using assms
  by (simp add: build_attr_sequence_def Let_def MAX_CUSTOM_COLORS_def color_consts
        split: prod.splits)

lemma build_attr_sequence_custom_bg:
  assumes "8 \<le> c" and "c < 256" and "get_rgb_values (def_r (defs c)) (def_g (defs c)) (def_b (defs c)) = (r', g', b')"
  shows "\<exists>front. build_attr_sequence defs fg c attrs =
           front @ '';48;2;'' @ fmt_d r' @ '';'' @ fmt_d g' @ '';'' @ fmt_d b' @ ''m''"
proof -
  define front where "front =
     (let s0 = [CHR 0x1B, CHR ''['', CHR ''0''];
          s1 = (if attrs AND TUI_A_BOLD \<noteq> 0 then s0 @ '';1'' else s0)
      in if fg \<noteq> TUI_COLOR_WHITE then
           (if fg \<ge> 8 \<and> fg < MAX_CUSTOM_COLORS then
              (case get_rgb_values (def_r (defs fg)) (def_g (defs fg)) (def_b (defs fg)) of
                 (r, g, b) \<Rightarrow> s1 @ '';38;2;'' @ fmt_d r @ '';'' @ fmt_d g @ '';'' @ fmt_d b)
            else if fg < 8 then s1 @ '';3'' @ fmt_d fg
            else s1)
         else s1)"
  from assms have "build_attr_sequence defs fg c attrs =
           front @ '';48;2;'' @ fmt_d r' @ '';'' @ fmt_d g' @ '';'' @ fmt_d b' @ ''m''"
    unfolding build_attr_sequence_def front_def Let_def
    by (simp add: MAX_CUSTOM_COLORS_def color_consts)
  then show ?thesis by blast
qed

text \<open>
  When \<open>intern_esc_sequence\<close> finds the sequence or has a free pool entry for it, the
  pointer it gives back leads to the bytes of the sequence.
\<close>

lemma intern_lookup_bytes:
  "intern_lookup hash seq es = Some (found, es') \<Longrightarrow> take (length seq) found = seq"
  by (induction es arbitrary: es') (auto split: if_splits)

lemma intern_esc_sequence_room:
  assumes "esc_initialized e" and "int (length seq) < ESC_SEQ_MAX_LEN"
    and "pool_used e < pool_size e"
  shows "seq_bytes (fst (intern_esc_sequence seq e)) (int (length seq)) = Some seq"
  using assms
  by (auto simp: intern_esc_sequence_def Let_def seq_bytes_def intern_lookup_bytes
           split: option.splits)

text \<open>
  Claim C8, as the code has it. For a custom color index \<open>c\<close> in 8..255 whose components
  lie in 0..1000, the sequence built for a combination with \<open>c\<close> as foreground carries the
  truecolor triplet behind \<open>38;2\<close>, and the one built with \<open>c\<close> as background carries it
  behind \<open>48;2\<close>, whatever the other color and the text attributes are. The components
  are scaled by \<open>(x * 255) / 1000\<close> when at least one of them exceeds 255; when all three
  are at most 255, \<open>get_rgb_values\<close> takes them to be in the range 0..255 already and they
  are emitted unchanged. On a cache miss the caller can read exactly the sequence built
  through the pointer that \<open>get_cached_attr_sequence\<close> returns, provided the sequence is
  shorter than 64 bytes and the interning pool has a free entry.
\<close>

theorem custom_color_sequence_scaling:
  assumes "8 \<le> c" and "c < 256"
    and "defs c = \<lparr>def_r = r, def_g = g, def_b = b\<rparr>"
    and "0 \<le> r" and "r \<le> 1000" and "0 \<le> g" and "g \<le> 1000" and "0 \<le> b" and "b \<le> 1000"
  shows "(\<exists>rest. build_attr_sequence defs c bg attrs =
            [CHR 0x1B] @ ''[0'' @ (if attrs AND TUI_A_BOLD \<noteq> 0 then '';1'' else [])
              @ '';38;2;''
              @ (if r > 255 \<or> g > 255 \<or> b > 255
                 then fmt_d ((r * 255) div 1000) @ '';'' @ fmt_d ((g * 255) div 1000) @ '';''
                        @ fmt_d ((b * 255) div 1000)
                 else fmt_d r @ '';'' @ fmt_d g @ '';'' @ fmt_d b)
              @ rest)
       \<and> (\<exists>front. build_attr_sequence defs fg c attrs =
            front @ '';48;2;''
              @ (if r > 255 \<or> g > 255 \<or> b > 255
                 then fmt_d ((r * 255) div 1000) @ '';'' @ fmt_d ((g * 255) div 1000) @ '';''
                        @ fmt_d ((b * 255) div 1000)
                 else fmt_d r @ '';'' @ fmt_d g @ '';'' @ fmt_d b)
              @ ''m'')
       \<and> (esc_initialized e
            \<and> find_attr_combo fg' bg' attrs'
                 (attr_combo_table e (attr_combo_bucket fg' bg' attrs')) = None
            \<and> int (length (build_attr_sequence defs fg' bg' attrs')) < ESC_SEQ_MAX_LEN
            \<and> pool_used e < pool_size e
          \<longrightarrow> (\<exists>p. fst (get_cached_attr_sequence defs fg' bg' attrs' e)
                       = Some (p, int (length (build_attr_sequence defs fg' bg' attrs')))
                   \<and> seq_bytes p (int (length (build_attr_sequence defs fg' bg' attrs')))
                       = Some (build_attr_sequence defs fg' bg' attrs')))"
proof -
  from assms have rgb: "get_rgb_values (def_r (defs c)) (def_g (defs c)) (def_b (defs c)) =
           (if r > 255 \<or> g > 255 \<or> b > 255
            then ((r * 255) div 1000, (g * 255) div 1000, (b * 255) div 1000)
            else (r, g, b))"
    by (simp add: get_rgb_values_in_range)
  show ?thesis
  proof (intro conjI impI)
    from build_attr_sequence_custom_fg [OF assms(1,2), of defs _ _ _ bg attrs] rgb
    show "\<exists>rest. build_attr_sequence defs c bg attrs =
            [CHR 0x1B] @ ''[0'' @ (if attrs AND TUI_A_BOLD \<noteq> 0 then '';1'' else [])
              @ '';38;2;''
              @ (if r > 255 \<or> g > 255 \<or> b > 255
                 then fmt_d ((r * 255) div 1000) @ '';'' @ fmt_d ((g * 255) div 1000) @ '';''
                        @ fmt_d ((b * 255) div 1000)
                 else fmt_d r @ '';'' @ fmt_d g @ '';'' @ fmt_d b)
              @ rest"
      by (cases "r > 255 \<or> g > 255 \<or> b > 255") simp_all
  next
    from build_attr_sequence_custom_bg [OF assms(1,2), of defs _ _ _ fg attrs] rgb
    show "\<exists>front. build_attr_sequence defs fg c attrs =
            front @ '';48;2;''
              @ (if r > 255 \<or> g > 255 \<or> b > 255
                 then fmt_d ((r * 255) div 1000) @ '';'' @ fmt_d ((g * 255) div 1000) @ '';''
                        @ fmt_d ((b * 255) div 1000)
                 else fmt_d r @ '';'' @ fmt_d g @ '';'' @ fmt_d b)
              @ ''m''"
      by (cases "r > 255 \<or> g > 255 \<or> b > 255") simp_all
  next
    let ?seq = "build_attr_sequence defs fg' bg' attrs'"
    assume h: "esc_initialized e
            \<and> find_attr_combo fg' bg' attrs'
                 (attr_combo_table e (attr_combo_bucket fg' bg' attrs')) = None
            \<and> int (length ?seq) < ESC_SEQ_MAX_LEN \<and> pool_used e < pool_size e"
    then have "seq_bytes (fst (intern_esc_sequence ?seq e)) (int (length ?seq)) = Some ?seq"
      by (simp add: intern_esc_sequence_room)
    moreover from h have "fst (get_cached_attr_sequence defs fg' bg' attrs' e)
        = Some (fst (intern_esc_sequence ?seq e), int (length ?seq))"
      by (simp add: get_cached_attr_sequence_def Let_def split: prod.splits)
    ultimately show "\<exists>p. fst (get_cached_attr_sequence defs fg' bg' attrs' e)
                       = Some (p, int (length ?seq))
                   \<and> seq_bytes p (int (length ?seq)) = Some ?seq"
      by blast
  qed
qed

text \<open>
  Color 8 defined as (1000, 500, 0): as foreground on black it gives the sequence with
  \<open>38;2;255;127;0\<close>, and with the empty cache of \<open>init_esc_seq_cache\<close> the caller reads
  exactly that sequence.
\<close>

theorem custom_color_sequence_scaling_witness:
  "build_attr_sequence (tui_init_color 8 1000 500 0 color_defs_static) 8 TUI_COLOR_BLACK TUI_A_NORMAL
     = [CHR 0x1B] @ ''[0;38;2;255;127;0m''
   \<and> (\<exists>front. build_attr_sequence (tui_init_color 8 1000 500 0 color_defs_static)
                 TUI_COLOR_WHITE 8 TUI_A_NORMAL = front @ '';48;2;255;127;0m'')
   \<and> (\<exists>p. fst (get_cached_attr_sequence (tui_init_color 8 1000 500 0 color_defs_static)
                  8 TUI_COLOR_BLACK TUI_A_NORMAL esc_seq_cache_empty) = Some (p, 19)
          \<and> seq_bytes p 19 = Some ([CHR 0x1B] @ ''[0;38;2;255;127;0m''))"
proof -
  let ?defs = "tui_init_color 8 1000 500 0 color_defs_static"
  have d: "?defs 8 = \<lparr>def_r = 1000, def_g = 500, def_b = 0\<rparr>"
    by (simp add: tui_init_color_def MAX_CUSTOM_COLORS_def)
  have s: "build_attr_sequence ?defs 8 TUI_COLOR_BLACK TUI_A_NORMAL
             = [CHR 0x1B] @ ''[0;38;2;255;127;0m''"
    by (simp add: build_attr_sequence_def Let_def get_rgb_values_def tui_init_color_def
          TUI_A_NORMAL_def TUI_A_BOLD_def MAX_CUSTOM_COLORS_def color_consts
          fmt_d_def dec_digits.simps digit_char_def signed_divide_int_def)
  have pre: "esc_initialized esc_seq_cache_empty
       \<and> find_attr_combo 8 TUI_COLOR_BLACK TUI_A_NORMAL
            (attr_combo_table esc_seq_cache_empty
               (attr_combo_bucket 8 TUI_COLOR_BLACK TUI_A_NORMAL)) = None
       \<and> int (length (build_attr_sequence ?defs 8 TUI_COLOR_BLACK TUI_A_NORMAL)) < ESC_SEQ_MAX_LEN
       \<and> pool_used esc_seq_cache_empty < pool_size esc_seq_cache_empty"
    by (simp add: s esc_seq_cache_empty_def ESC_SEQ_MAX_LEN_def ESC_SEQ_POOL_SIZE_def)
  note t = custom_color_sequence_scaling [of 8 ?defs 1000 500 0 TUI_COLOR_BLACK TUI_A_NORMAL
      TUI_COLOR_WHITE esc_seq_cache_empty 8 TUI_COLOR_BLACK TUI_A_NORMAL, OF _ _ d]
  from t have "\<exists>front. build_attr_sequence ?defs TUI_COLOR_WHITE 8 TUI_A_NORMAL
                 = front @ '';48;2;255;127;0m''"
    by (simp add: fmt_d_def dec_digits.simps digit_char_def)
  moreover from t pre have "\<exists>p. fst (get_cached_attr_sequence ?defs 8 TUI_COLOR_BLACK TUI_A_NORMAL
                  esc_seq_cache_empty) = Some (p, 19)
          \<and> seq_bytes p 19 = Some ([CHR 0x1B] @ ''[0;38;2;255;127;0m'')"
    by (simp add: s)
  ultimately show ?thesis using s by blast
qed

text \<open>
  Claim C8 as stated fails for components that are all at most 255: color 8 defined as
  (200, 100, 50) on the scale 0..1000 yields the triplet 200;100;50, not the scaled
  51;25;12. And once the interning pool is full, the sequence built for a combination
  that is not cached yet is not handed out at all: \<open>get_cached_attr_sequence\<close> returns,
  and caches, the pointer to its own local buffer.
\<close>

theorem custom_color_unscaled_counterexample:
  "build_attr_sequence (tui_init_color 8 200 100 50 color_defs_static) 8 TUI_COLOR_BLACK
          TUI_A_NORMAL
     = [CHR 0x1B] @ ''[0;38;2;200;100;50m''
   \<and> ((200 * 255) div 1000, (100 * 255) div 1000, (50 * 255) div 1000) = (51 :: int, 25 :: int, 12 :: int)
   \<and> [CHR 0x1B] @ ''[0;38;2;200;100;50m'' \<noteq> [CHR 0x1B] @ ''[0;38;2;51;25;12m''
   \<and> fst (get_cached_attr_sequence (tui_init_color 8 1000 500 0 color_defs_static) 8
             TUI_COLOR_BLACK TUI_A_NORMAL (esc_seq_cache_empty\<lparr>pool_used := ESC_SEQ_POOL_SIZE\<rparr>))
       = Some (Stack_buffer, 19)
   \<and> seq_bytes Stack_buffer 19 = None"
  by (simp add: get_cached_attr_sequence_def build_attr_sequence_def Let_def get_rgb_values_def
      intern_esc_sequence_def seq_bytes_def ESC_SEQ_MAX_LEN_def ESC_SEQ_POOL_SIZE_def
      tui_init_color_def color_defs_static_def esc_seq_cache_empty_def
      TUI_A_NORMAL_def TUI_A_BOLD_def MAX_CUSTOM_COLORS_def color_consts
      fmt_d_def dec_digits.simps digit_char_def signed_divide_int_def)

section \<open>Scatter-gather output buffer (tui.c, tui\_flush\_vectored)\<close>

text \<open>
  A span (\<open>struct iovec\<close>) points into the private data pool; it is modelled by the bytes
  it covers, and the span array by the list of its spans. The operating system is a
  script: the list of results the successive \<open>writev\<close> calls return. A call that returns
  \<open>n \<ge> 0\<close> has accepted the first \<open>n\<close> bytes of the spans it was offered; a negative
  result comes with \<open>errno\<close> either \<open>EINTR\<close> or something else. When the script is used up
  while the loop still wants to write, the model yields \<open>None\<close>: the call has not
  returned.
\<close>

definition MAX_IOVECS :: nat where "MAX_IOVECS = 128"
definition WRITEV_BUFFER_SIZE :: nat where "WRITEV_BUFFER_SIZE = 4096"
definition VEC_FLUSH_THRESHOLD :: nat where "VEC_FLUSH_THRESHOLD = 64"
definition WRITEV_DATA_POOL_SIZE :: nat where "WRITEV_DATA_POOL_SIZE = 8192"

record writev_buffer_t =
  vecs :: "string list"
  total_bytes :: nat
  auto_flush_enabled :: bool
  data_pool_used :: nat

datatype writev_result = Written nat | Eintr | Hard_error

datatype loop_exit = Loop_done | Break_error | Break_no_progress

fun adjust_iovecs_after_partial_write :: "string list \<Rightarrow> nat \<Rightarrow> string list" where
  "adjust_iovecs_after_partial_write [] remaining = []"
| "adjust_iovecs_after_partial_write (v # vs) remaining =
     (if remaining > 0 then
        (if remaining \<ge> length v
         then adjust_iovecs_after_partial_write vs (remaining - length v)
         else drop remaining v # vs)
      else v # vs)"

text \<open>
  The retry loop of \<open>tui_flush_vectored\<close>. \<open>accepted\<close> collects, in order, the bytes the
  \<open>writev\<close> calls have taken. The result also tells how the loop ended and what is left
  of the script.
\<close>

fun flush_loop ::
  "writev_result list \<Rightarrow> string list \<Rightarrow> int \<Rightarrow> int \<Rightarrow> string
     \<Rightarrow> (string \<times> loop_exit \<times> writev_result list) option" where
  "flush_loop script current_vecs remaining_total written_total accepted =
     (if written_total < remaining_total \<and> 0 < length current_vecs then
        (case script of
           [] \<Rightarrow> None
         | Eintr # rest \<Rightarrow> flush_loop rest current_vecs remaining_total written_total accepted
         | Hard_error # rest \<Rightarrow> Some (accepted, Break_error, rest)
         | Written n # rest \<Rightarrow>
             (if n = 0 then Some (accepted, Break_no_progress, rest)
              else flush_loop rest
                     (adjust_iovecs_after_partial_write current_vecs n)
                     (remaining_total - int n) (written_total + int n)
                     (accepted @ take n (concat current_vecs))))
      else Some (accepted, Loop_done, script))"

definition tui_flush_vectored ::
  "writev_result list \<Rightarrow> writev_buffer_t
     \<Rightarrow> (string \<times> loop_exit \<times> writev_result list \<times> writev_buffer_t) option" where
  "tui_flush_vectored script buf =
     (if length (vecs buf) = 0 then Some ([], Loop_done, script, buf)
      else case flush_loop script (vecs buf) (int (total_bytes buf)) 0 [] of
             None \<Rightarrow> None
           | Some (accepted, ex, rest) \<Rightarrow>
               Some (accepted, ex, rest,
                     buf\<lparr>vecs := [], total_bytes := 0, data_pool_used := 0\<rparr>))"

text \<open>A buffer holding 70 bytes in three spans of 30, 20 and 20 bytes.\<close>

definition three_spans :: writev_buffer_t where
  "three_spans =
     \<lparr>vecs = [replicate 30 CHR ''a'', replicate 20 CHR ''b'', replicate 20 CHR ''c''],
      total_bytes = 70, auto_flush_enabled = True, data_pool_used = 70\<rparr>"

subsection \<open>Properties of the flush loop\<close>

text \<open>Trimming removes exactly the written bytes from the front of the span list.\<close>

lemma adjust_iovecs_concat:
  "concat (adjust_iovecs_after_partial_write vs n) = drop n (concat vs)"
  by (induction vs n rule: adjust_iovecs_after_partial_write.induct) auto

text \<open>Whatever the script, the accepted bytes are a prefix of the buffered content.\<close>

lemma flush_loop_accepts_prefix:
  "flush_loop script vs t w acc = Some (acc', ex, rest)
     \<Longrightarrow> \<exists>k. acc' = acc @ take k (concat vs)"
proof (induction script vs t w acc rule: flush_loop.induct)
  case (1 script vs t w acc)
  show ?case
  proof (cases "w < t \<and> 0 < length vs")
    case False
    with "1.prems" have "acc' = acc" by (auto split: if_splits)
    then show ?thesis by (intro exI [of _ 0]) simp
  next
    case run: True
    show ?thesis
    proof (cases script)
      case Nil
      with run "1.prems" show ?thesis by simp
    next
      case (Cons r rest')
      show ?thesis
      proof (cases r)
        case (Written n)
        show ?thesis
        proof (cases "n = 0")
          case True
          with run Cons Written "1.prems" have "acc' = acc" by simp
          then show ?thesis by (intro exI [of _ 0]) simp
        next
          case False
          with run Cons Written "1.prems"
          have "flush_loop rest' (adjust_iovecs_after_partial_write vs n) (t - int n)
                  (w + int n) (acc @ take n (concat vs)) = Some (acc', ex, rest)"
            by simp
          from "1.IH"(1) [OF run Cons Written False this]
          obtain k where "acc' = (acc @ take n (concat vs))
                            @ take k (concat (adjust_iovecs_after_partial_write vs n))"
            by blast
          then have "acc' = acc @ take (n + k) (concat vs)"
            by (simp add: adjust_iovecs_concat take_add)
          then show ?thesis by blast
        qed
      next
        case Eintr
        with run Cons "1.prems"
        have "flush_loop rest' vs t w acc = Some (acc', ex, rest)" by simp
        from "1.IH"(2) [OF run Cons Eintr this] show ?thesis .
      next
        case Hard_error
        with run Cons "1.prems" have "acc' = acc" by simp
        then show ?thesis by (intro exI [of _ 0]) simp
      qed
    qed
  qed
qed

text \<open>
  Claim C4 at the scenario of the specification: 70 bytes in three spans, the first
  \<open>writev\<close> accepts 40 bytes. The loop adds the 40 bytes to \<open>written_total\<close> and also
  subtracts them from \<open>total_bytes\<close>, so its condition \<open>written_total < total_bytes\<close>
  reads \<open>40 < 30\<close>: the loop ends without a second \<open>writev\<close>, the buffer is reset, and
  the last 30 bytes are never written.
\<close>

theorem tui_flush_vectored_partial_write_drops_bytes:
  "tui_flush_vectored [Written 40, Written 30] three_spans =
     Some (replicate 30 CHR ''a'' @ replicate 10 CHR ''b'', Loop_done, [Written 30],
           \<lparr>vecs = [], total_bytes = 0, auto_flush_enabled = True, data_pool_used = 0\<rparr>)
   \<and> concat (vecs three_spans) =
       replicate 30 CHR ''a'' @ replicate 20 CHR ''b'' @ replicate 20 CHR ''c''
   \<and> length (replicate 30 CHR ''a'' @ replicate 10 CHR ''b'') = 40
   \<and> length (concat (vecs three_spans)) = 70"
  by (simp add: tui_flush_vectored_def three_spans_def)

section \<open>Hierarchical dirty-region tracker (tui.c, mark\_dirty and friends)\<close>

text \<open>
  Rows, columns and tile indices are C \<open>int\<close>s; they stay far below the 32-bit range and
  are modelled as \<open>int\<close>, with \<open>sdiv\<close> for the truncating division of C. The tile flags
  \<open>l1_tiles\<close> and \<open>l2_blocks\<close> are two-dimensional arrays of fixed size; the bitmaps are
  arrays of 64-bit words. An access outside an array, or a shift by a negative amount,
  is undefined behaviour in C: a function that can do it returns an \<open>option\<close>, and \<open>None\<close>
  stands for the undefined behaviour.

  The sparse lists are linked lists through a pool of 512 nodes shared by both levels;
  a list is modelled by the coordinates of its nodes, head first, and the free list by
  the number of nodes on it. The pure statistics counters (\<open>total_scans\<close>, \<open>sparse_hits\<close>,
  \<open>l1_scans_avoided\<close>, \<open>l2_scans_avoided\<close>) influence nothing and are left out.
\<close>

definition TILE_L1_SIZE :: int where "TILE_L1_SIZE = 8"
definition TILE_L2_SIZE :: int where "TILE_L2_SIZE = 32"
definition MAX_L1_TILES_X :: int where "MAX_L1_TILES_X = 128"
definition MAX_L1_TILES_Y :: int where "MAX_L1_TILES_Y = 64"
definition MAX_L2_BLOCKS_X :: int where "MAX_L2_BLOCKS_X = 32"
definition MAX_L2_BLOCKS_Y :: int where "MAX_L2_BLOCKS_Y = 16"
definition DIRTY_TILE_POOL_SIZE :: int where "DIRTY_TILE_POOL_SIZE = 512"
definition INT_MAX :: int where "INT_MAX = 2147483647"

lemmas tile_consts =
  TILE_L1_SIZE_def TILE_L2_SIZE_def MAX_L1_TILES_X_def MAX_L1_TILES_Y_def
  MAX_L2_BLOCKS_X_def MAX_L2_BLOCKS_Y_def DIRTY_TILE_POOL_SIZE_def INT_MAX_def

type_synonym dirty_tile_t = "16 word \<times> 16 word"

record dirty_region_t =
  min_row :: int
  max_row :: int
  min_col :: int
  max_col :: int
  has_changes :: bool
  l1_tiles :: "int \<Rightarrow> int \<Rightarrow> bool"
  l1_tiles_x :: int
  l1_tiles_y :: int
  l2_blocks :: "int \<Rightarrow> int \<Rightarrow> bool"
  l2_blocks_x :: int
  l2_blocks_y :: int
  use_hierarchical_tiles :: bool
  use_sparse_tracking :: bool
  frame_count :: nat
  sparse_beneficial_count :: nat
  prefer_sparse_mode :: bool
  dirty_l1_tiles :: "dirty_tile_t list"
  dirty_l2_blocks :: "dirty_tile_t list"
  dirty_tile_free :: nat
  dirty_tile_pool_used :: int
  l1_tile_bitmap :: "nat \<Rightarrow> 64 word"
  l2_block_bitmap :: "nat \<Rightarrow> 64 word"

text \<open>The static initialisers of \<open>dirty_region\<close> and of the sparse-tracking globals.\<close>

definition dirty_region_static :: dirty_region_t where
  "dirty_region_static =
     \<lparr>min_row = INT_MAX, max_row = -1, min_col = INT_MAX, max_col = -1, has_changes = False,
      l1_tiles = (\<lambda>_ _. False), l1_tiles_x = 0, l1_tiles_y = 0,
      l2_blocks = (\<lambda>_ _. False), l2_blocks_x = 0, l2_blocks_y = 0,
      use_hierarchical_tiles = False, use_sparse_tracking = False,
      frame_count = 0, sparse_beneficial_count = 0, prefer_sparse_mode = False,
      dirty_l1_tiles = [], dirty_l2_blocks = [], dirty_tile_free = 0,
      dirty_tile_pool_used = 0, l1_tile_bitmap = (\<lambda>_. 0), l2_block_bitmap = (\<lambda>_. 0)\<rparr>"

definition init_sparse_dirty_tracking :: "dirty_region_t \<Rightarrow> dirty_region_t" where
  "init_sparse_dirty_tracking d =
     d\<lparr>dirty_tile_free := nat DIRTY_TILE_POOL_SIZE, dirty_l1_tiles := [], dirty_l2_blocks := [],
       dirty_tile_pool_used := 0, use_sparse_tracking := True\<rparr>"

text \<open>\<open>alloc_dirty_tile\<close>: \<open>None\<close> is the \<open>NULL\<close> result of an exhausted pool.\<close>

definition alloc_dirty_tile ::
  "int \<Rightarrow> int \<Rightarrow> dirty_region_t \<Rightarrow> (dirty_tile_t \<times> dirty_region_t) option" where
  "alloc_dirty_tile row col d =
     (if dirty_tile_free d = 0 \<or> dirty_tile_pool_used d \<ge> DIRTY_TILE_POOL_SIZE then None
      else Some ((word_of_int row, word_of_int col),
                 d\<lparr>dirty_tile_free := dirty_tile_free d - 1,
                   dirty_tile_pool_used := dirty_tile_pool_used d + 1\<rparr>))"

text \<open>
  The bitmap helpers. \<open>bitmap_set\<close> and \<open>bitmap_test\<close> are the word operations
  \<open>bitmap[i / 64] |= 1ULL << (i % 64)\<close> and \<open>(bitmap[i / 64] & (1ULL << (i % 64))) != 0\<close>
  for a bit index \<open>i \<ge> 0\<close>; the callers only check the upper bounds, so a negative
  bit index is undefined behaviour.
\<close>

definition bitmap_set :: "nat \<Rightarrow> (nat \<Rightarrow> 64 word) \<Rightarrow> (nat \<Rightarrow> 64 word)" where
  "bitmap_set i bm = bm(i div 64 := bm (i div 64) OR push_bit (i mod 64) 1)"

definition bitmap_test :: "nat \<Rightarrow> (nat \<Rightarrow> 64 word) \<Rightarrow> bool" where
  "bitmap_test i bm \<longleftrightarrow> bm (i div 64) AND push_bit (i mod 64) 1 \<noteq> 0"

definition set_l1_tile_bitmap :: "int \<Rightarrow> int \<Rightarrow> dirty_region_t \<Rightarrow> dirty_region_t option" where
  "set_l1_tile_bitmap tile_row tile_col d =
     (if tile_row \<ge> MAX_L1_TILES_Y \<or> tile_col \<ge> MAX_L1_TILES_X then Some d
      else if tile_row * MAX_L1_TILES_X + tile_col < 0 then None
      else Some (d\<lparr>l1_tile_bitmap :=
                     bitmap_set (nat (tile_row * MAX_L1_TILES_X + tile_col)) (l1_tile_bitmap d)\<rparr>))"

definition check_l1_tile_bitmap :: "int \<Rightarrow> int \<Rightarrow> dirty_region_t \<Rightarrow> bool option" where
  "check_l1_tile_bitmap tile_row tile_col d =
     (if tile_row \<ge> MAX_L1_TILES_Y \<or> tile_col \<ge> MAX_L1_TILES_X then Some False
      else if tile_row * MAX_L1_TILES_X + tile_col < 0 then None
      else Some (bitmap_test (nat (tile_row * MAX_L1_TILES_X + tile_col)) (l1_tile_bitmap d)))"

definition set_l2_block_bitmap :: "int \<Rightarrow> int \<Rightarrow> dirty_region_t \<Rightarrow> dirty_region_t option" where
  "set_l2_block_bitmap block_row block_col d =
     (if block_row \<ge> MAX_L2_BLOCKS_Y \<or> block_col \<ge> MAX_L2_BLOCKS_X then Some d
      else if block_row * MAX_L2_BLOCKS_X + block_col < 0 then None
      else Some (d\<lparr>l2_block_bitmap :=
                     bitmap_set (nat (block_row * MAX_L2_BLOCKS_X + block_col)) (l2_block_bitmap d)\<rparr>))"

definition check_l2_block_bitmap :: "int \<Rightarrow> int \<Rightarrow> dirty_region_t \<Rightarrow> bool option" where
  "check_l2_block_bitmap block_row block_col d =
     (if block_row \<ge> MAX_L2_BLOCKS_Y \<or> block_col \<ge> MAX_L2_BLOCKS_X then Some False
      else if block_row * MAX_L2_BLOCKS_X + block_col < 0 then None
      else Some (bitmap_test (nat (block_row * MAX_L2_BLOCKS_X + block_col)) (l2_block_bitmap d)))"

definition reset_sparse_dirty_tracking :: "dirty_region_t \<Rightarrow> dirty_region_t" where
  "reset_sparse_dirty_tracking d =
     d\<lparr>dirty_tile_free :=
         dirty_tile_free d + length (dirty_l1_tiles d) + length (dirty_l2_blocks d),
       dirty_tile_pool_used :=
         dirty_tile_pool_used d - int (length (dirty_l1_tiles d))
           - int (length (dirty_l2_blocks d)),
       dirty_l1_tiles := [], dirty_l2_blocks := [],
       l1_tile_bitmap := (\<lambda>_. 0), l2_block_bitmap := (\<lambda>_. 0)\<rparr>"

definition init_hierarchical_dirty_tracking ::
  "int \<Rightarrow> int \<Rightarrow> dirty_region_t \<Rightarrow> dirty_region_t" where
  "init_hierarchical_dirty_tracking screen_cols screen_rows d =
     (let d1 = d\<lparr>l1_tiles_x := (screen_cols + TILE_L1_SIZE - 1) sdiv TILE_L1_SIZE,
                 l1_tiles_y := (screen_rows + TILE_L1_SIZE - 1) sdiv TILE_L1_SIZE,
                 l2_blocks_x := (screen_cols + TILE_L2_SIZE - 1) sdiv TILE_L2_SIZE,
                 l2_blocks_y := (screen_rows + TILE_L2_SIZE - 1) sdiv TILE_L2_SIZE\<rparr>
      in if l1_tiles_x d1 \<le> MAX_L1_TILES_X \<and> l1_tiles_y d1 \<le> MAX_L1_TILES_Y
            \<and> l2_blocks_x d1 \<le> MAX_L2_BLOCKS_X \<and> l2_blocks_y d1 \<le> MAX_L2_BLOCKS_Y
         then d1\<lparr>use_hierarchical_tiles := True,
                 l1_tiles := (\<lambda>_ _. False), l2_blocks := (\<lambda>_ _. False)\<rparr>
         else d1)"

definition add_sparse_l1_tile :: "int \<Rightarrow> int \<Rightarrow> dirty_region_t \<Rightarrow> dirty_region_t option" where
  "add_sparse_l1_tile tile_row tile_col d =
     (case check_l1_tile_bitmap tile_row tile_col d of
        None \<Rightarrow> None
      | Some True \<Rightarrow> Some d
      | Some False \<Rightarrow>
          (case alloc_dirty_tile tile_row tile_col d of
             None \<Rightarrow> Some d
           | Some (new_tile, d1) \<Rightarrow>
               set_l1_tile_bitmap tile_row tile_col
                 (d1\<lparr>dirty_l1_tiles := new_tile # dirty_l1_tiles d1\<rparr>)))"

definition add_sparse_l2_block :: "int \<Rightarrow> int \<Rightarrow> dirty_region_t \<Rightarrow> dirty_region_t option" where
  "add_sparse_l2_block block_row block_col d =
     (case check_l2_block_bitmap block_row block_col d of
        None \<Rightarrow> None
      | Some True \<Rightarrow> Some d
      | Some False \<Rightarrow>
          (case alloc_dirty_tile block_row block_col d of
             None \<Rightarrow> Some d
           | Some (new_block, d1) \<Rightarrow>
               set_l2_block_bitmap block_row block_col
                 (d1\<lparr>dirty_l2_blocks := new_block # dirty_l2_blocks d1\<rparr>)))"

text \<open>
  The statement pair that \<open>mark_dirty\<close> and \<open>mark_dirty_region\<close> run for one tile:
  \<open>l1_tiles[tr][tc] = true; if (use_sparse_tracking) add_sparse_l1_tile(tr, tc);\<close>
  and the same for a block of level 2.
\<close>

definition flag_l1_tile :: "int \<Rightarrow> int \<Rightarrow> dirty_region_t \<Rightarrow> dirty_region_t option" where
  "flag_l1_tile tr tc d =
     (if \<not> (0 \<le> tr \<and> tr < MAX_L1_TILES_Y \<and> 0 \<le> tc \<and> tc < MAX_L1_TILES_X) then None
      else
        (let d1 = d\<lparr>l1_tiles := (l1_tiles d)(tr := (l1_tiles d tr)(tc := True))\<rparr>
         in if use_sparse_tracking d1 then add_sparse_l1_tile tr tc d1 else Some d1))"

definition flag_l2_block :: "int \<Rightarrow> int \<Rightarrow> dirty_region_t \<Rightarrow> dirty_region_t option" where
  "flag_l2_block br bc d =
     (if \<not> (0 \<le> br \<and> br < MAX_L2_BLOCKS_Y \<and> 0 \<le> bc \<and> bc < MAX_L2_BLOCKS_X) then None
      else
        (let d1 = d\<lparr>l2_blocks := (l2_blocks d)(br := (l2_blocks d br)(bc := True))\<rparr>
         in if use_sparse_tracking d1 then add_sparse_l2_block br bc d1 else Some d1))"

definition mark_dirty :: "int \<Rightarrow> int \<Rightarrow> dirty_region_t \<Rightarrow> dirty_region_t option" where
  "mark_dirty row col d =
     (let d1 = d\<lparr>min_row := (if row < min_row d then row else min_row d),
                 max_row := (if row > max_row d then row else max_row d),
                 min_col := (if col < min_col d then col else min_col d),
                 max_col := (if col > max_col d then col else max_col d),
                 has_changes := True\<rparr>
      in if use_hierarchical_tiles d1 then
           (let l1_tile_row = row sdiv TILE_L1_SIZE;
                l1_tile_col = col sdiv TILE_L1_SIZE
            in case (if l1_tile_row < l1_tiles_y d1 \<and> l1_tile_col < l1_tiles_x d1
                     then flag_l1_tile l1_tile_row l1_tile_col d1 else Some d1) of
                 None \<Rightarrow> None
               | Some d2 \<Rightarrow>
                   (let l2_block_row = row sdiv TILE_L2_SIZE;
                        l2_block_col = col sdiv TILE_L2_SIZE
                    in if l2_block_row < l2_blocks_y d2 \<and> l2_block_col < l2_blocks_x d2
                       then flag_l2_block l2_block_row l2_block_col d2 else Some d2))
         else Some d1)"

text \<open>
  A \<open>for\<close> loop whose bounds do not change while it runs, over a state that an iteration
  may fail on: the iterations run in order and stop at the first failure.
\<close>

fun for_each :: "('a \<Rightarrow> 's \<Rightarrow> 's option) \<Rightarrow> 'a list \<Rightarrow> 's \<Rightarrow> 's option" where
  "for_each body [] s = Some s"
| "for_each body (x # xs) s =
     (case body x s of None \<Rightarrow> None | Some s' \<Rightarrow> for_each body xs s')"

text \<open>
  \<open>mark_dirty_region\<close>. The loop \<open>for (tr = a; tr <= b && tr < n; tr++)\<close> visits
  \<open>a, ..., min b (n - 1)\<close>; \<open>n\<close> is one of the tile counts, which the body never changes.
\<close>

definition mark_dirty_region ::
  "int \<Rightarrow> int \<Rightarrow> int \<Rightarrow> int \<Rightarrow> dirty_region_t \<Rightarrow> dirty_region_t option" where
  "mark_dirty_region row1 col1 row2 col2 d =
     (let d1 = d\<lparr>min_row := (if row1 < min_row d then row1 else min_row d),
                 max_row := (if row2 > max_row d then row2 else max_row d),
                 min_col := (if col1 < min_col d then col1 else min_col d),
                 max_col := (if col2 > max_col d then col2 else max_col d),
                 has_changes := True\<rparr>
      in if use_hierarchical_tiles d1 then
           (case for_each
                   (\<lambda>tr. for_each (\<lambda>tc. flag_l1_tile tr tc)
                            [col1 sdiv TILE_L1_SIZE .. min (col2 sdiv TILE_L1_SIZE) (l1_tiles_x d1 - 1)])
                   [row1 sdiv TILE_L1_SIZE .. min (row2 sdiv TILE_L1_SIZE) (l1_tiles_y d1 - 1)] d1 of
              None \<Rightarrow> None
            | Some d2 \<Rightarrow>
                for_each
                  (\<lambda>br. for_each (\<lambda>bc. flag_l2_block br bc)
                           [col1 sdiv TILE_L2_SIZE .. min (col2 sdiv TILE_L2_SIZE) (l2_blocks_x d2 - 1)])
                  [row1 sdiv TILE_L2_SIZE .. min (row2 sdiv TILE_L2_SIZE) (l2_blocks_y d2 - 1)] d2)
         else Some d1)"

definition reset_dirty_region :: "dirty_region_t \<Rightarrow> dirty_region_t" where
  "reset_dirty_region d =
     (let d1 = d\<lparr>min_row := INT_MAX, max_row := -1, min_col := INT_MAX, max_col := -1,
                 has_changes := False\<rparr>;
          d2 = (if use_hierarchical_tiles d1
                then d1\<lparr>l1_tiles := (\<lambda>_ _. False), l2_blocks := (\<lambda>_ _. False)\<rparr> else d1)
      in if use_sparse_tracking d2 then reset_sparse_dirty_tracking d2 else d2)"

text \<open>
  The tracker as \<open>tui_init\<close> leaves it for a terminal of the given size:
  \<open>init_hierarchical_dirty_tracking(tui_cols, tui_lines)\<close>, then
  \<open>init_sparse_dirty_tracking()\<close>.
\<close>

definition dirty_region_init :: "int \<Rightarrow> int \<Rightarrow> dirty_region_t" where
  "dirty_region_init screen_cols screen_rows =
     init_sparse_dirty_tracking
       (init_hierarchical_dirty_tracking screen_cols screen_rows dirty_region_static)"

text \<open>
  Every bit of the level-1 bitmap stands for a tile on the sparse list: the invariant
  that links the bitmap to the list.
\<close>

definition l1_bitmap_backed :: "dirty_region_t \<Rightarrow> bool" where
  "l1_bitmap_backed d \<longleftrightarrow>
     (\<forall>tr tc. 0 \<le> tr \<and> tr < MAX_L1_TILES_Y \<and> 0 \<le> tc \<and> tc < MAX_L1_TILES_X
        \<and> check_l1_tile_bitmap tr tc d = Some True
        \<longrightarrow> (word_of_int tr, word_of_int tc) \<in> set (dirty_l1_tiles d))"

text \<open>No node can be allocated: the free list is empty or every node is in use.\<close>

definition tile_pool_exhausted :: "dirty_region_t \<Rightarrow> bool" where
  "tile_pool_exhausted d \<longleftrightarrow> dirty_tile_free d = 0 \<or> dirty_tile_pool_used d \<ge> DIRTY_TILE_POOL_SIZE"

text \<open>
  A tile is settled when marking it again changes nothing: its flag is set and, under
  sparse tracking, it is in the bitmap or the pool has no node left for it.
\<close>

definition l1_settled :: "int \<Rightarrow> int \<Rightarrow> dirty_region_t \<Rightarrow> bool" where
  "l1_settled tr tc d \<longleftrightarrow>
     0 \<le> tr \<and> tr < MAX_L1_TILES_Y \<and> 0 \<le> tc \<and> tc < MAX_L1_TILES_X \<and> l1_tiles d tr tc
     \<and> (use_sparse_tracking d \<longrightarrow>
           check_l1_tile_bitmap tr tc d = Some True
           \<or> (check_l1_tile_bitmap tr tc d = Some False \<and> tile_pool_exhausted d))"

definition l2_settled :: "int \<Rightarrow> int \<Rightarrow> dirty_region_t \<Rightarrow> bool" where
  "l2_settled br bc d \<longleftrightarrow>
     0 \<le> br \<and> br < MAX_L2_BLOCKS_Y \<and> 0 \<le> bc \<and> bc < MAX_L2_BLOCKS_X \<and> l2_blocks d br bc
     \<and> (use_sparse_tracking d \<longrightarrow>
           check_l2_block_bitmap br bc d = Some True
           \<or> (check_l2_block_bitmap br bc d = Some False \<and> tile_pool_exhausted d))"

text \<open>
  The tracker of a terminal of 1024 columns and 40 rows after the whole screen has been
  marked (as \<open>tui_clear_screen\<close> does): 640 tiles of level 1 are flagged, the 512 pool
  nodes hold the tiles of tile rows 0 to 3, and the free list is empty.
\<close>

definition tracker_pool_exhausted :: dirty_region_t where
  "tracker_pool_exhausted =
     (dirty_region_init 1024 40)
       \<lparr>min_row := 0, max_row := 39, min_col := 0, max_col := 1023, has_changes := True,
        l1_tiles := (\<lambda>tr tc. 0 \<le> tr \<and> tr < 5 \<and> 0 \<le> tc \<and> tc < 128),
        l2_blocks := (\<lambda>br bc. 0 \<le> br \<and> br < 2 \<and> 0 \<le> bc \<and> bc < 32),
        dirty_l1_tiles := rev (List.product [0, 1, 2, 3] (map word_of_nat [0 ..< 128])),
        dirty_tile_free := 0, dirty_tile_pool_used := 512,
        l1_tile_bitmap := (\<lambda>w. if w < 8 then - 1 else 0)\<rparr>"

subsection \<open>Properties of the tracker\<close>

lemma bitmap_test_set: "bitmap_test i (bitmap_set i bm)"
proof -
  have "i mod 64 < 64" by simp
  then have nz: "(push_bit (i mod 64) 1 :: 64 word) \<noteq> 0"
    by (simp add: push_bit_eq_0_iff)
  have "(bm (i div 64) OR push_bit (i mod 64) 1) AND push_bit (i mod 64) 1
          = (push_bit (i mod 64) 1 :: 64 word)"
    by (simp add: bit_eq_iff bit_simps)
  with nz show ?thesis by (simp add: bitmap_test_def bitmap_set_def)
qed

lemma check_l1_after_set:
  assumes "0 \<le> tr" "tr < MAX_L1_TILES_Y" "0 \<le> tc" "tc < MAX_L1_TILES_X"
    and "set_l1_tile_bitmap tr tc d = Some d'"
  shows "check_l1_tile_bitmap tr tc d' = Some True"
  using assms
  by (auto simp: set_l1_tile_bitmap_def check_l1_tile_bitmap_def bitmap_test_set tile_consts
           split: if_splits)

lemma check_l2_after_set:
  assumes "0 \<le> br" "br < MAX_L2_BLOCKS_Y" "0 \<le> bc" "bc < MAX_L2_BLOCKS_X"
    and "set_l2_block_bitmap br bc d = Some d'"
  shows "check_l2_block_bitmap br bc d' = Some True"
  using assms
  by (auto simp: set_l2_block_bitmap_def check_l2_block_bitmap_def bitmap_test_set tile_consts
           split: if_splits)

lemma flag_l1_tile_settles:
  assumes "flag_l1_tile tr tc d = Some d'"
  shows "l1_settled tr tc d'"
proof -
  from assms have idx: "0 \<le> tr" "tr < MAX_L1_TILES_Y" "0 \<le> tc" "tc < MAX_L1_TILES_X"
    by (auto simp: flag_l1_tile_def split: if_splits)
  let ?d1 = "d\<lparr>l1_tiles := (l1_tiles d)(tr := (l1_tiles d tr)(tc := True))\<rparr>"
  show ?thesis
  proof (cases "use_sparse_tracking d")
    case False
    with assms idx have "d' = ?d1" by (simp add: flag_l1_tile_def Let_def)
    with False idx show ?thesis by (simp add: l1_settled_def)
  next
    case True
    with assms idx have add: "add_sparse_l1_tile tr tc ?d1 = Some d'"
      by (simp add: flag_l1_tile_def Let_def)
    then obtain b where chk: "check_l1_tile_bitmap tr tc ?d1 = Some b"
      by (auto simp: add_sparse_l1_tile_def split: option.splits)
    show ?thesis
    proof (cases b)
      case True
      with add chk have "d' = ?d1" by (simp add: add_sparse_l1_tile_def)
      with chk True idx show ?thesis by (simp add: l1_settled_def)
    next
      case False
      show ?thesis
      proof (cases "alloc_dirty_tile tr tc ?d1")
        case None
        with add chk False have "d' = ?d1" by (simp add: add_sparse_l1_tile_def)
        moreover from None have "tile_pool_exhausted ?d1"
          by (auto simp: alloc_dirty_tile_def tile_pool_exhausted_def split: if_splits)
        ultimately show ?thesis using chk False idx by (simp add: l1_settled_def)
      next
        case (Some p)
        obtain t d2 where p: "p = (t, d2)" by (cases p)
        with Some add chk False
        have s: "set_l1_tile_bitmap tr tc (d2\<lparr>dirty_l1_tiles := t # dirty_l1_tiles d2\<rparr>) = Some d'"
          by (simp add: add_sparse_l1_tile_def)
        from Some p have "l1_tiles d2 = l1_tiles ?d1"
          by (auto simp: alloc_dirty_tile_def split: if_splits)
        with s have "l1_tiles d' tr tc"
          by (auto simp: set_l1_tile_bitmap_def split: if_splits)
        with check_l1_after_set [OF idx s] idx show ?thesis by (simp add: l1_settled_def)
      qed
    qed
  qed
qed

lemma flag_l1_tile_settled_noop:
  assumes "l1_settled tr tc d"
  shows "flag_l1_tile tr tc d = Some d"
proof -
  from assms have "(l1_tiles d)(tr := (l1_tiles d tr)(tc := True)) = l1_tiles d"
    by (auto simp: l1_settled_def fun_eq_iff)
  then have same: "d\<lparr>l1_tiles := (l1_tiles d)(tr := (l1_tiles d tr)(tc := True))\<rparr> = d"
    by simp
  from assms show ?thesis
    unfolding flag_l1_tile_def Let_def same
    by (auto simp: l1_settled_def add_sparse_l1_tile_def alloc_dirty_tile_def
             tile_pool_exhausted_def)
qed


lemma flag_l2_block_settles:
  assumes "flag_l2_block br bc d = Some d'"
  shows "l2_settled br bc d'"
proof -
  from assms have idx: "0 \<le> br" "br < MAX_L2_BLOCKS_Y" "0 \<le> bc" "bc < MAX_L2_BLOCKS_X"
    by (auto simp: flag_l2_block_def split: if_splits)
  let ?d1 = "d\<lparr>l2_blocks := (l2_blocks d)(br := (l2_blocks d br)(bc := True))\<rparr>"
  show ?thesis
  proof (cases "use_sparse_tracking d")
    case False
    with assms idx have "d' = ?d1" by (simp add: flag_l2_block_def Let_def)
    with False idx show ?thesis by (simp add: l2_settled_def)
  next
    case True
    with assms idx have add: "add_sparse_l2_block br bc ?d1 = Some d'"
      by (simp add: flag_l2_block_def Let_def)
    then obtain b where chk: "check_l2_block_bitmap br bc ?d1 = Some b"
      by (auto simp: add_sparse_l2_block_def split: option.splits)
    show ?thesis
    proof (cases b)
      case True
      with add chk have "d' = ?d1" by (simp add: add_sparse_l2_block_def)
      with chk True idx show ?thesis by (simp add: l2_settled_def)
    next
      case False
      show ?thesis
      proof (cases "alloc_dirty_tile br bc ?d1")
        case None
        with add chk False have "d' = ?d1" by (simp add: add_sparse_l2_block_def)
        moreover from None have "tile_pool_exhausted ?d1"
          by (auto simp: alloc_dirty_tile_def tile_pool_exhausted_def split: if_splits)
        ultimately show ?thesis using chk False idx by (simp add: l2_settled_def)
      next
        case (Some p)
        obtain t d2 where p: "p = (t, d2)" by (cases p)
        with Some add chk False
        have s: "set_l2_block_bitmap br bc (d2\<lparr>dirty_l2_blocks := t # dirty_l2_blocks d2\<rparr>) = Some d'"
          by (simp add: add_sparse_l2_block_def)
        from Some p have "l2_blocks d2 = l2_blocks ?d1"
          by (auto simp: alloc_dirty_tile_def split: if_splits)
        with s have "l2_blocks d' br bc"
          by (auto simp: set_l2_block_bitmap_def split: if_splits)
        with check_l2_after_set [OF idx s] idx show ?thesis by (simp add: l2_settled_def)
      qed
    qed
  qed
qed

lemma flag_l2_block_settled_noop:
  assumes "l2_settled br bc d"
  shows "flag_l2_block br bc d = Some d"
proof -
  from assms have "(l2_blocks d)(br := (l2_blocks d br)(bc := True)) = l2_blocks d"
    by (auto simp: l2_settled_def fun_eq_iff)
  then have same: "d\<lparr>l2_blocks := (l2_blocks d)(br := (l2_blocks d br)(bc := True))\<rparr> = d"
    by simp
  from assms show ?thesis
    unfolding flag_l2_block_def Let_def same
    by (auto simp: l2_settled_def add_sparse_l2_block_def alloc_dirty_tile_def
             tile_pool_exhausted_def)
qed

text \<open>What marking a tile of one level leaves alone.\<close>

lemma add_sparse_l1_tile_frame:
  assumes "add_sparse_l1_tile tr tc d = Some d'"
  shows "min_row d' = min_row d \<and> max_row d' = max_row d \<and> min_col d' = min_col d
       \<and> max_col d' = max_col d \<and> has_changes d' = has_changes d
       \<and> l1_tiles d' = l1_tiles d \<and> l2_blocks d' = l2_blocks d
       \<and> l1_tiles_x d' = l1_tiles_x d \<and> l1_tiles_y d' = l1_tiles_y d
       \<and> l2_blocks_x d' = l2_blocks_x d \<and> l2_blocks_y d' = l2_blocks_y d
       \<and> use_hierarchical_tiles d' = use_hierarchical_tiles d
       \<and> use_sparse_tracking d' = use_sparse_tracking d
       \<and> dirty_l2_blocks d' = dirty_l2_blocks d \<and> l2_block_bitmap d' = l2_block_bitmap d
       \<and> (tile_pool_exhausted d \<longrightarrow> d' = d)"
  using assms
  by (auto simp: add_sparse_l1_tile_def alloc_dirty_tile_def set_l1_tile_bitmap_def
           tile_pool_exhausted_def split: option.splits bool.splits if_splits)

lemma add_sparse_l2_block_frame:
  assumes "add_sparse_l2_block br bc d = Some d'"
  shows "min_row d' = min_row d \<and> max_row d' = max_row d \<and> min_col d' = min_col d
       \<and> max_col d' = max_col d \<and> has_changes d' = has_changes d
       \<and> l1_tiles d' = l1_tiles d \<and> l2_blocks d' = l2_blocks d
       \<and> l1_tiles_x d' = l1_tiles_x d \<and> l1_tiles_y d' = l1_tiles_y d
       \<and> l2_blocks_x d' = l2_blocks_x d \<and> l2_blocks_y d' = l2_blocks_y d
       \<and> use_hierarchical_tiles d' = use_hierarchical_tiles d
       \<and> use_sparse_tracking d' = use_sparse_tracking d
       \<and> dirty_l1_tiles d' = dirty_l1_tiles d \<and> l1_tile_bitmap d' = l1_tile_bitmap d
       \<and> (tile_pool_exhausted d \<longrightarrow> d' = d)"
  using assms
  by (auto simp: add_sparse_l2_block_def alloc_dirty_tile_def set_l2_block_bitmap_def
           tile_pool_exhausted_def split: option.splits bool.splits if_splits)


lemma flag_l1_tile_frame:
  assumes "flag_l1_tile tr tc d = Some d'"
  shows "min_row d' = min_row d \<and> max_row d' = max_row d \<and> min_col d' = min_col d
       \<and> max_col d' = max_col d \<and> has_changes d' = has_changes d
       \<and> l2_blocks d' = l2_blocks d
       \<and> l1_tiles_x d' = l1_tiles_x d \<and> l1_tiles_y d' = l1_tiles_y d
       \<and> l2_blocks_x d' = l2_blocks_x d \<and> l2_blocks_y d' = l2_blocks_y d
       \<and> use_hierarchical_tiles d' = use_hierarchical_tiles d
       \<and> use_sparse_tracking d' = use_sparse_tracking d
       \<and> dirty_l2_blocks d' = dirty_l2_blocks d \<and> l2_block_bitmap d' = l2_block_bitmap d"
proof -
  let ?d1 = "d\<lparr>l1_tiles := (l1_tiles d)(tr := (l1_tiles d tr)(tc := True))\<rparr>"
  show ?thesis
  proof (cases "use_sparse_tracking d")
    case False
    with assms have "d' = ?d1" by (auto simp: flag_l1_tile_def Let_def split: if_splits)
    then show ?thesis by simp
  next
    case True
    with assms have "add_sparse_l1_tile tr tc ?d1 = Some d'"
      by (auto simp: flag_l1_tile_def Let_def split: if_splits)
    from add_sparse_l1_tile_frame [OF this] show ?thesis by simp
  qed
qed

lemma flag_l2_block_frame:
  assumes "flag_l2_block br bc d = Some d'"
  shows "min_row d' = min_row d \<and> max_row d' = max_row d \<and> min_col d' = min_col d
       \<and> max_col d' = max_col d \<and> has_changes d' = has_changes d
       \<and> l1_tiles d' = l1_tiles d
       \<and> l1_tiles_x d' = l1_tiles_x d \<and> l1_tiles_y d' = l1_tiles_y d
       \<and> l2_blocks_x d' = l2_blocks_x d \<and> l2_blocks_y d' = l2_blocks_y d
       \<and> use_hierarchical_tiles d' = use_hierarchical_tiles d
       \<and> use_sparse_tracking d' = use_sparse_tracking d
       \<and> dirty_l1_tiles d' = dirty_l1_tiles d \<and> l1_tile_bitmap d' = l1_tile_bitmap d
       \<and> (tile_pool_exhausted d \<longrightarrow> tile_pool_exhausted d')"
proof -
  let ?d1 = "d\<lparr>l2_blocks := (l2_blocks d)(br := (l2_blocks d br)(bc := True))\<rparr>"
  show ?thesis
  proof (cases "use_sparse_tracking d")
    case False
    with assms have "d' = ?d1" by (auto simp: flag_l2_block_def Let_def split: if_splits)
    then show ?thesis by (simp add: tile_pool_exhausted_def)
  next
    case True
    with assms have a: "add_sparse_l2_block br bc ?d1 = Some d'"
      by (auto simp: flag_l2_block_def Let_def split: if_splits)
    have "tile_pool_exhausted d \<Longrightarrow> tile_pool_exhausted ?d1"
      by (simp add: tile_pool_exhausted_def)
    with add_sparse_l2_block_frame [OF a] show ?thesis by auto
  qed
qed

lemma flag_l2_block_keeps_l1_settled:
  assumes "flag_l2_block br bc d = Some d'" and "l1_settled tr tc d"
  shows "l1_settled tr tc d'"
  using flag_l2_block_frame [OF assms(1)] assms(2)
  by (auto simp: l1_settled_def check_l1_tile_bitmap_def)

lemma flag_l1_tile_adds:
  assumes "flag_l1_tile tr tc d = Some d'" and "use_sparse_tracking d"
    and "l1_bitmap_backed d" and "\<not> tile_pool_exhausted d"
  shows "(word_of_int tr, word_of_int tc) \<in> set (dirty_l1_tiles d')"
proof -
  from assms(1) have idx: "0 \<le> tr" "tr < MAX_L1_TILES_Y" "0 \<le> tc" "tc < MAX_L1_TILES_X"
    by (auto simp: flag_l1_tile_def split: if_splits)
  let ?d1 = "d\<lparr>l1_tiles := (l1_tiles d)(tr := (l1_tiles d tr)(tc := True))\<rparr>"
  from assms(1,2) idx have add: "add_sparse_l1_tile tr tc ?d1 = Some d'"
    by (simp add: flag_l1_tile_def Let_def)
  have chk_same: "check_l1_tile_bitmap tr tc ?d1 = check_l1_tile_bitmap tr tc d"
    by (simp add: check_l1_tile_bitmap_def)
  from add obtain b where chk: "check_l1_tile_bitmap tr tc ?d1 = Some b"
    by (auto simp: add_sparse_l1_tile_def split: option.splits)
  show ?thesis
  proof (cases b)
    case True
    with add chk have "d' = ?d1" by (simp add: add_sparse_l1_tile_def)
    moreover from True chk chk_same idx assms(3)
    have "(word_of_int tr, word_of_int tc) \<in> set (dirty_l1_tiles d)"
      by (simp add: l1_bitmap_backed_def)
    ultimately show ?thesis by simp
  next
    case False
    from assms(4) obtain t d2 where al: "alloc_dirty_tile tr tc ?d1 = Some (t, d2)"
      and t: "t = (word_of_int tr, word_of_int tc)"
      by (auto simp: alloc_dirty_tile_def tile_pool_exhausted_def)
    with add chk False
    have "set_l1_tile_bitmap tr tc (d2\<lparr>dirty_l1_tiles := t # dirty_l1_tiles d2\<rparr>) = Some d'"
      by (simp add: add_sparse_l1_tile_def)
    then have "dirty_l1_tiles d' = t # dirty_l1_tiles d2"
      by (auto simp: set_l1_tile_bitmap_def split: if_splits)
    with t show ?thesis by simp
  qed
qed

text \<open>
  With the pool exhausted \<open>add_sparse_l1_tile\<close> allocates nothing, and the sparse list
  stays as it is.
\<close>

lemma flag_l1_tile_exhausted:
  assumes "flag_l1_tile tr tc d = Some d'" and "tile_pool_exhausted d"
  shows "dirty_l1_tiles d' = dirty_l1_tiles d"
proof -
  let ?d1 = "d\<lparr>l1_tiles := (l1_tiles d)(tr := (l1_tiles d tr)(tc := True))\<rparr>"
  have e1: "tile_pool_exhausted ?d1" using assms(2) by (simp add: tile_pool_exhausted_def)
  show ?thesis
  proof (cases "use_sparse_tracking d")
    case False
    with assms(1) have "d' = ?d1" by (auto simp: flag_l1_tile_def Let_def split: if_splits)
    then show ?thesis by simp
  next
    case True
    with assms(1) have "add_sparse_l1_tile tr tc ?d1 = Some d'"
      by (auto simp: flag_l1_tile_def Let_def split: if_splits)
    from add_sparse_l1_tile_frame [OF this] e1 have "d' = ?d1" by simp
    then show ?thesis by simp
  qed
qed

text \<open>
  What one call of \<open>mark_dirty\<close> does, in any tracker state in which it is defined.
\<close>

lemma mark_dirty_effect:
  assumes "mark_dirty row col d = Some d'"
  shows "min_row d' \<le> row \<and> row \<le> max_row d' \<and> min_col d' \<le> col \<and> col \<le> max_col d'
       \<and> has_changes d'
       \<and> (use_hierarchical_tiles d
            \<and> row sdiv TILE_L1_SIZE < l1_tiles_y d \<and> col sdiv TILE_L1_SIZE < l1_tiles_x d
          \<longrightarrow> l1_tiles d' (row sdiv TILE_L1_SIZE) (col sdiv TILE_L1_SIZE))
       \<and> (use_hierarchical_tiles d \<and> use_sparse_tracking d
            \<and> row sdiv TILE_L1_SIZE < l1_tiles_y d \<and> col sdiv TILE_L1_SIZE < l1_tiles_x d
            \<and> l1_bitmap_backed d \<and> \<not> tile_pool_exhausted d
          \<longrightarrow> (word_of_int (row sdiv TILE_L1_SIZE), word_of_int (col sdiv TILE_L1_SIZE))
                \<in> set (dirty_l1_tiles d'))
       \<and> (tile_pool_exhausted d \<longrightarrow> dirty_l1_tiles d' = dirty_l1_tiles d)
       \<and> mark_dirty row col d' = Some d'"
proof -
  define d1 where "d1 = d\<lparr>min_row := (if row < min_row d then row else min_row d),
                 max_row := (if row > max_row d then row else max_row d),
                 min_col := (if col < min_col d then col else min_col d),
                 max_col := (if col > max_col d then col else max_col d),
                 has_changes := True\<rparr>"
  define tr where "tr = row sdiv TILE_L1_SIZE"
  define tc where "tc = col sdiv TILE_L1_SIZE"
  define br where "br = row sdiv TILE_L2_SIZE"
  define bc where "bc = col sdiv TILE_L2_SIZE"
  have b1: "min_row d1 \<le> row \<and> row \<le> max_row d1 \<and> min_col d1 \<le> col \<and> col \<le> max_col d1
            \<and> has_changes d1"
    by (simp add: d1_def)
  have d1same: "l1_tiles_x d1 = l1_tiles_x d" "l1_tiles_y d1 = l1_tiles_y d"
       "use_hierarchical_tiles d1 = use_hierarchical_tiles d"
       "use_sparse_tracking d1 = use_sparse_tracking d"
       "l1_bitmap_backed d1 = l1_bitmap_backed d"
       "tile_pool_exhausted d1 = tile_pool_exhausted d"
       "dirty_l1_tiles d1 = dirty_l1_tiles d"
    by (simp_all add: d1_def l1_bitmap_backed_def tile_pool_exhausted_def check_l1_tile_bitmap_def)
  have reb: "\<And>e. min_row e \<le> row \<Longrightarrow> row \<le> max_row e \<Longrightarrow> min_col e \<le> col \<Longrightarrow> col \<le> max_col e
              \<Longrightarrow> has_changes e \<Longrightarrow>
              e\<lparr>min_row := (if row < min_row e then row else min_row e),
                 max_row := (if row > max_row e then row else max_row e),
                 min_col := (if col < min_col e then col else min_col e),
                 max_col := (if col > max_col e then col else max_col e),
                 has_changes := True\<rparr> = e"
    by simp
  have unf: "\<And>e. mark_dirty row col e =
     (let e1 = e\<lparr>min_row := (if row < min_row e then row else min_row e),
                 max_row := (if row > max_row e then row else max_row e),
                 min_col := (if col < min_col e then col else min_col e),
                 max_col := (if col > max_col e then col else max_col e),
                 has_changes := True\<rparr>
      in if use_hierarchical_tiles e1 then
           (case (if tr < l1_tiles_y e1 \<and> tc < l1_tiles_x e1
                  then flag_l1_tile tr tc e1 else Some e1) of
              None \<Rightarrow> None
            | Some e2 \<Rightarrow>
                (if br < l2_blocks_y e2 \<and> bc < l2_blocks_x e2
                 then flag_l2_block br bc e2 else Some e2))
         else Some e1)"
    unfolding mark_dirty_def Let_def tr_def tc_def br_def bc_def by (rule refl)
  show ?thesis
  proof (cases "use_hierarchical_tiles d")
    case False
    with assms have "d' = d1" by (simp add: unf d1_def Let_def)
    with b1 False show ?thesis
      using reb [of d1] by (simp add: unf Let_def d1same)
  next
    case hier: True
    from assms hier have
      "(case (if tr < l1_tiles_y d1 \<and> tc < l1_tiles_x d1
                  then flag_l1_tile tr tc d1 else Some d1) of
              None \<Rightarrow> None
            | Some e2 \<Rightarrow>
                (if br < l2_blocks_y e2 \<and> bc < l2_blocks_x e2
                 then flag_l2_block br bc e2 else Some e2)) = Some d'"
      by (simp add: unf Let_def d1_def [symmetric] d1same)
    then obtain d2 where
      s1: "(if tr < l1_tiles_y d1 \<and> tc < l1_tiles_x d1 then flag_l1_tile tr tc d1 else Some d1) = Some d2"
      and s2: "(if br < l2_blocks_y d2 \<and> bc < l2_blocks_x d2 then flag_l2_block br bc d2 else Some d2) = Some d'"
      by (cases "(if tr < l1_tiles_y d1 \<and> tc < l1_tiles_x d1 then flag_l1_tile tr tc d1 else Some d1)") auto
    have f1: "min_row d2 = min_row d1 \<and> max_row d2 = max_row d1 \<and> min_col d2 = min_col d1
       \<and> max_col d2 = max_col d1 \<and> has_changes d2 = has_changes d1
       \<and> l1_tiles_x d2 = l1_tiles_x d1 \<and> l1_tiles_y d2 = l1_tiles_y d1
       \<and> l2_blocks_x d2 = l2_blocks_x d1 \<and> l2_blocks_y d2 = l2_blocks_y d1
       \<and> use_hierarchical_tiles d2 = use_hierarchical_tiles d1
       \<and> use_sparse_tracking d2 = use_sparse_tracking d1"
      using s1 flag_l1_tile_frame [of tr tc d1 d2] by (auto split: if_splits)
    have f2: "min_row d' = min_row d2 \<and> max_row d' = max_row d2 \<and> min_col d' = min_col d2
       \<and> max_col d' = max_col d2 \<and> has_changes d' = has_changes d2
       \<and> l1_tiles_x d' = l1_tiles_x d2 \<and> l1_tiles_y d' = l1_tiles_y d2
       \<and> l2_blocks_x d' = l2_blocks_x d2 \<and> l2_blocks_y d' = l2_blocks_y d2
       \<and> use_hierarchical_tiles d' = use_hierarchical_tiles d2
       \<and> use_sparse_tracking d' = use_sparse_tracking d2
       \<and> dirty_l1_tiles d' = dirty_l1_tiles d2"
      using s2 flag_l2_block_frame [of br bc d2 d'] by (auto split: if_splits)
    from b1 f1 f2 have bounds: "min_row d' \<le> row \<and> row \<le> max_row d' \<and> min_col d' \<le> col
        \<and> col \<le> max_col d' \<and> has_changes d'"
      by simp
    have present: "(word_of_int tr, word_of_int tc) \<in> set (dirty_l1_tiles d')"
      if "use_sparse_tracking d" "tr < l1_tiles_y d" "tc < l1_tiles_x d"
         "l1_bitmap_backed d" "\<not> tile_pool_exhausted d"
    proof -
      from that s1 have "flag_l1_tile tr tc d1 = Some d2" by (simp add: d1same)
      from flag_l1_tile_adds [OF this] that have "(word_of_int tr, word_of_int tc) \<in> set (dirty_l1_tiles d2)"
        by (simp add: d1same)
      with f2 show ?thesis by simp
    qed
    have flagged: "l1_tiles d' tr tc" if "tr < l1_tiles_y d" "tc < l1_tiles_x d"
    proof -
      from that s1 have "flag_l1_tile tr tc d1 = Some d2" by (simp add: d1same)
      then have "l1_settled tr tc d2" by (rule flag_l1_tile_settles)
      with s2 have "l1_settled tr tc d'"
        by (auto split: if_splits intro: flag_l2_block_keeps_l1_settled)
      then show ?thesis by (simp add: l1_settled_def)
    qed
    have kept: "dirty_l1_tiles d' = dirty_l1_tiles d" if "tile_pool_exhausted d"
    proof -
      from that have "tile_pool_exhausted d1" by (simp add: d1same)
      with s1 have "dirty_l1_tiles d2 = dirty_l1_tiles d1"
        by (auto split: if_splits dest: flag_l1_tile_exhausted)
      with f2 show ?thesis by (simp add: d1same)
    qed
    have again1: "(if tr < l1_tiles_y d' \<and> tc < l1_tiles_x d' then flag_l1_tile tr tc d' else Some d') = Some d'"
    proof (cases "tr < l1_tiles_y d1 \<and> tc < l1_tiles_x d1")
      case False
      with f1 f2 show ?thesis by auto
    next
      case True
      with s1 have "flag_l1_tile tr tc d1 = Some d2" by simp
      then have "l1_settled tr tc d2" by (rule flag_l1_tile_settles)
      with s2 have "l1_settled tr tc d'"
        by (auto split: if_splits intro: flag_l2_block_keeps_l1_settled)
      then show ?thesis by (simp add: flag_l1_tile_settled_noop)
    qed
    have again2: "(if br < l2_blocks_y d' \<and> bc < l2_blocks_x d' then flag_l2_block br bc d' else Some d') = Some d'"
    proof (cases "br < l2_blocks_y d2 \<and> bc < l2_blocks_x d2")
      case False
      with f2 show ?thesis by auto
    next
      case True
      with s2 have "flag_l2_block br bc d2 = Some d'" by simp
      then have "l2_settled br bc d'" by (rule flag_l2_block_settles)
      then show ?thesis by (simp add: flag_l2_block_settled_noop)
    qed
    from bounds have "d'\<lparr>min_row := (if row < min_row d' then row else min_row d'),
                 max_row := (if row > max_row d' then row else max_row d'),
                 min_col := (if col < min_col d' then col else min_col d'),
                 max_col := (if col > max_col d' then col else max_col d'),
                 has_changes := True\<rparr> = d'"
      using reb [of d'] by blast
    with again1 again2 hier f1 f2 have idem: "mark_dirty row col d' = Some d'"
      by (simp add: unf Let_def d1same)
    from bounds flagged present kept idem show ?thesis
      by (simp add: tr_def tc_def)
  qed
qed


subsection \<open>The tracker states that the engine reaches\<close>

text \<open>
  The tracker is written by \<open>tui_init\<close>, which initialises the zeroed static tracker, by
  \<open>mark_dirty\<close> and \<open>mark_dirty_region\<close>, by \<open>reset_dirty_region\<close> at the end of a
  refresh, and by the bookkeeping of a refresh: \<open>optimize_dirty_region\<close> rewrites the
  bounding rectangle and \<open>has_changes\<close>, and the choice of the scanning strategy rewrites
  the frame counters. A run of such steps from the initialisation is a list of
  operations.
\<close>

datatype tracker_op =
  Mark_dirty int int
| Mark_dirty_region int int int int
| Reset_dirty_region
| Refresh_bookkeeping int int int int bool nat nat bool

fun tracker_step :: "tracker_op \<Rightarrow> dirty_region_t \<Rightarrow> dirty_region_t option" where
  "tracker_step (Mark_dirty row col) d = mark_dirty row col d"
| "tracker_step (Mark_dirty_region row1 col1 row2 col2) d = mark_dirty_region row1 col1 row2 col2 d"
| "tracker_step Reset_dirty_region d = Some (reset_dirty_region d)"
| "tracker_step (Refresh_bookkeeping r0 r1 c0 c1 h f b p) d =
     Some (d\<lparr>min_row := r0, max_row := r1, min_col := c0, max_col := c1, has_changes := h,
             frame_count := f, sparse_beneficial_count := b, prefer_sparse_mode := p\<rparr>)"

definition tracker_run ::
  "int \<Rightarrow> int \<Rightarrow> tracker_op list \<Rightarrow> dirty_region_t option" where
  "tracker_run screen_cols screen_rows ops =
     for_each tracker_step ops (dirty_region_init screen_cols screen_rows)"

text \<open>With hierarchical tracking on, the tile grid fits the flag arrays.\<close>

definition tile_grid_fits :: "dirty_region_t \<Rightarrow> bool" where
  "tile_grid_fits d \<longleftrightarrow>
     (use_hierarchical_tiles d \<longrightarrow>
        l1_tiles_x d \<le> MAX_L1_TILES_X \<and> l1_tiles_y d \<le> MAX_L1_TILES_Y
        \<and> l2_blocks_x d \<le> MAX_L2_BLOCKS_X \<and> l2_blocks_y d \<le> MAX_L2_BLOCKS_Y)"

definition tracker_inv :: "dirty_region_t \<Rightarrow> bool" where
  "tracker_inv d \<longleftrightarrow> l1_bitmap_backed d \<and> tile_grid_fits d"

lemma for_each_invariant:
  assumes "\<And>x s s'. x \<in> set xs \<Longrightarrow> P s \<Longrightarrow> body x s = Some s' \<Longrightarrow> P s'"
    and "P s" and "for_each body xs s = Some s'"
  shows "P s'"
  using assms
proof (induction xs arbitrary: s)
  case Nil
  then show ?case by simp
next
  case (Cons x xs)
  from Cons.prems(3) obtain s1 where b: "body x s = Some s1" and r: "for_each body xs s1 = Some s'"
    by (auto split: option.splits)
  from Cons.prems(1) [of x s s1] Cons.prems(2) b have p1: "P s1" by simp
  have st: "P t'" if "y \<in> set xs" "P t" "body y t = Some t'" for y t t'
    using Cons.prems(1) [of y t t'] that by simp
  from st p1 r show ?case by (rule Cons.IH)
qed

text \<open>Setting a bit of a bitmap sets that bit and no other.\<close>

lemma bitmap_test_bit: "bitmap_test i bm \<longleftrightarrow> bit (bm (i div 64)) (i mod 64)"
proof -
  have "(bm (i div 64) AND 2 ^ (i mod 64) = 0) = (\<not> bit (bm (i div 64)) (i mod 64))"
    by (rule and_exp_eq_0_iff_not_bit)
  then show ?thesis by (simp add: bitmap_test_def push_bit_of_1)
qed

lemma bitmap_test_set_iff: "bitmap_test j (bitmap_set i bm) \<longleftrightarrow> j = i \<or> bitmap_test j bm"
proof (cases "j div 64 = i div 64")
  case False
  then have "j \<noteq> i" by auto
  with False show ?thesis by (simp add: bitmap_test_bit bitmap_set_def)
next
  case True
  have lt: "j mod 64 < 64" by simp
  have "j = i \<longleftrightarrow> j mod 64 = i mod 64"
    using True by (metis div_mult_mod_eq)
  with True lt show ?thesis
    by (auto simp: bitmap_test_bit bitmap_set_def push_bit_of_1 bit_simps)
qed

lemma tile_index_inject:
  fixes tr tc tr' tc' :: int
  assumes "tr' * 128 + tc' = tr * 128 + tc" and "0 \<le> tc'" "tc' < 128" "0 \<le> tc" "tc < 128"
  shows "tr' = tr \<and> tc' = tc"
proof -
  from assms(2-5) have "(tr' * 128 + tc') mod 128 = tc'" "(tr * 128 + tc) mod 128 = tc"
    by simp_all
  with assms(1) have "tc' = tc" by simp
  with assms(1) show ?thesis by simp
qed

lemma bitmap_test_empty: "\<not> bitmap_test i (\<lambda>_. 0)"
  by (simp add: bitmap_test_def)

text \<open>The steps keep the bitmap backed by the list, and the tile grid inside the arrays.\<close>

lemma flag_l1_tile_inv:
  assumes "flag_l1_tile tr tc d = Some d'" and "tracker_inv d"
  shows "tracker_inv d'"
proof -
  from assms(1) have idx: "0 \<le> tr" "tr < MAX_L1_TILES_Y" "0 \<le> tc" "tc < MAX_L1_TILES_X"
    by (auto simp: flag_l1_tile_def split: if_splits)
  from flag_l1_tile_frame [OF assms(1)] assms(2) have fits: "tile_grid_fits d'"
    by (simp add: tracker_inv_def tile_grid_fits_def)
  let ?d1 = "d\<lparr>l1_tiles := (l1_tiles d)(tr := (l1_tiles d tr)(tc := True))\<rparr>"
  from assms(2) have b1: "l1_bitmap_backed ?d1"
    by (simp add: tracker_inv_def l1_bitmap_backed_def check_l1_tile_bitmap_def)
  have "l1_bitmap_backed d'"
  proof (cases "use_sparse_tracking d")
    case False
    with assms(1) idx have "d' = ?d1" by (simp add: flag_l1_tile_def Let_def)
    with b1 show ?thesis by simp
  next
    case True
    with assms(1) idx have add: "add_sparse_l1_tile tr tc ?d1 = Some d'"
      by (simp add: flag_l1_tile_def Let_def)
    show ?thesis
    proof (cases "d' = ?d1")
      case True
      with b1 show ?thesis by simp
    next
      case False
      with add idx have new: "dirty_l1_tiles d' = (word_of_int tr, word_of_int tc) # dirty_l1_tiles d"
        "l1_tile_bitmap d' = bitmap_set (nat (tr * MAX_L1_TILES_X + tc)) (l1_tile_bitmap d)"
        by (auto simp: add_sparse_l1_tile_def alloc_dirty_tile_def set_l1_tile_bitmap_def
                 split: option.splits bool.splits if_splits)
      show ?thesis
        unfolding l1_bitmap_backed_def
      proof (intro allI impI)
        fix tr' tc'
        assume h: "0 \<le> tr' \<and> tr' < MAX_L1_TILES_Y \<and> 0 \<le> tc' \<and> tc' < MAX_L1_TILES_X
                   \<and> check_l1_tile_bitmap tr' tc' d' = Some True"
        then have t: "bitmap_test (nat (tr' * MAX_L1_TILES_X + tc'))
                        (bitmap_set (nat (tr * MAX_L1_TILES_X + tc)) (l1_tile_bitmap d))"
          by (auto simp: check_l1_tile_bitmap_def new split: if_splits)
        show "(word_of_int tr', word_of_int tc') \<in> set (dirty_l1_tiles d')"
        proof (cases "nat (tr' * MAX_L1_TILES_X + tc') = nat (tr * MAX_L1_TILES_X + tc)")
          case True
          from h idx have "0 \<le> tr' * 128 + tc'" "0 \<le> tr * 128 + tc" by simp_all
          with True have "tr' * 128 + tc' = tr * 128 + tc" by (simp add: tile_consts)
          moreover from h idx have "0 \<le> tc'" "tc' < 128" "0 \<le> tc" "tc < 128"
            by (simp_all add: tile_consts)
          ultimately have "tr' = tr \<and> tc' = tc" by (rule tile_index_inject)
          with new show ?thesis by simp
        next
          case False
          with t have "bitmap_test (nat (tr' * MAX_L1_TILES_X + tc')) (l1_tile_bitmap d)"
            by (simp add: bitmap_test_set_iff)
          with h have "check_l1_tile_bitmap tr' tc' d = Some True"
            by (auto simp: check_l1_tile_bitmap_def tile_consts)
          with h assms(2) have "(word_of_int tr', word_of_int tc') \<in> set (dirty_l1_tiles d)"
            by (simp add: tracker_inv_def l1_bitmap_backed_def)
          with new show ?thesis by simp
        qed
      qed
    qed
  qed
  with fits show ?thesis by (simp add: tracker_inv_def)
qed

lemma flag_l2_block_inv:
  assumes "flag_l2_block br bc d = Some d'" and "tracker_inv d"
  shows "tracker_inv d'"
  using flag_l2_block_frame [OF assms(1)] assms(2)
  by (simp add: tracker_inv_def tile_grid_fits_def l1_bitmap_backed_def check_l1_tile_bitmap_def)

lemma rectangle_update_inv:
  "tracker_inv d \<Longrightarrow>
   tracker_inv (d\<lparr>min_row := r0, max_row := r1, min_col := c0, max_col := c1, has_changes := h\<rparr>)"
  by (simp add: tracker_inv_def tile_grid_fits_def l1_bitmap_backed_def check_l1_tile_bitmap_def)

lemma mark_dirty_inv:
  assumes "mark_dirty row col d = Some d'" and "tracker_inv d"
  shows "tracker_inv d'"
proof -
  define d1 where "d1 = d\<lparr>min_row := (if row < min_row d then row else min_row d),
                 max_row := (if row > max_row d then row else max_row d),
                 min_col := (if col < min_col d then col else min_col d),
                 max_col := (if col > max_col d then col else max_col d),
                 has_changes := True\<rparr>"
  have i1: "tracker_inv d1" unfolding d1_def by (rule rectangle_update_inv [OF assms(2)])
  have unf: "mark_dirty row col d =
     (if use_hierarchical_tiles d1 then
        (case (if row sdiv TILE_L1_SIZE < l1_tiles_y d1 \<and> col sdiv TILE_L1_SIZE < l1_tiles_x d1
               then flag_l1_tile (row sdiv TILE_L1_SIZE) (col sdiv TILE_L1_SIZE) d1 else Some d1) of
           None \<Rightarrow> None
         | Some d2 \<Rightarrow>
             (if row sdiv TILE_L2_SIZE < l2_blocks_y d2 \<and> col sdiv TILE_L2_SIZE < l2_blocks_x d2
              then flag_l2_block (row sdiv TILE_L2_SIZE) (col sdiv TILE_L2_SIZE) d2 else Some d2))
      else Some d1)"
    unfolding mark_dirty_def Let_def d1_def by (rule refl)
  from assms(1) i1 show ?thesis
    unfolding unf
    by (auto split: if_splits option.splits intro: flag_l1_tile_inv flag_l2_block_inv)
qed

lemma mark_dirty_region_inv:
  assumes "mark_dirty_region row1 col1 row2 col2 d = Some d'" and "tracker_inv d"
  shows "tracker_inv d'"
proof -
  have l1: "tracker_inv t'"
    if "tracker_inv t" "for_each (\<lambda>tc. flag_l1_tile tr tc) cs t = Some t'" for tr cs t t'
    using _ that by (rule for_each_invariant) (rule flag_l1_tile_inv)
  have l2: "tracker_inv t'"
    if "tracker_inv t" "for_each (\<lambda>bc. flag_l2_block br bc) cs t = Some t'" for br cs t t'
    using _ that by (rule for_each_invariant) (rule flag_l2_block_inv)
  have r1: "tracker_inv t'"
    if "tracker_inv t" "for_each (\<lambda>tr. for_each (\<lambda>tc. flag_l1_tile tr tc) cs) rs t = Some t'"
    for cs rs t t'
    using _ that by (rule for_each_invariant) (rule l1)
  have r2: "tracker_inv t'"
    if "tracker_inv t" "for_each (\<lambda>br. for_each (\<lambda>bc. flag_l2_block br bc) cs) rs t = Some t'"
    for cs rs t t'
    using _ that by (rule for_each_invariant) (rule l2)
  define d1 where "d1 = d\<lparr>min_row := (if row1 < min_row d then row1 else min_row d),
                 max_row := (if row2 > max_row d then row2 else max_row d),
                 min_col := (if col1 < min_col d then col1 else min_col d),
                 max_col := (if col2 > max_col d then col2 else max_col d),
                 has_changes := True\<rparr>"
  have i1: "tracker_inv d1" unfolding d1_def by (rule rectangle_update_inv [OF assms(2)])
  have unf: "mark_dirty_region row1 col1 row2 col2 d =
     (if use_hierarchical_tiles d1 then
           (case for_each
                   (\<lambda>tr. for_each (\<lambda>tc. flag_l1_tile tr tc)
                            [col1 sdiv TILE_L1_SIZE .. min (col2 sdiv TILE_L1_SIZE) (l1_tiles_x d1 - 1)])
                   [row1 sdiv TILE_L1_SIZE .. min (row2 sdiv TILE_L1_SIZE) (l1_tiles_y d1 - 1)] d1 of
              None \<Rightarrow> None
            | Some d2 \<Rightarrow>
                for_each
                  (\<lambda>br. for_each (\<lambda>bc. flag_l2_block br bc)
                           [col1 sdiv TILE_L2_SIZE .. min (col2 sdiv TILE_L2_SIZE) (l2_blocks_x d2 - 1)])
                  [row1 sdiv TILE_L2_SIZE .. min (row2 sdiv TILE_L2_SIZE) (l2_blocks_y d2 - 1)] d2)
         else Some d1)"
    unfolding mark_dirty_region_def Let_def d1_def by (rule refl)
  from assms(1) i1 show ?thesis
    unfolding unf
    by (auto split: if_splits option.splits dest: r1 r2)
qed

lemma reset_dirty_region_inv:
  assumes "tracker_inv d"
  shows "tracker_inv (reset_dirty_region d)"
  using assms
  by (auto simp: reset_dirty_region_def reset_sparse_dirty_tracking_def Let_def tracker_inv_def
        tile_grid_fits_def l1_bitmap_backed_def check_l1_tile_bitmap_def bitmap_test_empty)

lemma dirty_region_init_inv: "tracker_inv (dirty_region_init screen_cols screen_rows)"
  by (simp add: dirty_region_init_def init_sparse_dirty_tracking_def
        init_hierarchical_dirty_tracking_def dirty_region_static_def Let_def tracker_inv_def
        tile_grid_fits_def l1_bitmap_backed_def check_l1_tile_bitmap_def bitmap_test_empty)

lemma tracker_step_inv:
  assumes "tracker_step op d = Some d'" and "tracker_inv d"
  shows "tracker_inv d'"
proof (cases op)
  case (Mark_dirty row col)
  with assms show ?thesis by (auto intro: mark_dirty_inv)
next
  case (Mark_dirty_region row1 col1 row2 col2)
  with assms show ?thesis by (auto intro: mark_dirty_region_inv)
next
  case Reset_dirty_region
  with assms show ?thesis by (auto intro: reset_dirty_region_inv)
next
  case (Refresh_bookkeeping r0 r1 c0 c1 h f b p)
  with assms show ?thesis
    by (auto simp: tracker_inv_def tile_grid_fits_def l1_bitmap_backed_def
          check_l1_tile_bitmap_def)
qed

lemma tracker_run_inv:
  assumes "tracker_run screen_cols screen_rows ops = Some d"
  shows "tracker_inv d"
proof -
  have "\<And>x s s'. x \<in> set ops \<Longrightarrow> tracker_inv s \<Longrightarrow> tracker_step x s = Some s' \<Longrightarrow> tracker_inv s'"
    by (rule tracker_step_inv)
  from this dirty_region_init_inv assms [unfolded tracker_run_def] show ?thesis
    by (rule for_each_invariant)
qed

text \<open>
  In a state whose tile grid fits the arrays, \<open>mark_dirty\<close> of a cell with non-negative
  coordinates indexes no array outside its bounds.
\<close>

lemma flag_l1_tile_defined:
  assumes "0 \<le> tr" "tr < MAX_L1_TILES_Y" "0 \<le> tc" "tc < MAX_L1_TILES_X"
  shows "\<exists>d'. flag_l1_tile tr tc d = Some d'"
  using assms
  by (auto simp: flag_l1_tile_def add_sparse_l1_tile_def check_l1_tile_bitmap_def
        alloc_dirty_tile_def set_l1_tile_bitmap_def Let_def tile_consts
        split: option.splits bool.splits)

lemma flag_l2_block_defined:
  assumes "0 \<le> br" "br < MAX_L2_BLOCKS_Y" "0 \<le> bc" "bc < MAX_L2_BLOCKS_X"
  shows "\<exists>d'. flag_l2_block br bc d = Some d'"
  using assms
  by (auto simp: flag_l2_block_def add_sparse_l2_block_def check_l2_block_bitmap_def
        alloc_dirty_tile_def set_l2_block_bitmap_def Let_def tile_consts
        split: option.splits bool.splits)

lemma mark_dirty_defined:
  assumes "tile_grid_fits d" and "0 \<le> row" and "0 \<le> col"
  shows "\<exists>d'. mark_dirty row col d = Some d'"
proof -
  let ?d1 = "d\<lparr>min_row := (if row < min_row d then row else min_row d),
                 max_row := (if row > max_row d then row else max_row d),
                 min_col := (if col < min_col d then col else min_col d),
                 max_col := (if col > max_col d then col else max_col d),
                 has_changes := True\<rparr>"
  from assms(2,3) have nn: "0 \<le> row sdiv TILE_L1_SIZE" "0 \<le> col sdiv TILE_L1_SIZE"
    "0 \<le> row sdiv TILE_L2_SIZE" "0 \<le> col sdiv TILE_L2_SIZE"
    by (simp_all add: signed_divide_int_def sgn_if tile_consts)
  show ?thesis
  proof (cases "use_hierarchical_tiles d")
    case False
    then show ?thesis by (simp add: mark_dirty_def Let_def)
  next
    case True
    with assms(1) have fit: "l1_tiles_x d \<le> MAX_L1_TILES_X" "l1_tiles_y d \<le> MAX_L1_TILES_Y"
      "l2_blocks_x d \<le> MAX_L2_BLOCKS_X" "l2_blocks_y d \<le> MAX_L2_BLOCKS_Y"
      by (simp_all add: tile_grid_fits_def)
    obtain d2 where s1: "(if row sdiv TILE_L1_SIZE < l1_tiles_y ?d1 \<and> col sdiv TILE_L1_SIZE < l1_tiles_x ?d1
              then flag_l1_tile (row sdiv TILE_L1_SIZE) (col sdiv TILE_L1_SIZE) ?d1 else Some ?d1) = Some d2"
      using flag_l1_tile_defined [of "row sdiv TILE_L1_SIZE" "col sdiv TILE_L1_SIZE" ?d1] nn fit
      by (cases "row sdiv TILE_L1_SIZE < l1_tiles_y ?d1 \<and> col sdiv TILE_L1_SIZE < l1_tiles_x ?d1")
         auto
    then have dims: "l2_blocks_x d2 = l2_blocks_x d" "l2_blocks_y d2 = l2_blocks_y d"
      using flag_l1_tile_frame [of "row sdiv TILE_L1_SIZE" "col sdiv TILE_L1_SIZE" ?d1 d2]
      by (auto split: if_splits)
    obtain d3 where s2: "(if row sdiv TILE_L2_SIZE < l2_blocks_y d2 \<and> col sdiv TILE_L2_SIZE < l2_blocks_x d2
              then flag_l2_block (row sdiv TILE_L2_SIZE) (col sdiv TILE_L2_SIZE) d2 else Some d2) = Some d3"
      using flag_l2_block_defined [of "row sdiv TILE_L2_SIZE" "col sdiv TILE_L2_SIZE" d2] nn fit dims
      by (cases "row sdiv TILE_L2_SIZE < l2_blocks_y d2 \<and> col sdiv TILE_L2_SIZE < l2_blocks_x d2")
         auto
    from True s1 s2 have "mark_dirty row col d = Some d3"
      by (simp add: mark_dirty_def Let_def)
    then show ?thesis by blast
  qed
qed

text \<open>
  Claim C5, as the code has it. In every tracker state in which \<open>mark_dirty row col\<close> is
  defined, the bounding rectangle contains \<open>(row, col)\<close> afterwards; if hierarchical
  tracking is active and the covering 8x8 tile lies inside the tile grid, the flag of the
  tile in \<open>l1_tiles\<close> is set; if the pool of tile nodes is exhausted, the sparse level-1
  list is left as it is; and marking the same cell again changes nothing at all. In
  every state that the tracker reaches from one initialisation by \<open>tui_init\<close> through
  \<open>mark_dirty\<close>, \<open>mark_dirty_region\<close>, \<open>reset_dirty_region\<close> and the bookkeeping of a
  refresh, \<open>mark_dirty\<close> is defined for every cell with non-negative coordinates, and if
  hierarchical and sparse tracking are active, the tile lies inside the tile grid and
  the pool is not exhausted, the covering tile is on the sparse level-1 list afterwards.
\<close>

theorem mark_dirty_sound:
  "(mark_dirty row col d = Some d' \<longrightarrow>
      min_row d' \<le> row \<and> row \<le> max_row d' \<and> min_col d' \<le> col \<and> col \<le> max_col d'
      \<and> has_changes d'
      \<and> (use_hierarchical_tiles d
           \<and> row sdiv TILE_L1_SIZE < l1_tiles_y d \<and> col sdiv TILE_L1_SIZE < l1_tiles_x d
         \<longrightarrow> l1_tiles d' (row sdiv TILE_L1_SIZE) (col sdiv TILE_L1_SIZE))
      \<and> (tile_pool_exhausted d \<longrightarrow> dirty_l1_tiles d' = dirty_l1_tiles d)
      \<and> mark_dirty row col d' = Some d')
   \<and> (tracker_run screen_cols screen_rows ops = Some t \<and> 0 \<le> y \<and> 0 \<le> x \<longrightarrow>
        (\<exists>t'. mark_dirty y x t = Some t'
           \<and> (use_hierarchical_tiles t \<and> use_sparse_tracking t
                \<and> y sdiv TILE_L1_SIZE < l1_tiles_y t \<and> x sdiv TILE_L1_SIZE < l1_tiles_x t
                \<and> \<not> tile_pool_exhausted t
              \<longrightarrow> (word_of_int (y sdiv TILE_L1_SIZE), word_of_int (x sdiv TILE_L1_SIZE))
                    \<in> set (dirty_l1_tiles t'))))"
proof (rule conjI; rule impI)
  assume "mark_dirty row col d = Some d'"
  from mark_dirty_effect [OF this]
  show "min_row d' \<le> row \<and> row \<le> max_row d' \<and> min_col d' \<le> col \<and> col \<le> max_col d'
      \<and> has_changes d'
      \<and> (use_hierarchical_tiles d
           \<and> row sdiv TILE_L1_SIZE < l1_tiles_y d \<and> col sdiv TILE_L1_SIZE < l1_tiles_x d
         \<longrightarrow> l1_tiles d' (row sdiv TILE_L1_SIZE) (col sdiv TILE_L1_SIZE))
      \<and> (tile_pool_exhausted d \<longrightarrow> dirty_l1_tiles d' = dirty_l1_tiles d)
      \<and> mark_dirty row col d' = Some d'"
    by simp
next
  assume h: "tracker_run screen_cols screen_rows ops = Some t \<and> 0 \<le> y \<and> 0 \<le> x"
  then have inv: "l1_bitmap_backed t" "tile_grid_fits t"
    using tracker_run_inv [of screen_cols screen_rows ops t] by (simp_all add: tracker_inv_def)
  from mark_dirty_defined [OF inv(2)] h obtain t' where m: "mark_dirty y x t = Some t'" by blast
  from mark_dirty_effect [OF m] inv(1)
  have "use_hierarchical_tiles t \<and> use_sparse_tracking t
                \<and> y sdiv TILE_L1_SIZE < l1_tiles_y t \<and> x sdiv TILE_L1_SIZE < l1_tiles_x t
                \<and> \<not> tile_pool_exhausted t
              \<longrightarrow> (word_of_int (y sdiv TILE_L1_SIZE), word_of_int (x sdiv TILE_L1_SIZE))
                    \<in> set (dirty_l1_tiles t')"
    by simp
  with m show "\<exists>t'. mark_dirty y x t = Some t'
           \<and> (use_hierarchical_tiles t \<and> use_sparse_tracking t
                \<and> y sdiv TILE_L1_SIZE < l1_tiles_y t \<and> x sdiv TILE_L1_SIZE < l1_tiles_x t
                \<and> \<not> tile_pool_exhausted t
              \<longrightarrow> (word_of_int (y sdiv TILE_L1_SIZE), word_of_int (x sdiv TILE_L1_SIZE))
                    \<in> set (dirty_l1_tiles t'))"
    by blast
qed

lemma dirty_region_init_80_24:
  "dirty_region_init 80 24 =
     dirty_region_static\<lparr>l1_tiles_x := 10, l1_tiles_y := 3, l2_blocks_x := 3, l2_blocks_y := 1,
       use_hierarchical_tiles := True, dirty_tile_free := 512, use_sparse_tracking := True\<rparr>"
  by (simp add: dirty_region_init_def init_sparse_dirty_tracking_def
      init_hierarchical_dirty_tracking_def dirty_region_static_def tile_consts Let_def
      signed_divide_int_def)

lemmas tracker_eval = mark_dirty_def dirty_region_static_def tile_consts
  Let_def flag_l1_tile_def flag_l2_block_def add_sparse_l1_tile_def
  add_sparse_l2_block_def check_l1_tile_bitmap_def check_l2_block_bitmap_def
  set_l1_tile_bitmap_def set_l2_block_bitmap_def alloc_dirty_tile_def bitmap_set_def
  bitmap_test_def signed_divide_int_def

text \<open>
  On a terminal of 80 columns and 24 rows, after a first mark of cell (5, 9): marking
  cell (3, 20) extends the rectangle to it, flags tile (0, 2) and puts it on the sparse
  list, and a second mark of the cell changes nothing. And with the pool exhausted, the
  mark of cell (32, 0) leaves the sparse list as it is.
\<close>

theorem mark_dirty_sound_witness:
  "(\<exists>t t'. tracker_run 80 24 [Mark_dirty 5 9] = Some t \<and> mark_dirty 3 20 t = Some t'
      \<and> min_row t' \<le> 3 \<and> 3 \<le> max_row t' \<and> min_col t' \<le> 20 \<and> 20 \<le> max_col t'
      \<and> l1_tiles t' 0 2 \<and> (0, 2) \<in> set (dirty_l1_tiles t')
      \<and> mark_dirty 3 20 t' = Some t')
   \<and> (\<exists>e'. tile_pool_exhausted tracker_pool_exhausted
         \<and> mark_dirty 32 0 tracker_pool_exhausted = Some e'
         \<and> dirty_l1_tiles e' = dirty_l1_tiles tracker_pool_exhausted)"
proof -
  have ex: "tile_pool_exhausted tracker_pool_exhausted"
    by (simp add: tracker_pool_exhausted_def tile_pool_exhausted_def)
  have "mark_dirty 32 0 tracker_pool_exhausted \<noteq> None"
    by (auto simp add: tracker_pool_exhausted_def dirty_region_init_def
          init_sparse_dirty_tracking_def init_hierarchical_dirty_tracking_def tracker_eval)
  then obtain e' where me: "mark_dirty 32 0 tracker_pool_exhausted = Some e'" by blast
  from mark_dirty_sound [of 32 0 tracker_pool_exhausted e' 80 24 "[]" "dirty_region_init 80 24" 0 0]
    me ex
  have "dirty_l1_tiles e' = dirty_l1_tiles tracker_pool_exhausted" by simp
  with me ex have second: "\<exists>e'. tile_pool_exhausted tracker_pool_exhausted
         \<and> mark_dirty 32 0 tracker_pool_exhausted = Some e'
         \<and> dirty_l1_tiles e' = dirty_l1_tiles tracker_pool_exhausted" by blast
  obtain t where r: "tracker_run 80 24 [Mark_dirty 5 9] = Some t"
    by (simp add: tracker_run_def dirty_region_init_80_24 tracker_eval)
  then have t: "t = the (mark_dirty 5 9 (dirty_region_init 80 24))"
    by (simp add: tracker_run_def split: option.splits)
  have pre: "use_hierarchical_tiles t \<and> use_sparse_tracking t
       \<and> 3 sdiv TILE_L1_SIZE < l1_tiles_y t \<and> 20 sdiv TILE_L1_SIZE < l1_tiles_x t
       \<and> \<not> tile_pool_exhausted t"
    unfolding t
    by (simp add: dirty_region_init_80_24 tracker_eval tile_pool_exhausted_def)
  have tile: "(word_of_int (3 sdiv TILE_L1_SIZE), word_of_int (20 sdiv TILE_L1_SIZE))
                = ((0, 2) :: dirty_tile_t)"
       "3 sdiv TILE_L1_SIZE = 0" "20 sdiv TILE_L1_SIZE = 2"
    by (simp_all add: tile_consts signed_divide_int_def)
  from mark_dirty_sound [of 3 20 t _ 80 24 "[Mark_dirty 5 9]" t 3 20] r pre
  obtain t' where m: "mark_dirty 3 20 t = Some t'"
    and p: "(0, 2) \<in> set (dirty_l1_tiles t')"
    by (auto simp: tile)
  from mark_dirty_sound [of 3 20 t t' 80 24 "[Mark_dirty 5 9]" t 3 20] m pre
  have "min_row t' \<le> 3 \<and> 3 \<le> max_row t' \<and> min_col t' \<le> 20 \<and> 20 \<le> max_col t'
      \<and> l1_tiles t' 0 2 \<and> mark_dirty 3 20 t' = Some t'"
    by (simp add: tile)
  with r m p second show ?thesis by blast
qed

text \<open>
  Claim C5 as stated fails in two ways. Once the pool is exhausted, \<open>alloc_dirty_tile\<close>
  returns \<open>NULL\<close> and the tile of cell (32, 0), tile (4, 0), is not put on the sparse list,
  although hierarchical and sparse tracking are active. And when the tracker is
  initialised a second time while a mark is pending, \<open>init_sparse_dirty_tracking\<close> empties
  the lists but leaves the bitmaps: the bit of tile (0, 2) is still set, so the next mark
  of cell (3, 20) takes the tile for listed and the list stays empty, with the pool of
  512 nodes untouched.
\<close>

theorem mark_dirty_pool_exhausted_counterexample:
  "(use_hierarchical_tiles tracker_pool_exhausted \<and> use_sparse_tracking tracker_pool_exhausted
    \<and> 32 sdiv TILE_L1_SIZE < l1_tiles_y tracker_pool_exhausted
    \<and> 0 sdiv TILE_L1_SIZE < l1_tiles_x tracker_pool_exhausted
    \<and> map_option dirty_l1_tiles (mark_dirty 32 0 tracker_pool_exhausted)
        = Some (dirty_l1_tiles tracker_pool_exhausted)
    \<and> (word_of_int (32 sdiv TILE_L1_SIZE), word_of_int (0 sdiv TILE_L1_SIZE))
        \<notin> set (dirty_l1_tiles tracker_pool_exhausted))
   \<and> (\<exists>d1 d2 d3. mark_dirty 3 20 (dirty_region_init 80 24) = Some d1
        \<and> d2 = init_sparse_dirty_tracking (init_hierarchical_dirty_tracking 80 24 d1)
        \<and> use_hierarchical_tiles d2 \<and> use_sparse_tracking d2
        \<and> 3 sdiv TILE_L1_SIZE < l1_tiles_y d2 \<and> 20 sdiv TILE_L1_SIZE < l1_tiles_x d2
        \<and> \<not> tile_pool_exhausted d2
        \<and> mark_dirty 3 20 d2 = Some d3 \<and> dirty_l1_tiles d3 = [])"
proof -
  have a: "use_hierarchical_tiles tracker_pool_exhausted \<and> use_sparse_tracking tracker_pool_exhausted
    \<and> 32 sdiv TILE_L1_SIZE < l1_tiles_y tracker_pool_exhausted
    \<and> 0 sdiv TILE_L1_SIZE < l1_tiles_x tracker_pool_exhausted
    \<and> map_option dirty_l1_tiles (mark_dirty 32 0 tracker_pool_exhausted)
        = Some (dirty_l1_tiles tracker_pool_exhausted)
    \<and> (word_of_int (32 sdiv TILE_L1_SIZE), word_of_int (0 sdiv TILE_L1_SIZE))
        \<notin> set (dirty_l1_tiles tracker_pool_exhausted)"
    by (auto simp add: tracker_pool_exhausted_def dirty_region_init_def init_sparse_dirty_tracking_def
      init_hierarchical_dirty_tracking_def tracker_eval)
  have b: "\<exists>d1 d2 d3. mark_dirty 3 20 (dirty_region_init 80 24) = Some d1
        \<and> d2 = init_sparse_dirty_tracking (init_hierarchical_dirty_tracking 80 24 d1)
        \<and> use_hierarchical_tiles d2 \<and> use_sparse_tracking d2
        \<and> 3 sdiv TILE_L1_SIZE < l1_tiles_y d2 \<and> 20 sdiv TILE_L1_SIZE < l1_tiles_x d2
        \<and> \<not> tile_pool_exhausted d2
        \<and> mark_dirty 3 20 d2 = Some d3 \<and> dirty_l1_tiles d3 = []"
    by (simp add: dirty_region_init_80_24 init_sparse_dirty_tracking_def
          init_hierarchical_dirty_tracking_def tile_pool_exhausted_def tracker_eval)
  from a b show ?thesis by blast
qed

section \<open>Rendering engine state (tui.c globals)\<close>

text \<open>
  The globals of tui.c that the drawing and refresh functions read or write, as one
  record. A grid is a function from row and column to a cell; the allocation is
  \<open>buf_rows\<close> by \<open>buf_cols\<close>, and a read or write of a cell outside it is undefined
  behaviour, which the functions below report as \<open>None\<close>. Characters are bytes
  (\<open>char\<close>); attribute words are 32-bit words, and the invalidation sentinel
  \<open>0xFFFFFFFF\<close> is the word \<open>- 1\<close>.

  \<open>terminal\<close> collects the bytes handed to \<open>writev\<close> or \<open>write\<close>; inside the engine
  the output descriptor is taken to accept every byte it is offered (partial writes are
  the subject of the section on \<open>tui_flush_vectored\<close>). \<open>write_log\<close> is not a variable of
  the program: it records, in order, every call of \<open>tui_write\<close> together with the kind
  of caller, so that emissions can be counted.
\<close>

datatype origin = Cursor_seq | Attr_seq | Run_chars | Reset_seq | Other_seq

record tui_window_t =
  begy :: int
  begx :: int
  maxy :: int
  maxx :: int
  cury :: int
  curx :: int
  win_attr :: "32 word"
  bkgd :: "32 word"
  win_dirty :: "(int \<Rightarrow> bool) option"

record tui_state =
  tui_lines :: int
  tui_cols :: int
  buf_rows :: int
  buf_cols :: int
  bufs_allocated :: bool
  screen_buf :: "int \<Rightarrow> int \<Rightarrow> char"
  attr_buf :: "int \<Rightarrow> int \<Rightarrow> 32 word"
  prev_screen_buf :: "int \<Rightarrow> int \<Rightarrow> char"
  prev_attr_buf :: "int \<Rightarrow> int \<Rightarrow> 32 word"
  dirty_region :: dirty_region_t
  cursor_last_row :: int
  cursor_last_col :: int
  cursor_cache_initialized :: bool
  attr_last_fg :: int
  attr_last_bg :: int
  attr_last_attrs :: "32 word"
  attr_state_initialized :: bool
  colors_initialized :: bool
  color_pair_cache :: color_pair_cache_t
  color_defs :: "int \<Rightarrow> color_def_t"
  esc_seq_cache :: esc_seq_cache_t
  supports_unicode :: bool
  stdscr :: tui_window_t
  use_writev :: bool
  writev_buf :: writev_buffer_t
  output_data :: string
  output_auto_flush :: bool
  terminal :: string
  write_log :: "(origin \<times> string) list"

definition OUTPUT_BUFFER_SIZE :: nat where "OUTPUT_BUFFER_SIZE = 8192"
definition BUFFER_FLUSH_THRESHOLD :: nat where "BUFFER_FLUSH_THRESHOLD = OUTPUT_BUFFER_SIZE * 3 div 4"
definition CURSOR_CACHE_ROWS :: int where "CURSOR_CACHE_ROWS = 100"
definition CURSOR_CACHE_COLS :: int where "CURSOR_CACHE_COLS = 200"
definition CURSOR_POS_POOL_SIZE :: int where "CURSOR_POS_POOL_SIZE = 256"

definition cell_ok :: "tui_state \<Rightarrow> int \<Rightarrow> int \<Rightarrow> bool" where
  "cell_ok s y x \<longleftrightarrow> 0 \<le> y \<and> y < buf_rows s \<and> 0 \<le> x \<and> x < buf_cols s"

text \<open>The comparison the scanners make: the cell differs from the physical snapshot.\<close>

definition cell_changed :: "tui_state \<Rightarrow> int \<Rightarrow> int \<Rightarrow> bool" where
  "cell_changed s y x \<longleftrightarrow>
     screen_buf s y x \<noteq> prev_screen_buf s y x \<or> attr_buf s y x \<noteq> prev_attr_buf s y x"

subsection \<open>Output path\<close>

text \<open>
  \<open>tui_flush_vectored\<close> run against a descriptor that takes all pending bytes in one
  \<open>writev\<close>; with that script the loop always returns.
\<close>

definition tui_flush_vectored_all :: "tui_state \<Rightarrow> tui_state" where
  "tui_flush_vectored_all s =
     (case tui_flush_vectored [Written (total_bytes (writev_buf s))] (writev_buf s) of
        None \<Rightarrow> s
      | Some (accepted, ex, rest, buf) \<Rightarrow>
          s\<lparr>writev_buf := buf, terminal := terminal s @ accepted\<rparr>)"

definition tui_flush :: "tui_state \<Rightarrow> tui_state" where
  "tui_flush s =
     (if use_writev s then tui_flush_vectored_all s
      else if length (output_data s) > 0
           then s\<lparr>terminal := terminal s @ output_data s, output_data := []\<rparr>
           else s)"

text \<open>
  \<open>tui_write_vectored\<close>. Every caller in the engine passes at most 512 bytes, so the
  copy into the 8192-byte pool fits once the pool has been flushed.
\<close>

definition tui_write_vectored :: "string \<Rightarrow> tui_state \<Rightarrow> tui_state" where
  "tui_write_vectored data s =
     (let s1 = (if length (vecs (writev_buf s)) \<ge> MAX_IOVECS
                   \<or> data_pool_used (writev_buf s) + length data > WRITEV_DATA_POOL_SIZE
                then tui_flush_vectored_all s else s);
          b = writev_buf s1;
          s2 = s1\<lparr>writev_buf :=
                    b\<lparr>vecs := vecs b @ [data],
                      total_bytes := total_bytes b + length data,
                      data_pool_used := data_pool_used b + length data\<rparr>\<rparr>
      in if auto_flush_enabled (writev_buf s2)
            \<and> (length (vecs (writev_buf s2)) \<ge> VEC_FLUSH_THRESHOLD
                \<or> total_bytes (writev_buf s2) \<ge> WRITEV_BUFFER_SIZE)
         then tui_flush_vectored_all s2 else s2)"

text \<open>The bookkeeping of \<open>write_log\<close>: one entry per call that puts bytes into the output.\<close>

definition log_write :: "origin \<Rightarrow> string \<Rightarrow> tui_state \<Rightarrow> tui_state" where
  "log_write k data s = s\<lparr>write_log := write_log s @ [(k, data)]\<rparr>"

text \<open>\<open>tui_write(data, len)\<close>, called from a caller of kind \<open>k\<close>.\<close>

definition tui_write :: "origin \<Rightarrow> string \<Rightarrow> tui_state \<Rightarrow> tui_state" where
  "tui_write k data s0 =
     (let s = log_write k data s0
      in if use_writev s then tui_write_vectored data s
         else
           (let overflow = length (output_data s) + length data > OUTPUT_BUFFER_SIZE;
                s1 = (if overflow then tui_flush s else s)
            in if overflow \<and> length data > OUTPUT_BUFFER_SIZE
               then s1\<lparr>terminal := terminal s1 @ data\<rparr>
               else
                 (let s2 = s1\<lparr>output_data := output_data s1 @ data\<rparr>
                  in if output_auto_flush s2 \<and> length (output_data s2) \<ge> BUFFER_FLUSH_THRESHOLD
                     then tui_flush s2 else s2)))"

definition tui_set_auto_flush :: "bool \<Rightarrow> tui_state \<Rightarrow> tui_state" where
  "tui_set_auto_flush enabled s =
     (if use_writev s
      then s\<lparr>writev_buf := (writev_buf s)\<lparr>auto_flush_enabled := enabled\<rparr>\<rparr>
      else s\<lparr>output_auto_flush := enabled\<rparr>)"

definition tui_force_flush :: "tui_state \<Rightarrow> tui_state" where
  "tui_force_flush s = tui_set_auto_flush True (tui_flush s)"

text \<open>Everything written so far and not yet handed to the descriptor.\<close>

definition pending_output :: "tui_state \<Rightarrow> string" where
  "pending_output s = (if use_writev s then concat (vecs (writev_buf s)) else output_data s)"

subsection \<open>Cursor positioning (tui\_move\_cached)\<close>

text \<open>The absolute positioning sequence \<open>ESC [ row+1 ; col+1 H\<close>.\<close>

definition cup_sequence :: "int \<Rightarrow> int \<Rightarrow> string" where
  "cup_sequence row col = [CHR 0x1B, CHR ''[''] @ fmt_d (row + 1) @ '';'' @ fmt_d (col + 1) @ ''H''"

definition get_cursor_pool_index :: "int \<Rightarrow> int \<Rightarrow> int" where
  "get_cursor_pool_index row col =
     (if row < 2 \<and> col < 40 then row * 40 + col
      else if row \<ge> 10 \<and> row < 16 \<and> col < 80 \<and> col smod 5 = 0
           then 80 + (row - 10) * 16 + col sdiv 5
      else - 1)"

text \<open>
  The pool that \<open>init_precomputed_sequences\<close> fills: 80 positions of the two top rows,
  then 96 positions of rows 10 to 15 at every fifth column; the rest stays empty.
\<close>

definition precomputed_cursor_position :: "int \<Rightarrow> string" where
  "precomputed_cursor_position idx =
     (if idx < 80 then cup_sequence (idx div 40) (idx mod 40)
      else if idx < 176 then cup_sequence (10 + (idx - 80) div 16) (5 * ((idx - 80) mod 16))
      else [])"

text \<open>The table that \<open>init_cursor_cache\<close> fills for rows below 100 and columns below 200.\<close>

definition cursor_cache_sequence :: "int \<Rightarrow> int \<Rightarrow> string" where
  "cursor_cache_sequence row col = cup_sequence row col"

text \<open>
  The relative move of \<open>tui_move_cached\<close>, when it decides to use one. Where no table has
  the position, the absolute sequence is formatted into a local buffer, interned, and
  written while the buffer is alive: the bytes written are those of the buffer whichever
  pointer \<open>intern_esc_sequence\<close> gives back, and the pool keeps the entry.
\<close>

definition relative_move :: "int \<Rightarrow> int \<Rightarrow> int \<Rightarrow> int \<Rightarrow> string option" where
  "relative_move last_row last_col row col =
     (let row_diff = row - last_row; col_diff = col - last_col
      in if \<bar>row_diff\<bar> \<le> 5 \<and> \<bar>col_diff\<bar> \<le> 5 then
           (if row_diff = 1 \<and> col = 0 then Some [CHR 0x0D, CHR 0x0A]
            else if row_diff = 0 \<and> col = 0 \<and> last_col > 0 then Some [CHR 0x0D]
            else
              (let v = (if row_diff > 0 then
                          (if row_diff = 1 then [CHR 0x1B] @ ''[B''
                           else [CHR 0x1B, CHR ''[''] @ fmt_d row_diff @ ''B'')
                        else if row_diff < 0 then
                          (if row_diff = - 1 then [CHR 0x1B] @ ''[A''
                           else [CHR 0x1B, CHR ''[''] @ fmt_d (- row_diff) @ ''A'')
                        else []);
                   h = (if col_diff > 0 then
                          (if col_diff = 1 then [CHR 0x1B] @ ''[C''
                           else [CHR 0x1B, CHR ''[''] @ fmt_d col_diff @ ''C'')
                        else if col_diff < 0 then
                          (if col_diff = - 1 then [CHR 0x1B] @ ''[D''
                           else [CHR 0x1B, CHR ''[''] @ fmt_d (- col_diff) @ ''D'')
                        else [])
               in if length (v @ h) > 0 then Some (v @ h) else None))
         else None)"

definition tui_move_cached :: "int \<Rightarrow> int \<Rightarrow> tui_state \<Rightarrow> tui_state" where
  "tui_move_cached row col s =
     (if row = cursor_last_row s \<and> col = cursor_last_col s then s
      else
        (case (if cursor_last_row s \<ge> 0 \<and> cursor_last_col s \<ge> 0
               then relative_move (cursor_last_row s) (cursor_last_col s) row col else None) of
           Some bytes \<Rightarrow>
             (tui_write Cursor_seq bytes s)\<lparr>cursor_last_row := row, cursor_last_col := col\<rparr>
         | None \<Rightarrow>
             (let pool_idx = get_cursor_pool_index row col
              in if precomputed_initialized (esc_seq_cache s)
                    \<and> pool_idx \<ge> 0 \<and> pool_idx < CURSOR_POS_POOL_SIZE
                 then (tui_write Cursor_seq (precomputed_cursor_position pool_idx) s)
                        \<lparr>cursor_last_row := row, cursor_last_col := col\<rparr>
                 else if cursor_cache_initialized s \<and> row \<ge> 0 \<and> row < CURSOR_CACHE_ROWS
                         \<and> col \<ge> 0 \<and> col < CURSOR_CACHE_COLS
                 then (tui_write Cursor_seq (cursor_cache_sequence row col) s)
                        \<lparr>cursor_last_row := row, cursor_last_col := col\<rparr>
                 else (tui_write Cursor_seq (cup_sequence row col)
                         (s\<lparr>esc_seq_cache :=
                              snd (intern_esc_sequence (cup_sequence row col) (esc_seq_cache s))\<rparr>))
                        \<lparr>cursor_last_row := row, cursor_last_col := col\<rparr>)))"

definition reset_cursor_tracking :: "tui_state \<Rightarrow> tui_state" where
  "reset_cursor_tracking s = s\<lparr>cursor_last_row := - 1, cursor_last_col := - 1\<rparr>"

subsection \<open>Attributes (get\_pair\_colors, apply\_attributes)\<close>

definition TUI_PAIR_NUMBER :: "32 word \<Rightarrow> int" where
  "TUI_PAIR_NUMBER a = uint (drop_bit 8 a AND 0xff)"

definition TUI_COLOR_PAIR :: "int \<Rightarrow> 32 word" where
  "TUI_COLOR_PAIR n = word_of_int (push_bit 8 n)"

definition get_pair_colors :: "int \<Rightarrow> color_pair_cache_t \<Rightarrow> bool \<times> int \<times> int" where
  "get_pair_colors pair c =
     (if pair = 0 then (True, TUI_COLOR_WHITE, TUI_COLOR_BLACK)
      else if pair > 0 \<and> pair < TUI_COLOR_PAIRS
           then (True, fst (color_pairs c pair), snd (color_pairs c pair))
      else case find (\<lambda>n. node_pair_num n = pair) (nodes c) of
             Some n \<Rightarrow> (True, node_fg n, node_bg n)
           | None \<Rightarrow> (False, TUI_COLOR_WHITE, TUI_COLOR_BLACK))"

text \<open>
  The precomputed table \<open>basic_colors\<close> without its first byte, as the fallback of
  \<open>apply_attributes\<close> copies it: entries 0 to 7 are foreground colors, 8 to 15 background.
\<close>

definition basic_color_tail :: "int \<Rightarrow> string" where
  "basic_color_tail i = (if i < 8 then ''[3'' @ fmt_d i @ ''m'' else ''[4'' @ fmt_d (i - 8) @ ''m'')"

text \<open>
  The sequence that \<open>apply_attributes\<close> builds by hand when the cache returns \<open>NULL\<close>.
  An index outside \<open>basic_colors[16]\<close> is undefined behaviour. The sequence is interned
  and written while its buffer is alive. A pointer that came out of the cache is read by
  \<open>tui_write\<close> as it is; if it is the pointer to the dead buffer of
  \<open>get_cached_attr_sequence\<close>, the read is undefined behaviour.
\<close>

definition fallback_attr_sequence ::
  "tui_state \<Rightarrow> int \<Rightarrow> int \<Rightarrow> 32 word \<Rightarrow> string option" where
  "fallback_attr_sequence s fg bg text_attrs =
     (let s0 = [CHR 0x1B] @ ''[0'';
          s1 = (if text_attrs \<noteq> TUI_A_NORMAL \<and> text_attrs AND TUI_A_BOLD \<noteq> 0
                then s0 @ '';1'' else s0);
          pre = precomputed_initialized (esc_seq_cache s);
          s2 = (if fg \<noteq> TUI_COLOR_WHITE \<or> \<not> attr_state_initialized s then
                  (if fg < 8 \<and> pre then
                     (if fg < 0 then None else Some (s1 @ basic_color_tail fg))
                   else if fg \<ge> 8 \<and> fg < MAX_CUSTOM_COLORS then
                     (case get_rgb_values (def_r (color_defs s fg)) (def_g (color_defs s fg))
                             (def_b (color_defs s fg)) of
                        (r, g, b) \<Rightarrow>
                          Some (s1 @ '';38;2;'' @ fmt_d r @ '';'' @ fmt_d g @ '';'' @ fmt_d b))
                   else if fg < 8 then Some (s1 @ '';3'' @ fmt_d fg)
                   else Some s1)
                else Some s1)
      in case s2 of
           None \<Rightarrow> None
         | Some t2 \<Rightarrow>
             (if bg \<noteq> TUI_COLOR_BLACK then
                (if bg < 8 \<and> pre then
                   (if bg + 8 < 0 then None else Some (t2 @ basic_color_tail (bg + 8) @ ''m''))
                 else if bg \<ge> 8 \<and> bg < MAX_CUSTOM_COLORS then
                   (case get_rgb_values (def_r (color_defs s bg)) (def_g (color_defs s bg))
                           (def_b (color_defs s bg)) of
                      (r, g, b) \<Rightarrow>
                        Some (t2 @ '';48;2;'' @ fmt_d r @ '';'' @ fmt_d g @ '';'' @ fmt_d b @ ''m''))
                 else if bg < 8 then Some (t2 @ '';4'' @ fmt_d bg @ ''m'')
                 else Some (t2 @ ''m''))
              else Some (t2 @ ''m'')))"

definition apply_attributes :: "32 word \<Rightarrow> tui_state \<Rightarrow> tui_state option" where
  "apply_attributes attr s =
     (let (fg, bg) =
            (if colors_initialized s \<and> attr AND TUI_A_COLOR \<noteq> 0
             then snd (get_pair_colors (TUI_PAIR_NUMBER attr) (color_pair_cache s))
             else (TUI_COLOR_WHITE, TUI_COLOR_BLACK));
          text_attrs = attr AND NOT TUI_A_COLOR
      in if attr_state_initialized s \<and> attr_last_fg s = fg \<and> attr_last_bg s = bg
            \<and> attr_last_attrs s = text_attrs
         then Some s
         else
           (case (case get_cached_attr_sequence (color_defs s) fg bg text_attrs (esc_seq_cache s) of
                    (Some (cached_seq, seq_len), e) \<Rightarrow>
                      (case seq_bytes cached_seq seq_len of
                         None \<Rightarrow> None
                       | Some bytes \<Rightarrow> Some (tui_write Attr_seq bytes (s\<lparr>esc_seq_cache := e\<rparr>)))
                  | (None, e) \<Rightarrow>
                      (case fallback_attr_sequence s fg bg text_attrs of
                         None \<Rightarrow> None
                       | Some seq_buf \<Rightarrow>
                           Some (tui_write Attr_seq seq_buf
                                   (s\<lparr>esc_seq_cache := snd (intern_esc_sequence seq_buf e)\<rparr>)))) of
              None \<Rightarrow> None
            | Some s1 \<Rightarrow>
                Some (s1\<lparr>attr_last_fg := fg, attr_last_bg := bg, attr_last_attrs := text_attrs,
                         attr_state_initialized := True\<rparr>)))"

definition reset_attr_state :: "tui_state \<Rightarrow> tui_state" where
  "reset_attr_state s =
     s\<lparr>attr_last_fg := - 1, attr_last_bg := - 1, attr_last_attrs := - 1,
       attr_state_initialized := False\<rparr>"

subsection \<open>Emitting a run (output\_buffered\_run)\<close>

text \<open>One cell of the physical snapshot is brought up to the logical grid.\<close>

definition copy_cell :: "int \<Rightarrow> int \<Rightarrow> tui_state \<Rightarrow> tui_state" where
  "copy_cell y x s =
     s\<lparr>prev_screen_buf := (prev_screen_buf s)(y := (prev_screen_buf s y)(x := screen_buf s y x)),
       prev_attr_buf := (prev_attr_buf s)(y := (prev_attr_buf s y)(x := attr_buf s y x))\<rparr>"

text \<open>The cells \<open>start_x .. end_x\<close> of row \<open>y\<close> all lie inside the allocation.\<close>

definition run_in_bounds :: "tui_state \<Rightarrow> int \<Rightarrow> int \<Rightarrow> int \<Rightarrow> bool" where
  "run_in_bounds s y start_x end_x \<longleftrightarrow>
     end_x < start_x \<or> (cell_ok s y start_x \<and> cell_ok s y end_x)"

text \<open>The branch for short runs: collect the bytes and update the snapshot.\<close>

definition collect_run :: "int \<Rightarrow> int \<Rightarrow> int \<Rightarrow> tui_state \<Rightarrow> string \<times> tui_state" where
  "collect_run y start_x end_x s =
     (map (screen_buf s y) [start_x .. end_x], fold (copy_cell y) [start_x .. end_x] s)"

text \<open>The branch for very long runs: one \<open>tui_putchar\<close> per cell.\<close>

definition putchar_run :: "int \<Rightarrow> int \<Rightarrow> int \<Rightarrow> tui_state \<Rightarrow> tui_state" where
  "putchar_run y start_x end_x s =
     fold (\<lambda>x t. copy_cell y x (tui_write Run_chars [screen_buf t y x] t)) [start_x .. end_x] s"

definition output_buffered_run_vectored ::
  "int \<Rightarrow> int \<Rightarrow> int \<Rightarrow> tui_state \<Rightarrow> tui_state option" where
  "output_buffered_run_vectored y start_x end_x s =
     (if \<not> run_in_bounds s y start_x end_x then None
      else
        (let run_len = end_x - start_x + 1;
             s' = (if run_len \<le> 512 then
                     (let s1 = (if cursor_last_col s \<noteq> start_x
                                then tui_move_cached y start_x s else s);
                          (run, s2) = collect_run y start_x end_x s1;
                          s3 = tui_write_vectored run (log_write Run_chars run s2)
                      in if use_writev s3 \<and> length (vecs (writev_buf s3)) > 0
                            \<and> (length (vecs (writev_buf s3)) \<ge> VEC_FLUSH_THRESHOLD * 3 div 4
                                \<or> total_bytes (writev_buf s3) \<ge> WRITEV_BUFFER_SIZE * 3 div 4)
                         then tui_flush_vectored_all s3 else s3)
                   else putchar_run y start_x end_x s)
         in Some (s'\<lparr>cursor_last_col := end_x + 1\<rparr>)))"

definition output_buffered_run :: "int \<Rightarrow> int \<Rightarrow> int \<Rightarrow> tui_state \<Rightarrow> tui_state option" where
  "output_buffered_run y start_x end_x s =
     (if use_writev s then output_buffered_run_vectored y start_x end_x s
      else if \<not> run_in_bounds s y start_x end_x then None
      else
        (let s1 = (if cursor_last_col s \<noteq> start_x then tui_move_cached y start_x s else s);
             run_len = end_x - start_x + 1;
             s' = (if run_len \<le> 256 then
                     (let (run, s2) = collect_run y start_x end_x s1
                      in tui_write Run_chars run s2)
                   else putchar_run y start_x end_x s1)
         in Some (s'\<lparr>cursor_last_col := end_x + 1\<rparr>)))"

text \<open>
  What the scanners do with a run once its end is known: move the cursor, apply the
  attribute, emit the run, and note the cursor column.
\<close>

definition emit_run :: "int \<Rightarrow> int \<Rightarrow> int \<Rightarrow> 32 word \<Rightarrow> tui_state \<Rightarrow> tui_state option" where
  "emit_run y start_x end_x curr_attr s =
     (case apply_attributes curr_attr (tui_move_cached y start_x s) of
        None \<Rightarrow> None
      | Some s1 \<Rightarrow>
          (case output_buffered_run y start_x end_x s1 of
             None \<Rightarrow> None
           | Some s2 \<Rightarrow> Some (s2\<lparr>cursor_last_col := end_x + 1\<rparr>)))"

subsection \<open>Change detection (row\_has\_changes, col\_has\_changes, optimize\_dirty\_region)\<close>

text \<open>
  \<open>row_has_changes\<close> compares \<open>end_col - start_col + 1\<close> cells of row \<open>y\<close> with
  \<open>memcmp\<close>, starting at \<open>start_col\<close>. Only the upper bounds are checked before, so a
  negative row or start column makes \<open>memcmp\<close> read in front of the allocation, and a
  negative width becomes a huge \<open>size_t\<close>.
\<close>

definition row_has_changes :: "tui_state \<Rightarrow> int \<Rightarrow> int \<Rightarrow> int \<Rightarrow> bool option" where
  "row_has_changes s y start_col end_col =
     (if y \<ge> buf_rows s \<or> start_col \<ge> buf_cols s \<or> end_col \<ge> buf_cols s then Some False
      else if y < 0 then None
      else if end_col - start_col + 1 < 0 then None
      else if end_col - start_col + 1 = 0 then Some False
      else if start_col < 0 then None
      else Some (list_ex (cell_changed s y) [start_col .. end_col]))"

definition col_has_changes :: "tui_state \<Rightarrow> int \<Rightarrow> int \<Rightarrow> int \<Rightarrow> bool option" where
  "col_has_changes s x start_row end_row =
     (if x \<ge> buf_cols s \<or> start_row \<ge> buf_rows s \<or> end_row \<ge> buf_rows s then Some False
      else if end_row < start_row then Some False
      else if x < 0 \<or> start_row < 0 then None
      else Some (list_ex (\<lambda>y. cell_changed s y x) [start_row .. end_row]))"

text \<open>
  A \<open>for\<close> loop that leaves with \<open>break\<close> at the first index whose test succeeds. The
  outer \<open>None\<close> is undefined behaviour in a test, the inner one "no index found".
\<close>

fun find_first :: "(int \<Rightarrow> bool option) \<Rightarrow> int list \<Rightarrow> int option option" where
  "find_first p [] = Some None"
| "find_first p (i # is) =
     (case p i of
        None \<Rightarrow> None
      | Some True \<Rightarrow> Some (Some i)
      | Some False \<Rightarrow> find_first p is)"

definition optimize_dirty_region :: "tui_state \<Rightarrow> tui_state option" where
  "optimize_dirty_region s =
     (let d = dirty_region s in
      if \<not> has_changes d then Some s
      else
        (let original_min_row = min_row d; original_max_row = max_row d;
             original_min_col = min_col d; original_max_col = max_col d;
             cmp_end_col = (if original_max_col < buf_cols s then original_max_col
                         else buf_cols s - 1)
         in case find_first (\<lambda>y. row_has_changes s y original_min_col cmp_end_col)
                   [original_min_row .. min original_max_row (buf_rows s - 1)] of
              None \<Rightarrow> None
            | Some found_top \<Rightarrow>
                (let new_min_row = (case found_top of None \<Rightarrow> INT_MAX | Some y \<Rightarrow> y)
                 in case find_first (\<lambda>y. row_has_changes s y original_min_col cmp_end_col)
                           (rev [max new_min_row 0 .. original_max_row]) of
                      None \<Rightarrow> None
                    | Some found_bottom \<Rightarrow>
                        (let new_max_row = (case found_bottom of None \<Rightarrow> - 1 | Some y \<Rightarrow> y)
                         in if new_min_row = INT_MAX \<or> new_max_row = - 1
                            then Some (s\<lparr>dirty_region :=
                                          d\<lparr>min_row := new_min_row, max_row := new_max_row,
                                            has_changes := False\<rparr>\<rparr>)
                            else
                              (case find_first (\<lambda>x. col_has_changes s x new_min_row new_max_row)
                                      [original_min_col .. min original_max_col (buf_cols s - 1)] of
                                 None \<Rightarrow> None
                               | Some found_left \<Rightarrow>
                                   (let new_min_col = (case found_left of None \<Rightarrow> INT_MAX | Some x \<Rightarrow> x)
                                    in case find_first
                                              (\<lambda>x. col_has_changes s x new_min_row new_max_row)
                                              (rev [max new_min_col 0 .. original_max_col]) of
                                         None \<Rightarrow> None
                                       | Some found_right \<Rightarrow>
                                           (let new_max_col =
                                                  (case found_right of None \<Rightarrow> - 1 | Some x \<Rightarrow> x)
                                            in Some (s\<lparr>dirty_region :=
                                                 d\<lparr>min_row := new_min_row, max_row := new_max_row,
                                                   min_col := new_min_col, max_col := new_max_col,
                                                   has_changes :=
                                                     (if new_min_col = INT_MAX \<or> new_max_col = - 1
                                                      then False else has_changes d)\<rparr>\<rparr>))))))))"

subsection \<open>Scanning one tile (scan\_l1\_tile)\<close>

text \<open>The inner \<open>while\<close> that extends a run inside a tile.\<close>

function tile_run_end ::
  "tui_state \<Rightarrow> int \<Rightarrow> int \<Rightarrow> int \<Rightarrow> 32 word \<Rightarrow> int \<Rightarrow> int option" where
  "tile_run_end s y end_col scan_max_col curr_attr end_x =
     (if end_x + 1 < end_col \<and> end_x + 1 \<le> scan_max_col then
        (if \<not> cell_ok s y (end_x + 1) then None
         else if attr_buf s y (end_x + 1) = curr_attr \<and> cell_changed s y (end_x + 1)
              then tile_run_end s y end_col scan_max_col curr_attr (end_x + 1)
         else Some end_x)
      else Some end_x)"
  by pat_completeness auto
termination
  by (relation "measure (\<lambda>(s, y, end_col, scan_max_col, curr_attr, end_x). nat (end_col - end_x))")
     auto

declare tile_run_end.simps [simp del]

lemma tile_run_end_ge:
  "tile_run_end s y end_col scan_max_col curr_attr end_x = Some e \<Longrightarrow> end_x \<le> e"
proof (induction s y end_col scan_max_col curr_attr end_x rule: tile_run_end.induct)
  case (1 s y end_col scan_max_col curr_attr end_x)
  note unfold = tile_run_end.simps [of s y end_col scan_max_col curr_attr end_x]
  from "1.prems" "1.IH" show ?case
    unfolding unfold by (fastforce split: if_splits)
qed

text \<open>The \<open>while (x < end_col)\<close> loop over one row of a tile.\<close>

function scan_tile_row ::
  "int \<Rightarrow> int \<Rightarrow> int \<Rightarrow> int \<Rightarrow> bool \<times> tui_state \<Rightarrow> (bool \<times> tui_state) option" where
  "scan_tile_row y end_col scan_max_col x (changed, s) =
     (if x < end_col then
        (if \<not> cell_ok s y x then None
         else if cell_changed s y x then
           (case tile_run_end s y end_col scan_max_col (attr_buf s y x) x of
              None \<Rightarrow> None
            | Some end_x \<Rightarrow>
                (case emit_run y x end_x (attr_buf s y x) s of
                   None \<Rightarrow> None
                 | Some s' \<Rightarrow> scan_tile_row y end_col scan_max_col (end_x + 1) (True, s')))
         else scan_tile_row y end_col scan_max_col (x + 1) (changed, s))
      else Some (changed, s))"
  by pat_completeness auto
termination
  by (relation "measure (\<lambda>(y, end_col, scan_max_col, x, a). nat (end_col - x))")
     (auto dest: tile_run_end_ge)

declare scan_tile_row.simps [simp del]

definition scan_l1_tile ::
  "int \<Rightarrow> int \<Rightarrow> int \<Rightarrow> int \<Rightarrow> int \<Rightarrow> int \<Rightarrow> int \<Rightarrow> int \<Rightarrow> bool \<times> tui_state
     \<Rightarrow> (bool \<times> tui_state) option" where
  "scan_l1_tile tile_row tile_col p_buf_rows p_buf_cols
       scan_min_row scan_max_row scan_min_col scan_max_col a =
     (let lines = tui_lines (snd a); cols = tui_cols (snd a);
          start_row0 = tile_row * TILE_L1_SIZE;
          end_row0 = (tile_row + 1) * TILE_L1_SIZE;
          start_col0 = tile_col * TILE_L1_SIZE;
          end_col0 = (tile_col + 1) * TILE_L1_SIZE;
          end_row1 = (if end_row0 > p_buf_rows then p_buf_rows else end_row0);
          end_col1 = (if end_col0 > p_buf_cols then p_buf_cols else end_col0);
          end_row2 = (if end_row1 > lines then lines else end_row1);
          end_col2 = (if end_col1 > cols then cols else end_col1);
          start_row = (if start_row0 < scan_min_row then scan_min_row else start_row0);
          end_row = (if end_row2 > scan_max_row + 1 then scan_max_row + 1 else end_row2);
          start_col = (if start_col0 < scan_min_col then scan_min_col else start_col0);
          end_col = (if end_col2 > scan_max_col + 1 then scan_max_col + 1 else end_col2)
      in for_each (\<lambda>y. scan_tile_row y end_col scan_max_col start_col)
           [start_row .. end_row - 1] a)"

subsection \<open>Linear scanning with gap coalescing (the fallback of tui\_refresh)\<close>

text \<open>The run is extended over changed cells and over gaps of at most three unchanged cells.\<close>

definition MAX_GAP :: int where "MAX_GAP = 3"

function linear_run_extend ::
  "tui_state \<Rightarrow> int \<Rightarrow> 32 word \<Rightarrow> int \<Rightarrow> int \<Rightarrow> int option" where
  "linear_run_extend s y curr_attr end_x unchanged_gap =
     (if end_x + 1 < buf_cols s \<and> end_x + 1 < tui_cols s then
        (if \<not> cell_ok s y (end_x + 1) then None
         else if attr_buf s y (end_x + 1) = curr_attr then
           (if cell_changed s y (end_x + 1)
            then linear_run_extend s y curr_attr (end_x + 1) 0
            else if unchanged_gap < MAX_GAP
                 then linear_run_extend s y curr_attr (end_x + 1) (unchanged_gap + 1)
            else Some end_x)
         else Some end_x)
      else Some end_x)"
  by pat_completeness auto
termination
  by (relation "measure (\<lambda>(s, y, curr_attr, end_x, g). nat (buf_cols s - end_x))") auto

declare linear_run_extend.simps [simp del]

text \<open>Trailing unchanged cells are cut off again.\<close>

function linear_run_trim :: "tui_state \<Rightarrow> int \<Rightarrow> int \<Rightarrow> int \<Rightarrow> int option" where
  "linear_run_trim s y x end_x =
     (if end_x > x then
        (if \<not> cell_ok s y end_x then None
         else if \<not> cell_changed s y end_x then linear_run_trim s y x (end_x - 1)
         else Some end_x)
      else Some end_x)"
  by pat_completeness auto
termination
  by (relation "measure (\<lambda>(s, y, x, end_x). nat (end_x - x))") auto

declare linear_run_trim.simps [simp del]

lemma linear_run_extend_ge:
  "linear_run_extend s y curr_attr end_x g = Some e \<Longrightarrow> end_x \<le> e"
proof (induction s y curr_attr end_x g rule: linear_run_extend.induct)
  case (1 s y curr_attr end_x g)
  note unfold = linear_run_extend.simps [of s y curr_attr end_x g]
  from "1.prems" "1.IH" show ?case
    unfolding unfold by (fastforce split: if_splits)
qed

lemma linear_run_trim_ge:
  "linear_run_trim s y x end_x = Some e \<Longrightarrow> x \<le> end_x \<Longrightarrow> x \<le> e"
proof (induction s y x end_x rule: linear_run_trim.induct)
  case (1 s y x end_x)
  note unfold = linear_run_trim.simps [of s y x end_x]
  from "1.prems" "1.IH" show ?case
    unfolding unfold by (fastforce split: if_splits)
qed

function scan_linear_row ::
  "int \<Rightarrow> int \<Rightarrow> int \<Rightarrow> bool \<times> tui_state \<Rightarrow> (bool \<times> tui_state) option" where
  "scan_linear_row y scan_max_col x (changed, s) =
     (if x \<le> scan_max_col \<and> x < buf_cols s \<and> x < tui_cols s then
        (if \<not> cell_ok s y x then None
         else if cell_changed s y x then
           (case linear_run_extend s y (attr_buf s y x) x 0 of
              None \<Rightarrow> None
            | Some e1 \<Rightarrow>
                (case linear_run_trim s y x e1 of
                   None \<Rightarrow> None
                 | Some end_x \<Rightarrow>
                     (case emit_run y x end_x (attr_buf s y x) s of
                        None \<Rightarrow> None
                      | Some s' \<Rightarrow> scan_linear_row y scan_max_col (end_x + 1) (True, s'))))
         else scan_linear_row y scan_max_col (x + 1) (changed, s))
      else Some (changed, s))"
  by pat_completeness auto
termination
  by (relation "measure (\<lambda>(y, scan_max_col, x, a). nat (scan_max_col + 1 - x))")
     (auto dest!: linear_run_extend_ge linear_run_trim_ge)

declare scan_linear_row.simps [simp del]

definition scan_linear ::
  "int \<Rightarrow> int \<Rightarrow> int \<Rightarrow> int \<Rightarrow> bool \<times> tui_state \<Rightarrow> (bool \<times> tui_state) option" where
  "scan_linear scan_min_row scan_max_row scan_min_col scan_max_col a =
     for_each
       (\<lambda>y (changed, s).
          (case row_has_changes s y scan_min_col
                  (if scan_max_col < buf_cols s then scan_max_col else buf_cols s - 1) of
             None \<Rightarrow> None
           | Some False \<Rightarrow> Some (changed, s)
           | Some True \<Rightarrow> scan_linear_row y scan_max_col scan_min_col (changed, s)))
       [scan_min_row .. scan_max_row] a"

subsection \<open>The refresh pass (tui\_refresh, branch of the primary window)\<close>

text \<open>The scan rectangle: the dirty rectangle clamped to the allocation and the terminal.\<close>

definition scan_bounds :: "tui_state \<Rightarrow> int \<times> int \<times> int \<times> int" where
  "scan_bounds s =
     (let d = dirty_region s;
          r0 = (if min_row d \<ge> 0 then min_row d else 0);
          r1 = (if max_row d < buf_rows s then max_row d else buf_rows s - 1);
          c0 = (if min_col d \<ge> 0 then min_col d else 0);
          c1 = (if max_col d < buf_cols s then max_col d else buf_cols s - 1)
      in ((if r0 < tui_lines s then r0 else tui_lines s - 1),
          (if r1 < tui_lines s then r1 else tui_lines s - 1),
          (if c0 < tui_cols s then c0 else tui_cols s - 1),
          (if c1 < tui_cols s then c1 else tui_cols s - 1)))"

text \<open>
  The adaptive choice between sparse and hierarchical scanning. It counts the frame,
  updates the learned preference every 60 frames, and answers whether the sparse tile
  list is to be walked.
\<close>

definition choose_scanning ::
  "int \<times> int \<times> int \<times> int \<Rightarrow> dirty_region_t \<Rightarrow> bool \<times> dirty_region_t" where
  "choose_scanning b d0 =
     (case b of (scan_min_row, scan_max_row, scan_min_col, scan_max_col) \<Rightarrow>
        (let d = d0\<lparr>frame_count := frame_count d0 + 1\<rparr>
         in if use_sparse_tracking d then
              (let sparse_tile_count = int (min (length (dirty_l1_tiles d)) 100);
                   scan_area = (scan_max_row - scan_min_row + 1) * (scan_max_col - scan_min_col + 1);
                   tile_area = scan_area sdiv (TILE_L1_SIZE * TILE_L1_SIZE);
                   beneficial = (sparse_tile_count > 0 \<and> sparse_tile_count < tile_area sdiv 3);
                   d1 = (if beneficial
                         then d\<lparr>sparse_beneficial_count := sparse_beneficial_count d + 1\<rparr> else d);
                   d2 = (if frame_count d1 mod 60 = 0 then
                           (if sparse_beneficial_count d1 > 30
                            then d1\<lparr>prefer_sparse_mode := True, sparse_beneficial_count := 0\<rparr>
                            else if sparse_beneficial_count d1 < 15
                            then d1\<lparr>prefer_sparse_mode := False, sparse_beneficial_count := 0\<rparr>
                            else d1\<lparr>sparse_beneficial_count := 0\<rparr>)
                         else d1)
               in (beneficial \<or> (prefer_sparse_mode d2 \<and> sparse_tile_count > 0
                                   \<and> sparse_tile_count < tile_area sdiv 2),
                   d2))
            else (False, d)))"

text \<open>A tile or block of the given size meets the scan rectangle.\<close>

definition meets_scan :: "int \<Rightarrow> int \<Rightarrow> int \<Rightarrow> int \<times> int \<times> int \<times> int \<Rightarrow> bool" where
  "meets_scan edge r c b =
     (case b of (scan_min_row, scan_max_row, scan_min_col, scan_max_col) \<Rightarrow>
        r * edge + edge - 1 \<ge> scan_min_row \<and> r * edge \<le> scan_max_row
        \<and> c * edge + edge - 1 \<ge> scan_min_col \<and> c * edge \<le> scan_max_col)"

definition scan_tile_in ::
  "int \<times> int \<times> int \<times> int \<Rightarrow> int \<Rightarrow> int \<Rightarrow> bool \<times> tui_state \<Rightarrow> (bool \<times> tui_state) option" where
  "scan_tile_in b tile_row tile_col a =
     (case b of (scan_min_row, scan_max_row, scan_min_col, scan_max_col) \<Rightarrow>
        scan_l1_tile tile_row tile_col (buf_rows (snd a)) (buf_cols (snd a))
          scan_min_row scan_max_row scan_min_col scan_max_col a)"

text \<open>Sparse scanning: walk the list of dirty level-1 tiles.\<close>

definition scan_sparse ::
  "int \<times> int \<times> int \<times> int \<Rightarrow> dirty_tile_t list \<Rightarrow> bool \<times> tui_state
     \<Rightarrow> (bool \<times> tui_state) option" where
  "scan_sparse b tiles a =
     for_each
       (\<lambda>t acc. if meets_scan TILE_L1_SIZE (uint (fst t)) (uint (snd t)) b
                  then scan_tile_in b (uint (fst t)) (uint (snd t)) acc
                  else Some acc)
       tiles a"

text \<open>
  Hierarchical scanning over the sparse lists: for every dirty level-2 block that meets
  the scan rectangle, walk the level-1 list and scan the tiles inside the block.
\<close>

definition scan_hier_sparse ::
  "int \<times> int \<times> int \<times> int \<Rightarrow> dirty_tile_t list \<Rightarrow> dirty_tile_t list \<Rightarrow> bool \<times> tui_state
     \<Rightarrow> (bool \<times> tui_state) option" where
  "scan_hier_sparse b blocks tiles a =
     for_each
       (\<lambda>blk acc.
          if meets_scan TILE_L2_SIZE (uint (fst blk)) (uint (snd blk)) b then
            for_each
              (\<lambda>t acc'.
                 if uint (fst t) sdiv (TILE_L2_SIZE sdiv TILE_L1_SIZE) = uint (fst blk)
                    \<and> uint (snd t) sdiv (TILE_L2_SIZE sdiv TILE_L1_SIZE) = uint (snd blk)
                    \<and> meets_scan TILE_L1_SIZE (uint (fst t)) (uint (snd t)) b
                 then scan_tile_in b (uint (fst t)) (uint (snd t)) acc'
                 else Some acc')
              tiles acc
          else Some acc)
       blocks a"

text \<open>
  The flag tests of the dense hierarchical scan. Only the upper bounds are compared with
  the tile counts, so a negative index, or one beyond the array, is undefined behaviour.
\<close>

definition has_l1_tile_changes :: "dirty_region_t \<Rightarrow> int \<Rightarrow> int \<Rightarrow> bool option" where
  "has_l1_tile_changes d tile_row tile_col =
     (if \<not> use_hierarchical_tiles d then Some True
      else if tile_row < l1_tiles_y d \<and> tile_col < l1_tiles_x d then
        (if 0 \<le> tile_row \<and> tile_row < MAX_L1_TILES_Y \<and> 0 \<le> tile_col \<and> tile_col < MAX_L1_TILES_X
         then Some (l1_tiles d tile_row tile_col) else None)
      else Some False)"

definition has_l2_block_changes :: "dirty_region_t \<Rightarrow> int \<Rightarrow> int \<Rightarrow> bool option" where
  "has_l2_block_changes d block_row block_col =
     (if \<not> use_hierarchical_tiles d then Some True
      else if block_row < l2_blocks_y d \<and> block_col < l2_blocks_x d then
        (if 0 \<le> block_row \<and> block_row < MAX_L2_BLOCKS_Y \<and> 0 \<le> block_col
            \<and> block_col < MAX_L2_BLOCKS_X
         then Some (l2_blocks d block_row block_col) else None)
      else Some False)"

text \<open>The dense hierarchical scan over the flag arrays.\<close>

definition scan_hier_dense ::
  "int \<times> int \<times> int \<times> int \<Rightarrow> bool \<times> tui_state \<Rightarrow> (bool \<times> tui_state) option" where
  "scan_hier_dense b a =
     (case b of (scan_min_row, scan_max_row, scan_min_col, scan_max_col) \<Rightarrow>
        for_each
          (\<lambda>l2_row. for_each
             (\<lambda>l2_col acc.
                (case has_l2_block_changes (dirty_region (snd acc)) l2_row l2_col of
                   None \<Rightarrow> None
                 | Some False \<Rightarrow> Some acc
                 | Some True \<Rightarrow>
                     (let d = dirty_region (snd acc);
                          ratio = TILE_L2_SIZE sdiv TILE_L1_SIZE;
                          l1_start_row0 = l2_row * ratio;
                          l1_end_row0 = (l2_row + 1) * ratio - 1;
                          l1_start_col0 = l2_col * ratio;
                          l1_end_col0 = (l2_col + 1) * ratio - 1;
                          l1_end_row1 = (if l1_end_row0 \<ge> l1_tiles_y d then l1_tiles_y d - 1
                                         else l1_end_row0);
                          l1_end_col1 = (if l1_end_col0 \<ge> l1_tiles_x d then l1_tiles_x d - 1
                                         else l1_end_col0);
                          l1_start_row = max l1_start_row0 (scan_min_row sdiv TILE_L1_SIZE);
                          l1_end_row = min l1_end_row1 (scan_max_row sdiv TILE_L1_SIZE);
                          l1_start_col = max l1_start_col0 (scan_min_col sdiv TILE_L1_SIZE);
                          l1_end_col = min l1_end_col1 (scan_max_col sdiv TILE_L1_SIZE)
                      in for_each
                           (\<lambda>l1_row. for_each
                              (\<lambda>l1_col acc'.
                                 (case has_l1_tile_changes (dirty_region (snd acc')) l1_row l1_col of
                                    None \<Rightarrow> None
                                  | Some False \<Rightarrow> Some acc'
                                  | Some True \<Rightarrow> scan_tile_in b l1_row l1_col acc'))
                              [l1_start_col .. l1_end_col])
                           [l1_start_row .. l1_end_row] acc)))
             [scan_min_col sdiv TILE_L2_SIZE .. scan_max_col sdiv TILE_L2_SIZE])
          [scan_min_row sdiv TILE_L2_SIZE .. scan_max_row sdiv TILE_L2_SIZE] a)"

text \<open>The scan that \<open>tui_refresh\<close> selects.\<close>

definition refresh_scan ::
  "bool \<Rightarrow> int \<times> int \<times> int \<times> int \<Rightarrow> tui_state \<Rightarrow> (bool \<times> tui_state) option" where
  "refresh_scan use_sparse_scanning b s =
     (let d = dirty_region s in
      if use_sparse_scanning then scan_sparse b (dirty_l1_tiles d) (False, s)
      else if use_hierarchical_tiles d then
        (if use_sparse_tracking d
         then scan_hier_sparse b (dirty_l2_blocks d) (dirty_l1_tiles d) (False, s)
         else scan_hier_dense b (False, s))
      else (case b of (scan_min_row, scan_max_row, scan_min_col, scan_max_col) \<Rightarrow>
              scan_linear scan_min_row scan_max_row scan_min_col scan_max_col (False, s)))"

definition ESC_RESET :: string where "ESC_RESET = [CHR 0x1B] @ ''[0m''"
definition ESC_CLEAR :: string where "ESC_CLEAR = [CHR 0x1B] @ ''[2J'' @ [CHR 0x1B] @ ''[H''"

text \<open>\<open>PRECOMP_RESET\<close>: entry 0 of the precomputed attribute sequences.\<close>

definition PRECOMP_RESET :: string where "PRECOMP_RESET = [CHR 0x1B] @ ''[0m''"

text \<open>The end of the pass: reset sequence, forced flush, and clearing of all dirty state.\<close>

definition refresh_finish :: "bool \<times> tui_state \<Rightarrow> tui_state" where
  "refresh_finish a =
     (case a of (changed, s) \<Rightarrow>
        (let s1 = (if changed
                   then reset_attr_state (tui_force_flush
                          (tui_write Reset_seq
                             (if precomputed_initialized (esc_seq_cache s) then PRECOMP_RESET
                              else ESC_RESET) s))
                   else s);
             s2 = tui_set_auto_flush True s1
         in s2\<lparr>dirty_region := reset_dirty_region (dirty_region s2)\<rparr>))"

text \<open>
  \<open>tui_refresh(tui_stdscr)\<close>. The result is the return value and the new state; \<open>None\<close>
  is undefined behaviour on the way.
\<close>

definition tui_refresh :: "tui_state \<Rightarrow> (int \<times> tui_state) option" where
  "tui_refresh s0 =
     (if \<not> bufs_allocated s0 then Some (- 1, s0)
      else
        (let s1 = tui_set_auto_flush False s0 in
         if \<not> has_changes (dirty_region s1) then Some (0, tui_set_auto_flush True s1)
         else
           (case optimize_dirty_region s1 of
              None \<Rightarrow> None
            | Some s2 \<Rightarrow>
                (let b = scan_bounds s2;
                     (use_sparse_scanning, d) = choose_scanning b (dirty_region s2);
                     s3 = s2\<lparr>dirty_region := d\<rparr>
                 in case refresh_scan use_sparse_scanning b s3 of
                      None \<Rightarrow> None
                    | Some a \<Rightarrow> Some (0, refresh_finish a)))))"

subsection \<open>Drawing operations\<close>

definition tui_wattron :: "32 word \<Rightarrow> tui_window_t \<Rightarrow> tui_window_t" where
  "tui_wattron attrs win =
     (let a = (if attrs AND TUI_A_COLOR \<noteq> 0 then win_attr win AND NOT TUI_A_COLOR
               else win_attr win)
      in win\<lparr>win_attr := a OR attrs\<rparr>)"

definition tui_wattroff :: "32 word \<Rightarrow> tui_window_t \<Rightarrow> tui_window_t" where
  "tui_wattroff attrs win =
     (let a = (if attrs AND TUI_A_COLOR \<noteq> 0 then win_attr win AND NOT TUI_A_COLOR
               else win_attr win)
      in win\<lparr>win_attr := a AND NOT attrs\<rparr>)"

text \<open>One cell of the logical grid is written and its snapshot cell invalidated.\<close>

definition put_cell :: "int \<Rightarrow> int \<Rightarrow> char \<Rightarrow> 32 word \<Rightarrow> tui_state \<Rightarrow> tui_state" where
  "put_cell y x c a s =
     s\<lparr>screen_buf := (screen_buf s)(y := (screen_buf s y)(x := c)),
       attr_buf := (attr_buf s)(y := (attr_buf s y)(x := a)),
       prev_screen_buf := (prev_screen_buf s)(y := (prev_screen_buf s y)(x := CHR 0x00)),
       prev_attr_buf := (prev_attr_buf s)(y := (prev_attr_buf s y)(x := - 1))\<rparr>"

text \<open>The byte-by-byte loop of \<open>tui_print_at\<close>; the result carries the final \<open>screen_x\<close>.\<close>

fun print_bytes :: "int \<Rightarrow> 32 word \<Rightarrow> string \<Rightarrow> int \<Rightarrow> tui_state \<Rightarrow> int \<times> tui_state" where
  "print_bytes screen_y a [] screen_x s = (screen_x, s)"
| "print_bytes screen_y a (c # cs) screen_x s =
     (if screen_x < buf_cols s
      then print_bytes screen_y a cs (screen_x + 1)
             (if screen_x \<ge> 0 then put_cell screen_y screen_x c a s else s)
      else (screen_x, s))"

definition utf8_char_length :: "char \<Rightarrow> nat" where
  "utf8_char_length c =
     (let byte = (of_char c :: 8 word)
      in if byte < 0x80 then 1
         else if byte AND 0xE0 = 0xC0 then 2
         else if byte AND 0xF0 = 0xE0 then 3
         else if byte AND 0xF8 = 0xF0 then 4
         else 1)"

text \<open>
  \<open>is_valid_utf8_sequence\<close>: every length from 1 to 4 returns from the test of the first
  byte, so the loop over the continuation bytes behind them is never reached.
\<close>

definition is_valid_utf8_sequence :: "string \<Rightarrow> nat \<Rightarrow> bool" where
  "is_valid_utf8_sequence p len =
     (if len = 0 \<or> len > 4 then False
      else
        (let first = (of_char (hd p) :: 8 word)
         in if len = 1 then first < 0x80
            else if len = 2 then first AND 0xE0 = 0xC0 \<and> first \<ge> 0xC2
            else if len = 3 then first AND 0xF0 = 0xE0
            else first AND 0xF8 = 0xF0 \<and> first \<le> 0xF4))"

definition utf8_display_width :: "string \<Rightarrow> nat \<Rightarrow> int" where
  "utf8_display_width utf8_char char_len = 1"

text \<open>The cells a multi-byte character touches beyond its first: \<open>screen_x + i\<close> for \<open>0 < i\<close>.\<close>

definition put_continuation ::
  "int \<Rightarrow> int \<Rightarrow> string \<Rightarrow> 32 word \<Rightarrow> tui_state \<Rightarrow> tui_state" where
  "put_continuation screen_y screen_x bytes a s =
     fold (\<lambda>i t. if screen_x + int i < buf_cols t \<and> screen_x + int i \<ge> 0
                  then t\<lparr>screen_buf := (screen_buf t)
                           (screen_y := (screen_buf t screen_y)(screen_x + int i := bytes ! i)),
                         attr_buf := (attr_buf t)
                           (screen_y := (attr_buf t screen_y)(screen_x + int i := a OR 0x80000000))\<rparr>
                  else t)
          [1 ..< length bytes] s"

definition invalidate_cells :: "int \<Rightarrow> int \<Rightarrow> nat \<Rightarrow> tui_state \<Rightarrow> tui_state" where
  "invalidate_cells screen_y screen_x char_len s =
     fold (\<lambda>i t. if screen_x + int i < buf_cols t \<and> screen_x + int i \<ge> 0
                  then t\<lparr>prev_screen_buf := (prev_screen_buf t)
                           (screen_y := (prev_screen_buf t screen_y)(screen_x + int i := CHR 0x00)),
                         prev_attr_buf := (prev_attr_buf t)
                           (screen_y := (prev_attr_buf t screen_y)(screen_x + int i := - 1))\<rparr>
                  else t)
          [0 ..< char_len] s"

text \<open>The UTF-8 aware loop of \<open>tui_print_at\<close>.\<close>

function print_utf8 :: "int \<Rightarrow> 32 word \<Rightarrow> string \<Rightarrow> int \<Rightarrow> tui_state \<Rightarrow> int \<times> tui_state" where
  "print_utf8 screen_y a p screen_x s =
     (if p \<noteq> [] \<and> screen_x < buf_cols s then
        (let len0 = utf8_char_length (hd p);
             len1 = (if len0 > length p then 1 else len0);
             char_len = (if len1 > 1 \<and> \<not> is_valid_utf8_sequence p len1 then 1 else len1);
             s' = (if screen_x \<ge> 0 then
                     (let s1 = s\<lparr>screen_buf := (screen_buf s)
                                   (screen_y := (screen_buf s screen_y)(screen_x := hd p))\<rparr>;
                          s2 = (if char_len = 1 then s1
                                else put_continuation screen_y screen_x (take char_len p) a s1);
                          s3 = s2\<lparr>attr_buf := (attr_buf s2)
                                   (screen_y := (attr_buf s2 screen_y)(screen_x := a))\<rparr>
                      in invalidate_cells screen_y screen_x char_len s3)
                   else s)
         in print_utf8 screen_y a (drop char_len p)
              (screen_x + utf8_display_width p char_len) s')
      else (screen_x, s))"
  by pat_completeness auto
termination
  by (relation "measure (\<lambda>(screen_y, a, p, screen_x, s). length p)")
     (auto simp: utf8_char_length_def Let_def)

declare print_utf8.simps [simp del]

text \<open>
  \<open>tui_print_at(win, y, x, fmt, ...)\<close> with the formatted text given: \<open>vsnprintf\<close> keeps at
  most 1023 bytes, and a C string ends at its first zero byte. The result is the return
  value, the window and the state.
\<close>

definition tui_print_at ::
  "tui_window_t \<Rightarrow> int \<Rightarrow> int \<Rightarrow> string \<Rightarrow> tui_state
     \<Rightarrow> (int \<times> tui_window_t \<times> tui_state) option" where
  "tui_print_at win y x text s =
     (if \<not> bufs_allocated s then Some (- 1, win, s)
      else
        (let buffer = take 1023 (takeWhile (\<lambda>c. c \<noteq> CHR 0x00) text);
             screen_y = begy win + y;
             start_x = begx win + x
         in if screen_y < 0 \<or> screen_y \<ge> buf_rows s then Some (- 1, win, s)
            else
              (let (screen_x, s1) =
                     (if supports_unicode s
                      then print_utf8 screen_y (win_attr win) buffer start_x s
                      else print_bytes screen_y (win_attr win) buffer start_x s)
               in case (if screen_x > start_x
                        then mark_dirty_region screen_y start_x screen_y (screen_x - 1)
                               (dirty_region s1)
                        else Some (dirty_region s1)) of
                    None \<Rightarrow> None
                  | Some d \<Rightarrow>
                      (case (case win_dirty win of
                               None \<Rightarrow> Some None
                             | Some rows \<Rightarrow>
                                 (if y < maxy win
                                  then (if y < 0 then None else Some (Some (rows(y := True))))
                                  else Some (Some rows))) of
                         None \<Rightarrow> None
                       | Some dirty' \<Rightarrow>
                           Some (0,
                                 win\<lparr>win_dirty := dirty', cury := y, curx := screen_x - begx win\<rparr>,
                                 s1\<lparr>dirty_region := d\<rparr>)))))"

text \<open>\<open>tui_print_at\<close> on the primary window, which lives in the state.\<close>

definition tui_print_at_stdscr :: "int \<Rightarrow> int \<Rightarrow> string \<Rightarrow> tui_state \<Rightarrow> (int \<times> tui_state) option" where
  "tui_print_at_stdscr y x text s =
     (case tui_print_at (stdscr s) y x text s of
        None \<Rightarrow> None
      | Some (r, win, s') \<Rightarrow> Some (r, s'\<lparr>stdscr := win\<rparr>))"

definition tui_clear_screen :: "tui_state \<Rightarrow> (int \<times> tui_state) option" where
  "tui_clear_screen s =
     (if \<not> bufs_allocated s then Some (- 1, s)
      else
        (let s1 = s\<lparr>screen_buf := (\<lambda>y x. if cell_ok s y x then CHR '' '' else screen_buf s y x),
                    attr_buf := (\<lambda>y x. if cell_ok s y x then TUI_A_NORMAL else attr_buf s y x),
                    prev_screen_buf :=
                      (\<lambda>y x. if cell_ok s y x then CHR 0x00 else prev_screen_buf s y x),
                    prev_attr_buf := (\<lambda>y x. if cell_ok s y x then - 1 else prev_attr_buf s y x),
                    stdscr := (stdscr s)\<lparr>cury := 0, curx := 0\<rparr>\<rparr>
         in case mark_dirty_region 0 0 (buf_rows s1 - 1) (buf_cols s1 - 1) (dirty_region s1) of
              None \<Rightarrow> None
            | Some d \<Rightarrow>
                Some (0, reset_attr_state (reset_cursor_tracking (s1\<lparr>dirty_region := d\<rparr>)))))"

text \<open>\<open>tui_clear_window\<close>: the window is cleared cell by cell, each cell marked dirty.\<close>

definition clear_window_cell ::
  "tui_window_t \<Rightarrow> int \<Rightarrow> int \<Rightarrow> tui_state \<Rightarrow> tui_state option" where
  "clear_window_cell win screen_y x s =
     (let screen_x = begx win + x
      in if screen_x \<ge> 0 \<and> screen_x < buf_cols s then
           (case mark_dirty screen_y screen_x (dirty_region s) of
              None \<Rightarrow> None
            | Some d \<Rightarrow>
                Some ((put_cell screen_y screen_x CHR '' '' (bkgd win) s)\<lparr>dirty_region := d\<rparr>))
         else Some s)"

definition clear_window_row ::
  "int \<Rightarrow> tui_window_t \<times> tui_state \<Rightarrow> (tui_window_t \<times> tui_state) option" where
  "clear_window_row y a =
     (case a of (win, s) \<Rightarrow>
        (let screen_y = begy win + y
         in case (if screen_y \<ge> 0 \<and> screen_y < buf_rows s
                  then for_each (clear_window_cell win screen_y) [0 .. maxx win - 1] s
                  else Some s) of
              None \<Rightarrow> None
            | Some s' \<Rightarrow>
                Some (case win_dirty win of
                        None \<Rightarrow> win
                      | Some rows \<Rightarrow> win\<lparr>win_dirty := Some (rows(y := True))\<rparr>,
                      s')))"

definition tui_clear_window ::
  "tui_window_t \<Rightarrow> tui_state \<Rightarrow> (int \<times> tui_window_t \<times> tui_state) option" where
  "tui_clear_window win s =
     (if \<not> bufs_allocated s then Some (- 1, win, s)
      else case for_each clear_window_row [0 .. maxy win - 1] (win, s) of
             None \<Rightarrow> None
           | Some (win', s') \<Rightarrow> Some (0, win'\<lparr>cury := 0, curx := 0\<rparr>, s'))"

text \<open>
  \<open>handle_resize\<close> with the size that \<open>get_terminal_size\<close> reads: only the cached
  extents change.
\<close>

definition handle_resize :: "int \<Rightarrow> int \<Rightarrow> tui_state \<Rightarrow> tui_state" where
  "handle_resize new_lines new_cols s =
     s\<lparr>tui_lines := new_lines, tui_cols := new_cols,
       stdscr := (stdscr s)\<lparr>maxy := new_lines, maxx := new_cols\<rparr>\<rparr>"

subsection \<open>Initialisation (tui\_init)\<close>

text \<open>
  \<open>init_esc_seq_cache\<close>: allocate the pools, intern the 28 common sequences and cache the
  six common attribute combinations. The last four calls of \<open>intern_esc_sequence\<close> pass
  the length 6 with a string of seven bytes, so that the closing \<open>m\<close> is not interned.
\<close>

definition init_esc_seq_cache :: "(int \<Rightarrow> color_def_t) \<Rightarrow> esc_seq_cache_t" where
  "init_esc_seq_cache defs =
     fold (\<lambda>(fg, bg, a) e. snd (get_cached_attr_sequence defs fg bg a e))
       [(TUI_COLOR_WHITE, TUI_COLOR_BLACK, TUI_A_NORMAL),
        (TUI_COLOR_WHITE, TUI_COLOR_BLACK, TUI_A_BOLD),
        (TUI_COLOR_BLACK, TUI_COLOR_WHITE, TUI_A_NORMAL),
        (TUI_COLOR_GREEN, TUI_COLOR_BLACK, TUI_A_NORMAL),
        (TUI_COLOR_RED, TUI_COLOR_BLACK, TUI_A_NORMAL),
        (TUI_COLOR_YELLOW, TUI_COLOR_BLACK, TUI_A_BOLD)]
       (fold (\<lambda>seq e. snd (intern_esc_sequence ([CHR 0x1B] @ seq) e))
          [''[0m'', ''[1m'', ''[7m'',
           ''[30m'', ''[31m'', ''[32m'', ''[33m'', ''[34m'', ''[35m'', ''[36m'', ''[37m'',
           ''[40m'', ''[41m'', ''[42m'', ''[43m'', ''[44m'', ''[45m'', ''[46m'', ''[47m'',
           ''[0;37;40m'', ''[1;37;40m'', ''[7m'', ''[1;7m'', ''[0;30;47m'', ''[0;32'',
           ''[0;31'', ''[1;33'', ''[0;34'']
          esc_seq_cache_empty)"

text \<open>
  The state that \<open>tui_init\<close> returns for a terminal of \<open>lines\<close> by \<open>cols\<close> cells:
  \<open>allocate_buffers\<close> fills the logical grid with blanks and invalidates the snapshot,
  the caches are initialised, and the clear-screen sequence is written and flushed. All
  allocations are taken to succeed, and no alternate-screen sequence is sent.
\<close>

definition tui_init :: "int \<Rightarrow> int \<Rightarrow> bool \<Rightarrow> bool \<Rightarrow> tui_state" where
  "tui_init lines cols unicode writev_ok =
     tui_flush (tui_write Other_seq ESC_CLEAR
       \<lparr>tui_lines = lines, tui_cols = cols, buf_rows = lines, buf_cols = cols,
        bufs_allocated = True,
        screen_buf = (\<lambda>_ _. CHR '' ''), attr_buf = (\<lambda>_ _. 0),
        prev_screen_buf = (\<lambda>_ _. CHR 0x00), prev_attr_buf = (\<lambda>_ _. - 1),
        dirty_region = dirty_region_init cols lines,
        cursor_last_row = - 1, cursor_last_col = - 1, cursor_cache_initialized = True,
        attr_last_fg = - 1, attr_last_bg = - 1, attr_last_attrs = - 1,
        attr_state_initialized = False, colors_initialized = False,
        color_pair_cache = init_color_pair_cache color_pair_cache_static,
        color_defs = color_defs_static,
        esc_seq_cache = init_esc_seq_cache color_defs_static,
        supports_unicode = unicode,
        stdscr = \<lparr>begy = 0, begx = 0, maxy = lines, maxx = cols, cury = 0, curx = 0,
                  win_attr = TUI_A_NORMAL, bkgd = TUI_A_NORMAL, win_dirty = None\<rparr>,
        use_writev = writev_ok,
        writev_buf = \<lparr>vecs = [], total_bytes = 0, auto_flush_enabled = True, data_pool_used = 0\<rparr>,
        output_data = [], output_auto_flush = True,
        terminal = [], write_log = []\<rparr>)"

definition tui_start_color :: "tui_state \<Rightarrow> tui_state" where
  "tui_start_color s =
     s\<lparr>colors_initialized := True,
       color_pair_cache := (color_pair_cache s)
         \<lparr>color_pairs := (\<lambda>i. if 0 \<le> i \<and> i < TUI_COLOR_PAIRS
                               then (TUI_COLOR_WHITE, TUI_COLOR_BLACK)
                               else color_pairs (color_pair_cache s) i)\<rparr>\<rparr>"

section \<open>What a refresh pass leaves alone\<close>

text \<open>
  The output path touches only the buffers of the output path: the state after a write
  or a flush is the state before with those five fields replaced.
\<close>

definition output_only :: "tui_state \<Rightarrow> tui_state \<Rightarrow> bool" where
  "output_only s s' \<longleftrightarrow>
     s' = s\<lparr>writev_buf := writev_buf s', output_data := output_data s',
            output_auto_flush := output_auto_flush s', terminal := terminal s',
            write_log := write_log s'\<rparr>"

lemma output_only_refl: "output_only s s"
  by (simp add: output_only_def)

lemma output_only_trans: "output_only s s' \<Longrightarrow> output_only s' s'' \<Longrightarrow> output_only s s''"
  unfolding output_only_def
  by (cases s, cases s', cases s'') simp

lemma tui_flush_vectored_all_output_only: "output_only s (tui_flush_vectored_all s)"
  by (simp add: output_only_def tui_flush_vectored_all_def split: option.splits prod.splits)

lemma tui_flush_vectored_all_log: "write_log (tui_flush_vectored_all s) = write_log s"
  by (simp add: tui_flush_vectored_all_def split: option.splits prod.splits)

lemma tui_flush_output_only: "output_only s (tui_flush s)"
  using tui_flush_vectored_all_output_only [of s]
  by (simp add: output_only_def tui_flush_def)

lemma tui_flush_log: "write_log (tui_flush s) = write_log s"
  by (simp add: tui_flush_def tui_flush_vectored_all_log)

lemma tui_write_vectored_output_only: "output_only s (tui_write_vectored data s)"
proof -
  have a: "output_only s t \<Longrightarrow> output_only s (t\<lparr>writev_buf := b\<rparr>)" for t b
    unfolding output_only_def by (cases s, cases t) simp
  show ?thesis
    unfolding tui_write_vectored_def Let_def
    by (auto intro!: a output_only_trans [OF _ tui_flush_vectored_all_output_only]
             intro: output_only_refl tui_flush_vectored_all_output_only)
qed

lemma tui_write_vectored_log: "write_log (tui_write_vectored data s) = write_log s"
  by (simp add: tui_write_vectored_def Let_def tui_flush_vectored_all_log)

lemma tui_write_output_only: "output_only s (tui_write k data s)"
proof -
  have l: "output_only s (log_write k data s)"
    by (simp add: output_only_def log_write_def)
  have a: "output_only s t \<Longrightarrow> output_only s (t\<lparr>terminal := b\<rparr>)" for t b
    unfolding output_only_def by (cases s, cases t) simp
  have b: "output_only s t \<Longrightarrow> output_only s (t\<lparr>output_data := c\<rparr>)" for t c
    unfolding output_only_def by (cases s, cases t) simp
  have f: "output_only s t \<Longrightarrow> output_only s (tui_flush t)" for t
    by (rule output_only_trans [OF _ tui_flush_output_only])
  have v: "output_only s t \<Longrightarrow> output_only s (tui_write_vectored data t)" for t
    by (rule output_only_trans [OF _ tui_write_vectored_output_only])
  show ?thesis
    unfolding tui_write_def Let_def
    by (simp add: l a b f v)
qed

lemma tui_write_log: "write_log (tui_write k data s) = write_log s @ [(k, data)]"
  by (simp add: tui_write_def Let_def tui_write_vectored_log tui_flush_log log_write_def)

lemma tui_set_auto_flush_output_only: "output_only s (tui_set_auto_flush enabled s)"
  by (simp add: output_only_def tui_set_auto_flush_def)

lemma tui_set_auto_flush_silent:
  "write_log (tui_set_auto_flush enabled s) = write_log s"
  "terminal (tui_set_auto_flush enabled s) = terminal s"
  "pending_output (tui_set_auto_flush enabled s) = pending_output s"
  by (simp_all add: tui_set_auto_flush_def pending_output_def)

lemma tui_force_flush_output_only: "output_only s (tui_force_flush s)"
  unfolding tui_force_flush_def
  by (rule output_only_trans [OF tui_flush_output_only tui_set_auto_flush_output_only])


text \<open>Fields outside the output path read the same before and after.\<close>

lemma output_only_fields:
  assumes "output_only s s'"
  shows "tui_lines s' = tui_lines s" "tui_cols s' = tui_cols s"
    "buf_rows s' = buf_rows s" "buf_cols s' = buf_cols s"
    "bufs_allocated s' = bufs_allocated s"
    "screen_buf s' = screen_buf s" "attr_buf s' = attr_buf s"
    "prev_screen_buf s' = prev_screen_buf s" "prev_attr_buf s' = prev_attr_buf s"
    "dirty_region s' = dirty_region s"
    "cursor_last_row s' = cursor_last_row s" "cursor_last_col s' = cursor_last_col s"
    "use_writev s' = use_writev s" "esc_seq_cache s' = esc_seq_cache s"
  using assms unfolding output_only_def by (cases s, cases s', simp)+

subsection \<open>Steps of a scan\<close>

text \<open>
  \<open>pass s d s'\<close>: the state \<open>s'\<close> comes after \<open>s\<close> in a scan. The dimensions, the logical
  grid and the dirty tracker are the same, every cell of the physical snapshot is either
  as it was or has been brought to the logical grid, and \<open>d\<close> is what \<open>write_log\<close> has
  gained.
\<close>

definition pass :: "tui_state \<Rightarrow> (origin \<times> string) list \<Rightarrow> tui_state \<Rightarrow> bool" where
  "pass s d s' \<longleftrightarrow>
     tui_lines s' = tui_lines s \<and> tui_cols s' = tui_cols s
     \<and> buf_rows s' = buf_rows s \<and> buf_cols s' = buf_cols s
     \<and> bufs_allocated s' = bufs_allocated s
     \<and> screen_buf s' = screen_buf s \<and> attr_buf s' = attr_buf s
     \<and> dirty_region s' = dirty_region s \<and> use_writev s' = use_writev s
     \<and> (\<forall>y x. prev_screen_buf s' y x = prev_screen_buf s y x
                  \<and> prev_attr_buf s' y x = prev_attr_buf s y x
              \<or> prev_screen_buf s' y x = screen_buf s y x
                  \<and> prev_attr_buf s' y x = attr_buf s y x)
     \<and> write_log s' = write_log s @ d"

lemma pass_refl: "pass s [] s"
  by (simp add: pass_def)

lemma pass_trans: "pass s d s' \<Longrightarrow> pass s' d' s'' \<Longrightarrow> pass s (d @ d') s''"
  unfolding pass_def by (intro conjI allI; metis append.assoc)

lemma pass_keeps_agreement:
  "pass s d s' \<Longrightarrow> \<not> cell_changed s y x \<Longrightarrow> \<not> cell_changed s' y x"
  unfolding pass_def cell_changed_def by metis

lemma pass_keeps_agreement_on:
  assumes "pass s d s'" and "\<forall>x\<in>A. \<not> cell_changed s y x"
  shows "\<forall>x\<in>A. \<not> cell_changed s' y x"
proof
  fix x assume "x \<in> A"
  with assms(2) have "\<not> cell_changed s y x" by simp
  with assms(1) show "\<not> cell_changed s' y x" by (rule pass_keeps_agreement)
qed

lemma pass_cell_ok: "pass s d s' \<Longrightarrow> cell_ok s' y x = cell_ok s y x"
  by (simp add: pass_def cell_ok_def)

lemma output_only_pass:
  "output_only s s' \<Longrightarrow> write_log s' = write_log s @ d \<Longrightarrow> pass s d s'"
  by (simp add: pass_def output_only_fields)

lemma tui_write_pass: "pass s [(k, data)] (tui_write k data s)"
  by (rule output_only_pass [OF tui_write_output_only tui_write_log])

lemma cursor_update_pass:
  "pass s d t \<Longrightarrow> pass s d (t\<lparr>cursor_last_row := r, cursor_last_col := c\<rparr>)"
  by (simp add: pass_def)

lemma cursor_col_update_pass: "pass s d t \<Longrightarrow> pass s d (t\<lparr>cursor_last_col := c\<rparr>)"
  by (simp add: pass_def)

text \<open>\<open>tui_move_cached\<close> writes at most one cursor sequence, and leaves the cache at the target.\<close>

lemma tui_move_cached_pass:
  "\<exists>d. pass s d (tui_move_cached row col s)
       \<and> (d = [] \<or> (\<exists>bytes. d = [(Cursor_seq, bytes)]))"
proof -
  have w: "pass s [(Cursor_seq, bytes)]
             ((tui_write Cursor_seq bytes (s\<lparr>esc_seq_cache := e\<rparr>))
                \<lparr>cursor_last_row := row, cursor_last_col := col\<rparr>)" for bytes e
    using tui_write_pass [of "s\<lparr>esc_seq_cache := e\<rparr>" Cursor_seq bytes]
    by (simp add: pass_def)
  show ?thesis
    unfolding tui_move_cached_def Let_def
    by (auto split: option.splits intro: pass_refl cursor_update_pass [OF tui_write_pass] w)
qed

lemma tui_move_cached_col: "cursor_last_col (tui_move_cached row col s) = col"
  by (simp add: tui_move_cached_def Let_def split: option.splits)

text \<open>\<open>apply_attributes\<close> writes at most one attribute sequence, and leaves the cursor cache alone.\<close>

lemma apply_attributes_pass:
  assumes "apply_attributes attr s = Some s'"
  shows "\<exists>d. pass s d s' \<and> (d = [] \<or> (\<exists>bytes. d = [(Attr_seq, bytes)]))"
proof -
  have w: "pass s [(Attr_seq, bytes)]
             ((tui_write Attr_seq bytes (s\<lparr>esc_seq_cache := e\<rparr>))
                \<lparr>attr_last_fg := f, attr_last_bg := b, attr_last_attrs := a,
                  attr_state_initialized := True\<rparr>)" for bytes e f b a
    using tui_write_pass [of "s\<lparr>esc_seq_cache := e\<rparr>" Attr_seq bytes]
    by (simp add: pass_def)
  from assms show ?thesis
    unfolding apply_attributes_def Let_def
    by (auto split: if_splits option.splits prod.splits intro: pass_refl w)
qed

lemma apply_attributes_col:
  assumes "apply_attributes attr s = Some s'"
  shows "cursor_last_col s' = cursor_last_col s"
proof -
  have w: "cursor_last_col (tui_write k bytes t) = cursor_last_col t" for k bytes t
    by (rule output_only_fields [OF tui_write_output_only])
  from assms show ?thesis
    unfolding apply_attributes_def Let_def
    by (auto split: if_splits option.splits prod.splits simp: w)
qed

subsection \<open>Emitting a run\<close>

lemma copy_cell_pass: "pass s [] (copy_cell y x s)"
  by (simp add: pass_def copy_cell_def)

lemma copy_cell_agrees: "\<not> cell_changed (copy_cell y x s) y x"
  by (simp add: cell_changed_def copy_cell_def)

lemma fold_copy_cell:
  "pass s [] (fold (copy_cell y) xs s)
   \<and> (\<forall>x\<in>set xs. \<not> cell_changed (fold (copy_cell y) xs s) y x)"
proof (induction xs arbitrary: s)
  case Nil
  show ?case by (simp add: pass_refl)
next
  case (Cons x xs)
  let ?s1 = "copy_cell y x s"
  from Cons.IH [of ?s1] have p: "pass ?s1 [] (fold (copy_cell y) xs ?s1)"
    and c: "\<forall>x\<in>set xs. \<not> cell_changed (fold (copy_cell y) xs ?s1) y x" by simp_all
  from pass_trans [OF copy_cell_pass p] have "pass s [] (fold (copy_cell y) xs ?s1)" by simp
  moreover from pass_keeps_agreement [OF p copy_cell_agrees]
  have "\<not> cell_changed (fold (copy_cell y) xs ?s1) y x" .
  ultimately show ?case using c by simp
qed

text \<open>How many entries of one kind a stretch of \<open>write_log\<close> holds.\<close>

definition count_origin :: "origin \<Rightarrow> (origin \<times> string) list \<Rightarrow> nat" where
  "count_origin k d = length (filter (\<lambda>e. fst e = k) d)"

lemma count_origin_simps [simp]:
  "count_origin k [] = 0"
  "count_origin k ((k', bytes) # d) = (if k' = k then 1 else 0) + count_origin k d"
  "count_origin k (d @ d') = count_origin k d + count_origin k d'"
  by (simp_all add: count_origin_def)

text \<open>A stretch that consists of run writes only, and at least one.\<close>

definition runs_only :: "(origin \<times> string) list \<Rightarrow> bool" where
  "runs_only d \<longleftrightarrow> d \<noteq> [] \<and> (\<forall>e\<in>set d. fst e = Run_chars)"

lemma runs_only_counts:
  assumes "runs_only d"
  shows "count_origin Cursor_seq d = 0" "count_origin Attr_seq d = 0"
    "1 \<le> count_origin Run_chars d"
proof -
  from assms have all: "\<forall>e\<in>set d. fst e = Run_chars" and ne: "d \<noteq> []"
    by (simp_all add: runs_only_def)
  from all have "filter (\<lambda>e. fst e = Cursor_seq) d = []" by (auto simp: filter_empty_conv)
  then show "count_origin Cursor_seq d = 0" by (simp add: count_origin_def)
  from all have "filter (\<lambda>e. fst e = Attr_seq) d = []" by (auto simp: filter_empty_conv)
  then show "count_origin Attr_seq d = 0" by (simp add: count_origin_def)
  from all have "filter (\<lambda>e. fst e = Run_chars) d = d" by (auto simp: filter_id_conv)
  with ne show "1 \<le> count_origin Run_chars d"
    by (cases d) (simp_all add: count_origin_def)
qed

lemma putchar_run_pass:
  "\<exists>d. pass s d (putchar_run y start_x end_x s)
       \<and> length d = length [start_x .. end_x] \<and> (\<forall>e\<in>set d. fst e = Run_chars)
       \<and> (\<forall>x\<in>set [start_x .. end_x]. \<not> cell_changed (putchar_run y start_x end_x s) y x)"
proof -
  have "\<exists>d. pass s d (fold (\<lambda>x t. copy_cell y x (tui_write Run_chars [screen_buf t y x] t)) xs s)
            \<and> length d = length xs \<and> (\<forall>e\<in>set d. fst e = Run_chars)
            \<and> (\<forall>x\<in>set xs. \<not> cell_changed
                  (fold (\<lambda>x t. copy_cell y x (tui_write Run_chars [screen_buf t y x] t)) xs s) y x)"
    for xs
  proof (induction xs arbitrary: s)
    case Nil
    show ?case by (simp add: pass_refl)
  next
    case (Cons x xs)
    let ?f = "\<lambda>x t. copy_cell y x (tui_write Run_chars [screen_buf t y x] t)"
    let ?s1 = "?f x s"
    have p1: "pass s [(Run_chars, [screen_buf s y x])] ?s1"
      using pass_trans [OF tui_write_pass copy_cell_pass] by simp
    from Cons.IH [of ?s1] obtain d where p: "pass ?s1 d (fold ?f xs ?s1)"
      and l: "length d = length xs" and k: "\<forall>e\<in>set d. fst e = Run_chars"
      and c: "\<forall>x\<in>set xs. \<not> cell_changed (fold ?f xs ?s1) y x" by blast
    from pass_keeps_agreement [OF p copy_cell_agrees]
    have cx: "\<not> cell_changed (fold ?f xs ?s1) y x" .
    from pass_trans [OF p1 p] l k c cx show ?case
      by (intro exI [of _ "[(Run_chars, [screen_buf s y x])] @ d"]) simp
  qed
  then show ?thesis unfolding putchar_run_def .
qed

lemma collect_run_pass:
  "pass s [] (snd (collect_run y start_x end_x s))"
  "\<forall>x\<in>set [start_x .. end_x]. \<not> cell_changed (snd (collect_run y start_x end_x s)) y x"
  using fold_copy_cell [of s y "[start_x .. end_x]"] by (simp_all add: collect_run_def)

text \<open>
  \<open>output_buffered_run\<close>, called with the cursor cache already at the start of the run:
  it writes the run and nothing else, and the cells of the run agree afterwards.
\<close>

lemma output_buffered_run_vectored_pass:
  assumes "output_buffered_run_vectored y start_x end_x s = Some s'"
    and "cursor_last_col s = start_x"
  shows "\<exists>d. pass s d s' \<and> runs_only d
             \<and> (\<forall>x. start_x \<le> x \<and> x \<le> end_x \<longrightarrow> \<not> cell_changed s' y x)"
proof (cases "end_x - start_x + 1 \<le> 512")
  case True
  obtain run s2 where cr: "collect_run y start_x end_x s = (run, s2)" by (cases "collect_run y start_x end_x s")
  from collect_run_pass [where s = s and y = y and start_x = start_x and end_x = end_x] cr
  have p2: "pass s [] s2" and c2: "\<forall>x\<in>set [start_x .. end_x]. \<not> cell_changed s2 y x" by simp_all
  let ?s3 = "tui_write_vectored run (log_write Run_chars run s2)"
  have o3: "output_only s2 ?s3"
    by (rule output_only_trans [OF _ tui_write_vectored_output_only])
       (simp add: output_only_def log_write_def)
  have l3: "write_log ?s3 = write_log s2 @ [(Run_chars, run)]"
    by (simp add: tui_write_vectored_log log_write_def)
  have p3: "pass s2 [(Run_chars, run)] ?s3" by (rule output_only_pass [OF o3 l3])
  have p4: "pass ?s3 [] (tui_flush_vectored_all ?s3)"
    by (rule output_only_pass [OF tui_flush_vectored_all_output_only])
       (simp add: tui_flush_vectored_all_log)
  from assms True cr have "s' = ?s3\<lparr>cursor_last_col := end_x + 1\<rparr>
      \<or> s' = (tui_flush_vectored_all ?s3)\<lparr>cursor_last_col := end_x + 1\<rparr>"
    unfolding output_buffered_run_vectored_def Let_def
    by (auto split: if_splits)
  then have q: "pass s2 [(Run_chars, run)] s'"
    using p3 pass_trans [OF p3 p4] by (auto intro: cursor_col_update_pass)
  from pass_trans [OF p2 q] have p: "pass s [(Run_chars, run)] s'" by simp
  from q c2 have "\<forall>x\<in>set [start_x .. end_x]. \<not> cell_changed s' y x"
    by (rule pass_keeps_agreement_on)
  with p show ?thesis
    by (intro exI [of _ "[(Run_chars, run)]"]) (simp add: runs_only_def)
next
  case False
  from putchar_run_pass [of s y start_x end_x] obtain d
    where p: "pass s d (putchar_run y start_x end_x s)"
      and l: "length d = length [start_x .. end_x]" and k: "\<forall>e\<in>set d. fst e = Run_chars"
      and c: "\<forall>x\<in>set [start_x .. end_x]. \<not> cell_changed (putchar_run y start_x end_x s) y x"
    by blast
  from assms False have s': "s' = (putchar_run y start_x end_x s)\<lparr>cursor_last_col := end_x + 1\<rparr>"
    unfolding output_buffered_run_vectored_def Let_def
    by (auto split: if_splits)
  from False l have "d \<noteq> []" by auto
  with k have "runs_only d" by (simp add: runs_only_def)
  moreover from p s' have "pass s d s'" by (simp add: cursor_col_update_pass)
  moreover from c s' have "\<forall>x. start_x \<le> x \<and> x \<le> end_x \<longrightarrow> \<not> cell_changed s' y x"
    by (simp add: cell_changed_def)
  ultimately show ?thesis by blast
qed

lemma output_buffered_run_pass:
  assumes "output_buffered_run y start_x end_x s = Some s'"
    and "cursor_last_col s = start_x"
  shows "\<exists>d. pass s d s' \<and> runs_only d
             \<and> (\<forall>x. start_x \<le> x \<and> x \<le> end_x \<longrightarrow> \<not> cell_changed s' y x)"
proof (cases "use_writev s")
  case True
  with assms show ?thesis
    by (simp add: output_buffered_run_def output_buffered_run_vectored_pass)
next
  case nv: False
  show ?thesis
  proof (cases "end_x - start_x + 1 \<le> 256")
    case True
    obtain run s2 where cr: "collect_run y start_x end_x s = (run, s2)"
      by (cases "collect_run y start_x end_x s")
    from collect_run_pass [where s = s and y = y and start_x = start_x and end_x = end_x] cr
    have p2: "pass s [] s2" and c2: "\<forall>x\<in>set [start_x .. end_x]. \<not> cell_changed s2 y x"
      by simp_all
    from assms nv True cr have s': "s' = (tui_write Run_chars run s2)\<lparr>cursor_last_col := end_x + 1\<rparr>"
      unfolding output_buffered_run_def Let_def by (auto split: if_splits)
    have p3: "pass s2 [(Run_chars, run)] s'"
      unfolding s' by (rule cursor_col_update_pass [OF tui_write_pass])
    from pass_trans [OF p2 p3] have p: "pass s [(Run_chars, run)] s'" by simp
    from p3 c2 have "\<forall>x\<in>set [start_x .. end_x]. \<not> cell_changed s' y x"
      by (rule pass_keeps_agreement_on)
    with p show ?thesis
      by (intro exI [of _ "[(Run_chars, run)]"]) (simp add: runs_only_def)
  next
    case False
    from putchar_run_pass [of s y start_x end_x] obtain d
      where p: "pass s d (putchar_run y start_x end_x s)"
        and l: "length d = length [start_x .. end_x]" and k: "\<forall>e\<in>set d. fst e = Run_chars"
        and c: "\<forall>x\<in>set [start_x .. end_x]. \<not> cell_changed (putchar_run y start_x end_x s) y x"
      by blast
    from assms nv False have s': "s' = (putchar_run y start_x end_x s)\<lparr>cursor_last_col := end_x + 1\<rparr>"
      unfolding output_buffered_run_def Let_def by (auto split: if_splits)
    from False l have "d \<noteq> []" by auto
    with k have "runs_only d" by (simp add: runs_only_def)
    moreover from p s' have "pass s d s'" by (simp add: cursor_col_update_pass)
    moreover from c s' have "\<forall>x. start_x \<le> x \<and> x \<le> end_x \<longrightarrow> \<not> cell_changed s' y x"
      by (simp add: cell_changed_def)
    ultimately show ?thesis by blast
  qed
qed

text \<open>
  A stretch of \<open>write_log\<close> in which cursor sequences and attribute sequences are each
  no more than the run writes.
\<close>

definition run_bounded :: "(origin \<times> string) list \<Rightarrow> bool" where
  "run_bounded d \<longleftrightarrow>
     count_origin Cursor_seq d \<le> count_origin Run_chars d
     \<and> count_origin Attr_seq d \<le> count_origin Run_chars d"

lemma run_bounded_Nil: "run_bounded []"
  by (simp add: run_bounded_def)

lemma run_bounded_append: "run_bounded d \<Longrightarrow> run_bounded d' \<Longrightarrow> run_bounded (d @ d')"
  by (simp add: run_bounded_def)

definition scan_step :: "tui_state \<Rightarrow> tui_state \<Rightarrow> bool" where
  "scan_step s s' \<longleftrightarrow> (\<exists>d. pass s d s' \<and> run_bounded d)"

lemma scan_step_refl: "scan_step s s"
  unfolding scan_step_def using pass_refl run_bounded_Nil by blast

lemma scan_step_trans: "scan_step s s' \<Longrightarrow> scan_step s' s'' \<Longrightarrow> scan_step s s''"
  unfolding scan_step_def using pass_trans run_bounded_append by blast

lemma scan_step_keeps_agreement:
  "scan_step s s' \<Longrightarrow> \<not> cell_changed s y x \<Longrightarrow> \<not> cell_changed s' y x"
  unfolding scan_step_def using pass_keeps_agreement by blast

lemma scan_step_fields:
  assumes "scan_step s s'"
  shows "tui_lines s' = tui_lines s" "tui_cols s' = tui_cols s"
    "buf_rows s' = buf_rows s" "buf_cols s' = buf_cols s"
    "bufs_allocated s' = bufs_allocated s"
    "screen_buf s' = screen_buf s" "attr_buf s' = attr_buf s"
    "dirty_region s' = dirty_region s" "use_writev s' = use_writev s"
  using assms unfolding scan_step_def pass_def by auto

lemma scan_step_cell_ok: "scan_step s s' \<Longrightarrow> cell_ok s' y x = cell_ok s y x"
  by (simp add: cell_ok_def scan_step_fields)

text \<open>
  One run: at most one cursor sequence, at most one attribute sequence, at least one
  run write, and the cells of the run agree afterwards.
\<close>

lemma emit_run_step:
  assumes "emit_run y start_x end_x curr_attr s = Some s'"
  shows "scan_step s s' \<and> (\<forall>x. start_x \<le> x \<and> x \<le> end_x \<longrightarrow> \<not> cell_changed s' y x)"
proof -
  let ?s0 = "tui_move_cached y start_x s"
  from assms obtain s1 s2 where a: "apply_attributes curr_attr ?s0 = Some s1"
    and o: "output_buffered_run y start_x end_x s1 = Some s2"
    and s': "s' = s2\<lparr>cursor_last_col := end_x + 1\<rparr>"
    unfolding emit_run_def by (auto split: option.splits)
  from tui_move_cached_pass [of s y start_x] obtain dm
    where pm: "pass s dm ?s0" and dm: "dm = [] \<or> (\<exists>bytes. dm = [(Cursor_seq, bytes)])" by blast
  from apply_attributes_pass [OF a] obtain da
    where pa: "pass ?s0 da s1" and da: "da = [] \<or> (\<exists>bytes. da = [(Attr_seq, bytes)])" by blast
  have col: "cursor_last_col s1 = start_x"
    using apply_attributes_col [OF a] by (simp add: tui_move_cached_col)
  from output_buffered_run_pass [OF o col] obtain dr
    where pr: "pass s1 dr s2" and dr: "runs_only dr"
      and c: "\<forall>x. start_x \<le> x \<and> x \<le> end_x \<longrightarrow> \<not> cell_changed s2 y x" by blast
  from pass_trans [OF pass_trans [OF pm pa] pr] s'
  have p: "pass s ((dm @ da) @ dr) s'" by (simp add: cursor_col_update_pass)
  from dm da runs_only_counts [OF dr] have "run_bounded ((dm @ da) @ dr)"
    by (auto simp: run_bounded_def)
  with p have "scan_step s s'" unfolding scan_step_def by blast
  moreover from c s' have "\<forall>x. start_x \<le> x \<and> x \<le> end_x \<longrightarrow> \<not> cell_changed s' y x"
    by (simp add: cell_changed_def)
  ultimately show ?thesis by simp
qed

subsection \<open>The scan loops\<close>

text \<open>
  A loop whose every iteration is a scan step is a scan step, and what one iteration
  establishes about a cell of the snapshot still holds at the end.
\<close>

lemma for_each_scan_step:
  fixes body :: "'a \<Rightarrow> bool \<times> tui_state \<Rightarrow> (bool \<times> tui_state) option"
  assumes "\<And>x a1 a2. x \<in> set xs \<Longrightarrow> body x a1 = Some a2 \<Longrightarrow> scan_step (snd a1) (snd a2)"
    and "for_each body xs a = Some a'"
  shows "scan_step (snd a) (snd a')"
  using assms
proof (induction xs arbitrary: a)
  case Nil
  then show ?case by (simp add: scan_step_refl)
next
  case (Cons z zs)
  from Cons.prems(2) obtain a1 where b: "body z a = Some a1" and r: "for_each body zs a1 = Some a'"
    by (auto split: option.splits)
  have st: "scan_step (snd a1) (snd a2)" if "x \<in> set zs" "body x a1 = Some a2" for x a1 a2
    using Cons.prems(1) [of x a1 a2] that by simp
  from Cons.prems(1) [OF _ b] have "scan_step (snd a) (snd a1)" by simp
  moreover from st r have "scan_step (snd a1) (snd a')" by (rule Cons.IH)
  ultimately show ?case by (rule scan_step_trans)
qed

lemma for_each_scan_reaches:
  fixes body :: "'a \<Rightarrow> bool \<times> tui_state \<Rightarrow> (bool \<times> tui_state) option"
  assumes step: "\<And>x a1 a2. x \<in> set xs \<Longrightarrow> body x a1 = Some a2 \<Longrightarrow> scan_step (snd a1) (snd a2)"
    and mem: "z \<in> set xs"
    and hit: "\<And>a1 a2. scan_step (snd a) (snd a1) \<Longrightarrow> body z a1 = Some a2
                \<Longrightarrow> \<not> cell_changed (snd a2) y x"
    and run: "for_each body xs a = Some a'"
  shows "\<not> cell_changed (snd a') y x"
  using assms
proof (induction xs arbitrary: a)
  case Nil
  then show ?case by simp
next
  case (Cons w ws)
  from Cons.prems(4) obtain a1 where b: "body w a = Some a1" and r: "for_each body ws a1 = Some a'"
    by (auto split: option.splits)
  have st: "scan_step (snd a1) (snd a2)" if "x \<in> set ws" "body x a1 = Some a2" for x a1 a2
    using Cons.prems(1) [of x a1 a2] that by simp
  from Cons.prems(1) [OF _ b] have s1: "scan_step (snd a) (snd a1)" by simp
  show ?case
  proof (cases "z = w")
    case True
    from Cons.prems(3) [OF scan_step_refl] b True have "\<not> cell_changed (snd a1) y x" by simp
    moreover from st r have "scan_step (snd a1) (snd a')" by (rule for_each_scan_step)
    ultimately show ?thesis by (simp add: scan_step_keeps_agreement)
  next
    case False
    with Cons.prems(2) have m: "z \<in> set ws" by simp
    have h: "\<not> cell_changed (snd a3) y x"
      if "scan_step (snd a1) (snd a2)" "body z a2 = Some a3" for a2 a3
      using Cons.prems(3) [of a2 a3] scan_step_trans [OF s1 that(1)] that(2) by simp
    from st m h r show ?thesis by (rule Cons.IH)
  qed
qed

text \<open>One row of a tile: every cell from \<open>x\<close> up to the end column agrees afterwards.\<close>

lemma scan_tile_row_step:
  "scan_tile_row y end_col scan_max_col x a = Some a'
   \<Longrightarrow> scan_step (snd a) (snd a')
       \<and> (\<forall>x'. x \<le> x' \<and> x' < end_col \<longrightarrow> \<not> cell_changed (snd a') y x')"
proof (induction y end_col scan_max_col x a arbitrary: a' rule: scan_tile_row.induct)
  case (1 y end_col scan_max_col x changed s)
  note unfold = scan_tile_row.simps [of y end_col scan_max_col x changed s]
  show ?case
  proof (cases "x < end_col")
    case False
    with "1.prems" show ?thesis unfolding unfold by (auto intro: scan_step_refl)
  next
    case lt: True
    with "1.prems" have ok: "\<not> \<not> cell_ok s y x" unfolding unfold by (auto split: if_splits)
    show ?thesis
    proof (cases "cell_changed s y x")
      case True
      from "1.prems" lt ok True obtain end_x s1
        where e: "tile_run_end s y end_col scan_max_col (attr_buf s y x) x = Some end_x"
          and r: "emit_run y x end_x (attr_buf s y x) s = Some s1"
          and rest: "scan_tile_row y end_col scan_max_col (end_x + 1) (True, s1) = Some a'"
        unfolding unfold by (auto split: option.splits)
      from "1.IH"(1) [OF lt ok True e r rest]
      have st: "scan_step s1 (snd a')"
        and cv: "\<forall>x'. end_x + 1 \<le> x' \<and> x' < end_col \<longrightarrow> \<not> cell_changed (snd a') y x'"
        by simp_all
      from emit_run_step [OF r] have s1: "scan_step s s1"
        and c1: "\<forall>x'. x \<le> x' \<and> x' \<le> end_x \<longrightarrow> \<not> cell_changed s1 y x'" by simp_all
      have "\<not> cell_changed (snd a') y x'" if "x \<le> x'" "x' < end_col" for x'
      proof (cases "x' \<le> end_x")
        case True
        with c1 that have "\<not> cell_changed s1 y x'" by simp
        with st show ?thesis by (rule scan_step_keeps_agreement)
      next
        case False
        with cv that show ?thesis by simp
      qed
      with scan_step_trans [OF s1 st] show ?thesis by simp
    next
      case False
      from "1.prems" lt ok False
      have rest: "scan_tile_row y end_col scan_max_col (x + 1) (changed, s) = Some a'"
        unfolding unfold by simp
      from "1.IH"(2) [OF lt ok False rest]
      have st: "scan_step s (snd a')"
        and cv: "\<forall>x'. x + 1 \<le> x' \<and> x' < end_col \<longrightarrow> \<not> cell_changed (snd a') y x'"
        by simp_all
      have "\<not> cell_changed (snd a') y x'" if "x \<le> x'" "x' < end_col" for x'
      proof (cases "x' = x")
        case True
        with False st show ?thesis by (simp add: scan_step_keeps_agreement)
      next
        case False
        with cv that show ?thesis by simp
      qed
      with st show ?thesis by simp
    qed
  qed
qed

text \<open>One row of the linear scan.\<close>

lemma scan_linear_row_step:
  "scan_linear_row y scan_max_col x a = Some a'
   \<Longrightarrow> scan_step (snd a) (snd a')
       \<and> (\<forall>x'. x \<le> x' \<and> x' \<le> scan_max_col \<and> x' < buf_cols (snd a) \<and> x' < tui_cols (snd a)
                \<longrightarrow> \<not> cell_changed (snd a') y x')"
proof (induction y scan_max_col x a arbitrary: a' rule: scan_linear_row.induct)
  case (1 y scan_max_col x changed s)
  note unfold = scan_linear_row.simps [of y scan_max_col x changed s]
  show ?case
  proof (cases "x \<le> scan_max_col \<and> x < buf_cols s \<and> x < tui_cols s")
    case False
    with "1.prems" have "a' = (changed, s)" unfolding unfold by (auto split: if_splits)
    with False show ?thesis by (auto intro: scan_step_refl)
  next
    case lt: True
    with "1.prems" have ok: "\<not> \<not> cell_ok s y x" unfolding unfold by (auto split: if_splits)
    show ?thesis
    proof (cases "cell_changed s y x")
      case True
      from "1.prems" lt ok True obtain e1 end_x s1
        where e: "linear_run_extend s y (attr_buf s y x) x 0 = Some e1"
          and t: "linear_run_trim s y x e1 = Some end_x"
          and r: "emit_run y x end_x (attr_buf s y x) s = Some s1"
          and rest: "scan_linear_row y scan_max_col (end_x + 1) (True, s1) = Some a'"
        unfolding unfold by (auto split: option.splits)
      from emit_run_step [OF r] have s1: "scan_step s s1"
        and c1: "\<forall>x'. x \<le> x' \<and> x' \<le> end_x \<longrightarrow> \<not> cell_changed s1 y x'" by simp_all
      from "1.IH"(1) [OF lt ok True e t r rest] scan_step_fields [OF s1]
      have st: "scan_step s1 (snd a')"
        and cv: "\<forall>x'. end_x + 1 \<le> x' \<and> x' \<le> scan_max_col \<and> x' < buf_cols s \<and> x' < tui_cols s
                   \<longrightarrow> \<not> cell_changed (snd a') y x'"
        by simp_all
      have "\<not> cell_changed (snd a') y x'"
        if "x \<le> x'" "x' \<le> scan_max_col" "x' < buf_cols s" "x' < tui_cols s" for x'
      proof (cases "x' \<le> end_x")
        case True
        with c1 that have "\<not> cell_changed s1 y x'" by simp
        with st show ?thesis by (rule scan_step_keeps_agreement)
      next
        case False
        with cv that show ?thesis by simp
      qed
      with scan_step_trans [OF s1 st] show ?thesis by simp
    next
      case False
      from "1.prems" lt ok False
      have rest: "scan_linear_row y scan_max_col (x + 1) (changed, s) = Some a'"
        unfolding unfold by simp
      from "1.IH"(2) [OF lt ok False rest]
      have st: "scan_step s (snd a')"
        and cv: "\<forall>x'. x + 1 \<le> x' \<and> x' \<le> scan_max_col \<and> x' < buf_cols s \<and> x' < tui_cols s
                   \<longrightarrow> \<not> cell_changed (snd a') y x'"
        by simp_all
      have "\<not> cell_changed (snd a') y x'"
        if "x \<le> x'" "x' \<le> scan_max_col" "x' < buf_cols s" "x' < tui_cols s" for x'
      proof (cases "x' = x")
        case True
        with False st show ?thesis by (simp add: scan_step_keeps_agreement)
      next
        case False
        with cv that show ?thesis by simp
      qed
      with st show ?thesis by simp
    qed
  qed
qed

subsection \<open>Tiles, tile lists and the linear scan\<close>

text \<open>The clamps of \<open>scan_l1_tile\<close> written with \<open>min\<close> and \<open>max\<close>.\<close>

lemma scan_l1_tile_clamped:
  "scan_l1_tile tile_row tile_col p_buf_rows p_buf_cols
       scan_min_row scan_max_row scan_min_col scan_max_col a =
     for_each
       (\<lambda>y. scan_tile_row y
               (min (min (min ((tile_col + 1) * 8) p_buf_cols) (tui_cols (snd a))) (scan_max_col + 1))
               scan_max_col (max (tile_col * 8) scan_min_col))
       [max (tile_row * 8) scan_min_row ..
        min (min (min ((tile_row + 1) * 8) p_buf_rows) (tui_lines (snd a))) (scan_max_row + 1) - 1] a"
proof -
  have m: "(if q < p then q else p) = min p q" for p q :: int by (simp add: min_def)
  have x: "(if p < q then q else p) = max p q" for p q :: int by (simp add: max_def)
  show ?thesis
    unfolding scan_l1_tile_def Let_def TILE_L1_SIZE_def
    by (simp only: m x)
qed

lemma scan_l1_tile_step:
  assumes "scan_l1_tile tile_row tile_col p_buf_rows p_buf_cols
             scan_min_row scan_max_row scan_min_col scan_max_col a = Some a'"
  shows "scan_step (snd a) (snd a')"
  using assms unfolding scan_l1_tile_clamped
  by (rule for_each_scan_step [rotated]) (simp add: scan_tile_row_step)

lemma scan_l1_tile_covers:
  assumes run: "scan_l1_tile (y div 8) (x div 8) (buf_rows (snd a)) (buf_cols (snd a))
                  scan_min_row scan_max_row scan_min_col scan_max_col a = Some a'"
    and rect: "scan_min_row \<le> y" "y \<le> scan_max_row" "scan_min_col \<le> x" "x \<le> scan_max_col"
    and cell: "cell_ok (snd a) y x" "y < tui_lines (snd a)" "x < tui_cols (snd a)"
  shows "\<not> cell_changed (snd a') y x"
proof -
  let ?ec = "min (min (min ((x div 8 + 1) * 8) (buf_cols (snd a))) (tui_cols (snd a)))
               (scan_max_col + 1)"
  let ?sc = "max (x div 8 * 8) scan_min_col"
  let ?rows = "[max (y div 8 * 8) scan_min_row ..
        min (min (min ((y div 8 + 1) * 8) (buf_rows (snd a))) (tui_lines (snd a)))
          (scan_max_row + 1) - 1]"
  from run have r: "for_each (\<lambda>y. scan_tile_row y ?ec scan_max_col ?sc) ?rows a = Some a'"
    unfolding scan_l1_tile_clamped .
  from rect cell have my: "y \<in> set ?rows" by (simp add: cell_ok_def) linarith
  from rect cell have mx: "?sc \<le> x \<and> x < ?ec" by (simp add: cell_ok_def) linarith
  have st: "scan_step (snd a1) (snd a2)"
    if "z \<in> set ?rows" "scan_tile_row z ?ec scan_max_col ?sc a1 = Some a2" for z a1 a2
    using scan_tile_row_step [OF that(2)] by simp
  have hit: "\<not> cell_changed (snd a2) y x"
    if "scan_step (snd a) (snd a1)" "scan_tile_row y ?ec scan_max_col ?sc a1 = Some a2" for a1 a2
    using scan_tile_row_step [OF that(2)] mx by simp
  from st my hit r show ?thesis by (rule for_each_scan_reaches)
qed

lemma scan_tile_in_step:
  "scan_tile_in b tile_row tile_col a = Some a' \<Longrightarrow> scan_step (snd a) (snd a')"
  unfolding scan_tile_in_def by (auto split: prod.splits dest: scan_l1_tile_step)

lemma scan_tile_in_covers:
  assumes "scan_tile_in (scan_min_row, scan_max_row, scan_min_col, scan_max_col)
             (y div 8) (x div 8) a1 = Some a2"
    and "scan_step s (snd a1)"
    and "scan_min_row \<le> y" "y \<le> scan_max_row" "scan_min_col \<le> x" "x \<le> scan_max_col"
    and "cell_ok s y x" "y < tui_lines s" "x < tui_cols s"
  shows "\<not> cell_changed (snd a2) y x"
  using assms scan_step_fields [OF assms(2)] scan_step_cell_ok [OF assms(2)]
  by (intro scan_l1_tile_covers [of y x a1 scan_min_row scan_max_row scan_min_col scan_max_col])
     (simp_all add: scan_tile_in_def)

text \<open>A cell of the scan rectangle lies in a tile, and in a block, that meets the rectangle.\<close>

lemma meets_scan_cell:
  assumes "scan_min_row \<le> y" "y \<le> scan_max_row" "scan_min_col \<le> x" "x \<le> scan_max_col"
    and "0 < edge"
  shows "meets_scan edge (y div edge) (x div edge)
           (scan_min_row, scan_max_row, scan_min_col, scan_max_col)"
proof -
  have b: "p div edge * edge \<le> p \<and> p < p div edge * edge + edge" for p
  proof -
    have "p = p div edge * edge + p mod edge" by simp
    moreover from assms(5) have "0 \<le> p mod edge" "p mod edge < edge" by simp_all
    ultimately show ?thesis by linarith
  qed
  from b [of y] b [of x] assms show ?thesis by (simp add: meets_scan_def)
qed

lemma scan_sparse_step:
  assumes "scan_sparse b tiles a = Some a'"
  shows "scan_step (snd a) (snd a')"
  using assms unfolding scan_sparse_def
  by (rule for_each_scan_step [rotated])
     (auto split: if_splits dest: scan_tile_in_step intro: scan_step_refl)

lemma scan_sparse_covers:
  assumes run: "scan_sparse (scan_min_row, scan_max_row, scan_min_col, scan_max_col) tiles a
                  = Some a'"
    and tile: "t \<in> set tiles" "uint (fst t) = y div 8" "uint (snd t) = x div 8"
    and rect: "scan_min_row \<le> y" "y \<le> scan_max_row" "scan_min_col \<le> x" "x \<le> scan_max_col"
    and cell: "cell_ok (snd a) y x" "y < tui_lines (snd a)" "x < tui_cols (snd a)"
  shows "\<not> cell_changed (snd a') y x"
proof -
  let ?b = "(scan_min_row, scan_max_row, scan_min_col, scan_max_col)"
  let ?body = "\<lambda>t acc. if meets_scan TILE_L1_SIZE (uint (fst t)) (uint (snd t)) ?b
                  then scan_tile_in ?b (uint (fst t)) (uint (snd t)) acc
                  else Some acc"
  from run have r: "for_each ?body tiles a = Some a'" unfolding scan_sparse_def .
  have st: "scan_step (snd a1) (snd a2)" if "z \<in> set tiles" "?body z a1 = Some a2" for z a1 a2
    using that(2) by (auto split: if_splits dest: scan_tile_in_step intro: scan_step_refl)
  have m: "meets_scan TILE_L1_SIZE (y div 8) (x div 8) ?b"
    using meets_scan_cell [OF rect, of 8] by (simp add: TILE_L1_SIZE_def)
  have hit: "\<not> cell_changed (snd a2) y x"
    if "scan_step (snd a) (snd a1)" "?body t a1 = Some a2" for a1 a2
  proof -
    from that(2) m tile have "scan_tile_in ?b (y div 8) (x div 8) a1 = Some a2" by simp
    from this that(1) rect cell show ?thesis by (rule scan_tile_in_covers)
  qed
  from st tile(1) hit r show ?thesis by (rule for_each_scan_reaches)
qed

lemma scan_hier_sparse_step:
  assumes "scan_hier_sparse b blocks tiles a = Some a'"
  shows "scan_step (snd a) (snd a')"
  using assms unfolding scan_hier_sparse_def
  apply (rule for_each_scan_step [rotated])
  apply (simp split: if_splits add: scan_step_refl)
  apply (erule for_each_scan_step [rotated])
  apply (auto split: if_splits dest: scan_tile_in_step intro: scan_step_refl)
  done

lemma scan_hier_sparse_covers:
  assumes run: "scan_hier_sparse (scan_min_row, scan_max_row, scan_min_col, scan_max_col)
                  blocks tiles a = Some a'"
    and block: "blk \<in> set blocks" "uint (fst blk) = y div 32" "uint (snd blk) = x div 32"
    and tile: "t \<in> set tiles" "uint (fst t) = y div 8" "uint (snd t) = x div 8"
    and rect: "scan_min_row \<le> y" "y \<le> scan_max_row" "scan_min_col \<le> x" "x \<le> scan_max_col"
    and cell: "cell_ok (snd a) y x" "y < tui_lines (snd a)" "x < tui_cols (snd a)"
  shows "\<not> cell_changed (snd a') y x"
proof -
  let ?b = "(scan_min_row, scan_max_row, scan_min_col, scan_max_col)"
  let ?inner = "\<lambda>blk t acc'.
                 if uint (fst t) sdiv (TILE_L2_SIZE sdiv TILE_L1_SIZE) = uint (fst blk)
                    \<and> uint (snd t) sdiv (TILE_L2_SIZE sdiv TILE_L1_SIZE) = uint (snd blk)
                    \<and> meets_scan TILE_L1_SIZE (uint (fst t)) (uint (snd t)) ?b
                 then scan_tile_in ?b (uint (fst t)) (uint (snd t)) acc'
                 else Some acc'"
  let ?outer = "\<lambda>blk acc.
          if meets_scan TILE_L2_SIZE (uint (fst blk)) (uint (snd blk)) ?b
          then for_each (?inner blk) tiles acc else Some acc"
  from run have r: "for_each ?outer blocks a = Some a'" unfolding scan_hier_sparse_def .
  have ist: "scan_step (snd a1) (snd a2)" if "?inner z w a1 = Some a2" for z w a1 a2
    using that by (auto split: if_splits dest: scan_tile_in_step intro: scan_step_refl)
  have ost: "scan_step (snd a1) (snd a2)" if "z \<in> set blocks" "?outer z a1 = Some a2" for z a1 a2
  proof (cases "meets_scan TILE_L2_SIZE (uint (fst z)) (uint (snd z)) ?b")
    case True
    with that(2) have "for_each (?inner z) tiles a1 = Some a2" by simp
    with ist show ?thesis by (rule for_each_scan_step)
  next
    case False
    with that(2) show ?thesis by (simp add: scan_step_refl)
  qed
  have m1: "meets_scan TILE_L1_SIZE (y div 8) (x div 8) ?b"
    using meets_scan_cell [OF rect, of 8] by (simp add: TILE_L1_SIZE_def)
  have m2: "meets_scan TILE_L2_SIZE (y div 32) (x div 32) ?b"
    using meets_scan_cell [OF rect, of 32] by (simp add: TILE_L2_SIZE_def)
  from cell(1) have nn: "0 \<le> y" "0 \<le> x" by (simp_all add: cell_ok_def)
  have q: "(p div 8) sdiv (TILE_L2_SIZE sdiv TILE_L1_SIZE) = p div 32" if "0 \<le> p" for p :: int
  proof -
    from that have "0 \<le> p div 8" by simp
    then have "(p div 8) sdiv 4 = p div 8 div 4"
      by (simp add: signed_divide_int_def sgn_if)
    also have "\<dots> = p div 32" by (simp add: zdiv_zmult2_eq [symmetric])
    finally show ?thesis by (simp add: TILE_L2_SIZE_def TILE_L1_SIZE_def signed_divide_int_def)
  qed
  have hit: "\<not> cell_changed (snd a2) y x"
    if reach: "scan_step (snd a) (snd a1)" and "?outer blk a1 = Some a2" for a1 a2
  proof -
    from that(2) m2 block have ir: "for_each (?inner blk) tiles a1 = Some a2" by simp
    have ih: "\<not> cell_changed (snd a4) y x"
      if "scan_step (snd a1) (snd a3)" "?inner blk t a3 = Some a4" for a3 a4
    proof -
      from that(2) m1 tile block q [OF nn(1)] q [OF nn(2)]
      have "scan_tile_in ?b (y div 8) (x div 8) a3 = Some a4" by simp
      moreover from reach that(1) have "scan_step (snd a) (snd a3)" by (rule scan_step_trans)
      ultimately show ?thesis using rect cell by (rule scan_tile_in_covers)
    qed
    from ist tile(1) ih ir show ?thesis by (rule for_each_scan_reaches)
  qed
  from ost block(1) hit r show ?thesis by (rule for_each_scan_reaches)
qed

text \<open>The dense hierarchical scan and the linear scan are scan steps as well.\<close>

lemma scan_hier_dense_step:
  assumes "scan_hier_dense b a = Some a'"
  shows "scan_step (snd a) (snd a')"
  using assms unfolding scan_hier_dense_def Let_def
  apply (cases b)
  apply (simp only: prod.case)
  apply (erule for_each_scan_step [rotated])
  apply (erule for_each_scan_step [rotated])
  apply (simp split: option.splits bool.splits add: scan_step_refl)
  apply (erule for_each_scan_step [rotated])
  apply (erule for_each_scan_step [rotated])
  apply (auto split: option.splits bool.splits dest: scan_tile_in_step intro: scan_step_refl)
  done

lemma row_has_changes_clean:
  assumes "row_has_changes s y start_col end_col = Some False"
    and "y < buf_rows s" "start_col \<le> x" "x \<le> end_col" "end_col < buf_cols s"
  shows "\<not> cell_changed s y x"
  using assms by (auto simp: row_has_changes_def list_ex_iff split: if_splits)

lemma scan_linear_step:
  assumes "scan_linear scan_min_row scan_max_row scan_min_col scan_max_col a = Some a'"
  shows "scan_step (snd a) (snd a')"
  using assms unfolding scan_linear_def
  apply (rule for_each_scan_step [rotated])
  apply (auto split: prod.splits option.splits bool.splits if_splits
              dest: scan_linear_row_step intro: scan_step_refl)
  done

lemma scan_linear_covers:
  assumes run: "scan_linear scan_min_row scan_max_row scan_min_col scan_max_col a = Some a'"
    and rect: "scan_min_row \<le> y" "y \<le> scan_max_row" "scan_min_col \<le> x" "x \<le> scan_max_col"
    and cell: "cell_ok (snd a) y x" "y < tui_lines (snd a)" "x < tui_cols (snd a)"
  shows "\<not> cell_changed (snd a') y x"
proof -
  let ?body = "\<lambda>y (changed, s).
          (case row_has_changes s y scan_min_col
                  (if scan_max_col < buf_cols s then scan_max_col else buf_cols s - 1) of
             None \<Rightarrow> None
           | Some False \<Rightarrow> Some (changed, s)
           | Some True \<Rightarrow> scan_linear_row y scan_max_col scan_min_col (changed, s))"
  from run have r: "for_each ?body [scan_min_row .. scan_max_row] a = Some a'"
    unfolding scan_linear_def .
  have st: "scan_step (snd a1) (snd a2)"
    if "z \<in> set [scan_min_row .. scan_max_row]" "?body z a1 = Some a2" for z a1 a2
    using that(2)
    by (auto split: prod.splits option.splits bool.splits if_splits
             dest: scan_linear_row_step intro: scan_step_refl)
  from rect have my: "y \<in> set [scan_min_row .. scan_max_row]" by simp
  have hit: "\<not> cell_changed (snd a2) y x"
    if reach: "scan_step (snd a) (snd a1)" and b: "?body y a1 = Some a2" for a1 a2
  proof -
    obtain c1 s1 where a1: "a1 = (c1, s1)" by (cases a1)
    from reach a1 cell have dims: "x < buf_cols s1" "x < tui_cols s1" "y < buf_rows s1"
      by (simp_all add: scan_step_fields cell_ok_def)
    let ?e = "if scan_max_col < buf_cols s1 then scan_max_col else buf_cols s1 - 1"
    from rect dims have e: "x \<le> ?e" "?e < buf_cols s1" by auto
    show ?thesis
    proof (cases "row_has_changes s1 y scan_min_col ?e")
      case None
      with b a1 show ?thesis by simp
    next
      case (Some found)
      show ?thesis
      proof (cases found)
        case False
        with Some b a1 have "a2 = a1" by simp
        moreover from Some False have "row_has_changes s1 y scan_min_col ?e = Some False" by simp
        from this dims(3) rect(3) e have "\<not> cell_changed s1 y x" by (rule row_has_changes_clean)
        ultimately show ?thesis using a1 by simp
      next
        case True
        with Some b a1 have "scan_linear_row y scan_max_col scan_min_col a1 = Some a2" by simp
        from scan_linear_row_step [OF this] rect dims a1 show ?thesis by simp
      qed
    qed
  qed
  from st my hit r show ?thesis by (rule for_each_scan_reaches)
qed

subsection \<open>The scan that a refresh selects\<close>

lemma refresh_scan_step:
  assumes "refresh_scan use_sparse_scanning b s = Some a'"
  shows "scan_step s (snd a')"
  using assms unfolding refresh_scan_def Let_def
  by (auto split: if_splits prod.splits
           dest: scan_sparse_step scan_hier_sparse_step scan_hier_dense_step scan_linear_step)

text \<open>
  The cells that the tracker has on record: the covering level-1 tile is on the sparse
  tile list and the covering level-2 block on the sparse block list; or, without the
  hierarchy, nothing is listed and the scan is linear.
\<close>

definition cell_tracked :: "dirty_region_t \<Rightarrow> int \<Rightarrow> int \<Rightarrow> bool" where
  "cell_tracked d y x \<longleftrightarrow>
     use_sparse_tracking d
       \<and> (\<exists>t\<in>set (dirty_l1_tiles d).
             uint (fst t) = y div TILE_L1_SIZE \<and> uint (snd t) = x div TILE_L1_SIZE)
       \<and> (\<exists>blk\<in>set (dirty_l2_blocks d).
             uint (fst blk) = y div TILE_L2_SIZE \<and> uint (snd blk) = x div TILE_L2_SIZE)
     \<or> \<not> use_hierarchical_tiles d \<and> dirty_l1_tiles d = []"

lemma refresh_scan_covers:
  assumes run: "refresh_scan use_sparse_scanning
                  (scan_min_row, scan_max_row, scan_min_col, scan_max_col) s = Some a'"
    and sparse: "use_sparse_scanning \<longrightarrow> dirty_l1_tiles (dirty_region s) \<noteq> []"
    and tracked: "cell_tracked (dirty_region s) y x"
    and rect: "scan_min_row \<le> y" "y \<le> scan_max_row" "scan_min_col \<le> x" "x \<le> scan_max_col"
    and cell: "cell_ok s y x" "y < tui_lines s" "x < tui_cols s"
  shows "\<not> cell_changed (snd a') y x"
proof -
  let ?b = "(scan_min_row, scan_max_row, scan_min_col, scan_max_col)"
  let ?d = "dirty_region s"
  from cell have cell': "cell_ok (snd (False, s)) y x" "y < tui_lines (snd (False, s))"
    "x < tui_cols (snd (False, s))" by simp_all
  show ?thesis
  proof (cases "\<not> use_hierarchical_tiles ?d \<and> dirty_l1_tiles ?d = []")
    case True
    with sparse run
    have "scan_linear scan_min_row scan_max_row scan_min_col scan_max_col (False, s) = Some a'"
      by (simp add: refresh_scan_def Let_def)
    from this rect cell' show ?thesis by (rule scan_linear_covers)
  next
    case False
    with tracked obtain t blk where st: "use_sparse_tracking ?d"
      and t: "t \<in> set (dirty_l1_tiles ?d)" "uint (fst t) = y div 8" "uint (snd t) = x div 8"
      and blk: "blk \<in> set (dirty_l2_blocks ?d)" "uint (fst blk) = y div 32"
        "uint (snd blk) = x div 32"
      unfolding cell_tracked_def TILE_L1_SIZE_def TILE_L2_SIZE_def by blast
    show ?thesis
    proof (cases use_sparse_scanning)
      case True
      with run have "scan_sparse ?b (dirty_l1_tiles ?d) (False, s) = Some a'"
        by (simp add: refresh_scan_def Let_def)
      from this t rect cell' show ?thesis by (rule scan_sparse_covers)
    next
      case nsp: False
      show ?thesis
      proof (cases "use_hierarchical_tiles ?d")
        case True
        with run nsp st
        have "scan_hier_sparse ?b (dirty_l2_blocks ?d) (dirty_l1_tiles ?d) (False, s) = Some a'"
          by (simp add: refresh_scan_def Let_def)
        from this blk t rect cell' show ?thesis by (rule scan_hier_sparse_covers)
      next
        case False
        with run nsp
        have "scan_linear scan_min_row scan_max_row scan_min_col scan_max_col (False, s) = Some a'"
          by (simp add: refresh_scan_def Let_def)
        from this rect cell' show ?thesis by (rule scan_linear_covers)
      qed
    qed
  qed
qed

subsection \<open>Around the scan\<close>

lemmas tui_write_fields = output_only_fields [OF tui_write_output_only]
lemmas tui_force_flush_fields = output_only_fields [OF tui_force_flush_output_only]
lemmas tui_set_auto_flush_fields = output_only_fields [OF tui_set_auto_flush_output_only]

text \<open>\<open>optimize_dirty_region\<close> rewrites the bounding rectangle and \<open>has_changes\<close> only.\<close>

lemma optimize_dirty_region_keeps:
  assumes "optimize_dirty_region s = Some s2"
  shows "\<exists>d2. s2 = s\<lparr>dirty_region := d2\<rparr>
            \<and> dirty_l1_tiles d2 = dirty_l1_tiles (dirty_region s)
            \<and> dirty_l2_blocks d2 = dirty_l2_blocks (dirty_region s)
            \<and> use_hierarchical_tiles d2 = use_hierarchical_tiles (dirty_region s)
            \<and> use_sparse_tracking d2 = use_sparse_tracking (dirty_region s)"
proof (cases "has_changes (dirty_region s)")
  case False
  with assms have "s2 = s\<lparr>dirty_region := dirty_region s\<rparr>"
    by (simp add: optimize_dirty_region_def Let_def)
  then show ?thesis by blast
next
  case True
  with assms show ?thesis
    unfolding optimize_dirty_region_def Let_def
    by (auto split: option.splits if_splits)
qed

lemma choose_scanning_keeps:
  assumes "choose_scanning b d = (u, d')"
  shows "dirty_l1_tiles d' = dirty_l1_tiles d" "dirty_l2_blocks d' = dirty_l2_blocks d"
    "use_hierarchical_tiles d' = use_hierarchical_tiles d"
    "use_sparse_tracking d' = use_sparse_tracking d"
    "u \<longrightarrow> dirty_l1_tiles d \<noteq> []"
  using assms unfolding choose_scanning_def Let_def
  by (auto split: prod.splits if_splits)

lemma scan_bounds_within:
  assumes "scan_bounds s = (scan_min_row, scan_max_row, scan_min_col, scan_max_col)"
  shows "scan_max_row < tui_lines s" "scan_max_col < tui_cols s"
  using assms unfolding scan_bounds_def Let_def by (auto split: if_splits)

lemma reset_dirty_region_clean: "\<not> has_changes (reset_dirty_region d)"
  by (simp add: reset_dirty_region_def reset_sparse_dirty_tracking_def Let_def)

text \<open>
  The end of the pass leaves the grids alone, writes at most the reset sequence, and
  leaves no dirty state.
\<close>

lemma refresh_finish_keeps:
  "bufs_allocated (refresh_finish (changed, s)) = bufs_allocated s"
  "screen_buf (refresh_finish (changed, s)) = screen_buf s"
  "attr_buf (refresh_finish (changed, s)) = attr_buf s"
  "prev_screen_buf (refresh_finish (changed, s)) = prev_screen_buf s"
  "prev_attr_buf (refresh_finish (changed, s)) = prev_attr_buf s"
  "\<not> has_changes (dirty_region (refresh_finish (changed, s)))"
  by (simp_all add: refresh_finish_def Let_def reset_attr_state_def reset_dirty_region_clean
        tui_write_fields tui_force_flush_fields tui_set_auto_flush_fields)


text \<open>The three ways through \<open>tui_refresh\<close>.\<close>

lemma tui_refresh_cases:
  assumes "tui_refresh s = Some (r, s')"
  obtains (unallocated) "\<not> bufs_allocated s" "r = - 1" "s' = s"
  | (clean) "bufs_allocated s" "\<not> has_changes (dirty_region s)" "r = 0"
      "s' = tui_set_auto_flush True (tui_set_auto_flush False s)"
  | (scanned) s2 u d a where "bufs_allocated s" "has_changes (dirty_region s)" "r = 0"
      "optimize_dirty_region (tui_set_auto_flush False s) = Some s2"
      "choose_scanning (scan_bounds s2) (dirty_region s2) = (u, d)"
      "refresh_scan u (scan_bounds s2) (s2\<lparr>dirty_region := d\<rparr>) = Some a"
      "s' = refresh_finish a"
proof (cases "bufs_allocated s")
  case False
  with assms have "r = - 1" "s' = s" by (simp_all add: tui_refresh_def)
  with False show ?thesis by (rule unallocated)
next
  case alloc: True
  show ?thesis
  proof (cases "has_changes (dirty_region s)")
    case False
    with assms alloc have "r = 0" "s' = tui_set_auto_flush True (tui_set_auto_flush False s)"
      by (simp_all add: tui_refresh_def Let_def tui_set_auto_flush_fields)
    with alloc False show ?thesis by (rule clean)
  next
    case True
    with assms alloc obtain s2 where o: "optimize_dirty_region (tui_set_auto_flush False s) = Some s2"
      by (auto simp: tui_refresh_def Let_def tui_set_auto_flush_fields split: option.splits)
    obtain u d where c: "choose_scanning (scan_bounds s2) (dirty_region s2) = (u, d)"
      by (cases "choose_scanning (scan_bounds s2) (dirty_region s2)")
    from assms alloc True o c obtain a
      where "refresh_scan u (scan_bounds s2) (s2\<lparr>dirty_region := d\<rparr>) = Some a"
        and "r = 0" "s' = refresh_finish a"
      by (auto simp: tui_refresh_def Let_def tui_set_auto_flush_fields split: option.splits)
    with alloc True o c show ?thesis by (intro scanned [of s2 u d a]) simp_all
  qed
qed

text \<open>The scan rectangle that \<open>tui_refresh\<close> works on, if it gets as far as scanning.\<close>

definition refresh_scan_region :: "tui_state \<Rightarrow> (int \<times> int \<times> int \<times> int) option" where
  "refresh_scan_region s =
     (if bufs_allocated s \<and> has_changes (dirty_region s)
      then map_option scan_bounds (optimize_dirty_region (tui_set_auto_flush False s))
      else None)"

text \<open>No byte reaches the output between \<open>s\<close> and \<open>s'\<close>.\<close>

definition silent :: "tui_state \<Rightarrow> tui_state \<Rightarrow> bool" where
  "silent s s' \<longleftrightarrow>
     terminal s' = terminal s \<and> pending_output s' = pending_output s
     \<and> write_log s' = write_log s"

lemma tui_refresh_clean_silent:
  assumes "bufs_allocated s" "\<not> has_changes (dirty_region s)"
  shows "\<exists>s'. tui_refresh s = Some (0, s') \<and> silent s s'"
  using assms
  by (simp add: tui_refresh_def Let_def tui_set_auto_flush_fields silent_def
        tui_set_auto_flush_silent)

lemma tui_refresh_leaves_clean:
  assumes "tui_refresh s = Some (0, s')"
  shows "bufs_allocated s' \<and> \<not> has_changes (dirty_region s')"
  using assms
proof (cases rule: tui_refresh_cases)
  case unallocated
  then show ?thesis by simp
next
  case clean
  then show ?thesis by (simp add: tui_set_auto_flush_fields)
next
  case (scanned s2 u d a)
  from optimize_dirty_region_keeps [OF scanned(4)] obtain d2
    where s2: "s2 = (tui_set_auto_flush False s)\<lparr>dirty_region := d2\<rparr>" by blast
  from refresh_scan_step [OF scanned(6)] have "scan_step (s2\<lparr>dirty_region := d\<rparr>) (snd a)" .
  from scan_step_fields(5) [OF this] s2 scanned(1)
  have "bufs_allocated (snd a)" by (simp add: tui_set_auto_flush_fields)
  with scanned(7) show ?thesis by (cases a) (simp add: refresh_finish_keeps)
qed

section \<open>Properties of a refresh\<close>

text \<open>
  Claim C2. A refresh on the primary window with the grids allocated and no dirty state pending
  returns 0 and emits nothing: nothing is written, nothing is added to the pending
  output, nothing reaches the terminal. In particular this is so for the refresh that
  follows a refresh that returned 0, with no drawing in between.
\<close>

theorem tui_refresh_clean_noop:
  "(bufs_allocated s \<and> \<not> has_changes (dirty_region s)
      \<longrightarrow> (\<exists>s'. tui_refresh s = Some (0, s') \<and> silent s s'))
   \<and> (tui_refresh s = Some (0, s1)
      \<longrightarrow> (\<exists>s2. tui_refresh s1 = Some (0, s2) \<and> silent s1 s2))"
  using tui_refresh_clean_silent tui_refresh_leaves_clean by blast


text \<open>
  Claim C1, as the code has it. After a refresh on the primary window that returned 0, every cell of the
  grid that lies in the scan rectangle and is on the tracker's record (its level-1 tile
  and level-2 block are on the sparse lists, or the scan is linear) has its snapshot cell
  equal to its cell of the logical grid, character and attribute.
\<close>

theorem tui_refresh_snapshot_converges:
  assumes ref: "tui_refresh s = Some (0, s')"
    and reg: "refresh_scan_region s = Some (scan_min_row, scan_max_row, scan_min_col, scan_max_col)"
    and rect: "scan_min_row \<le> y" "y \<le> scan_max_row" "scan_min_col \<le> x" "x \<le> scan_max_col"
    and cell: "cell_ok s y x"
    and tracked: "cell_tracked (dirty_region s) y x"
  shows "prev_screen_buf s' y x = screen_buf s' y x \<and> prev_attr_buf s' y x = attr_buf s' y x"
proof -
  from reg have alloc: "bufs_allocated s" and hc: "has_changes (dirty_region s)"
    by (simp_all add: refresh_scan_region_def split: if_splits)
  from ref show ?thesis
  proof (cases rule: tui_refresh_cases)
    case unallocated
    with alloc show ?thesis by simp
  next
    case clean
    with hc show ?thesis by simp
  next
    case (scanned s2 u d a)
    let ?s1 = "tui_set_auto_flush False s"
    let ?s3 = "s2\<lparr>dirty_region := d\<rparr>"
    from optimize_dirty_region_keeps [OF scanned(4)] obtain d2
      where s2: "s2 = ?s1\<lparr>dirty_region := d2\<rparr>"
        and k2: "dirty_l1_tiles d2 = dirty_l1_tiles (dirty_region ?s1)"
          "dirty_l2_blocks d2 = dirty_l2_blocks (dirty_region ?s1)"
          "use_hierarchical_tiles d2 = use_hierarchical_tiles (dirty_region ?s1)"
          "use_sparse_tracking d2 = use_sparse_tracking (dirty_region ?s1)" by blast
    from s2 have dr2: "dirty_region s2 = d2" by simp
    note ck = choose_scanning_keeps [OF scanned(5), unfolded dr2]
    from reg scanned(4) alloc hc
    have b: "scan_bounds s2 = (scan_min_row, scan_max_row, scan_min_col, scan_max_col)"
      by (simp add: refresh_scan_region_def)
    from tracked k2 ck have tr3: "cell_tracked (dirty_region ?s3) y x"
      by (simp add: cell_tracked_def tui_set_auto_flush_fields)
    from ck have sp: "u \<longrightarrow> dirty_l1_tiles (dirty_region ?s3) \<noteq> []" by simp
    from cell s2 have c3: "cell_ok ?s3 y x" by (simp add: cell_ok_def tui_set_auto_flush_fields)
    from scan_bounds_within [OF b] rect s2
    have c4: "y < tui_lines ?s3" "x < tui_cols ?s3" by simp_all
    from scanned(6) b
    have run: "refresh_scan u (scan_min_row, scan_max_row, scan_min_col, scan_max_col) ?s3 = Some a"
      by simp
    from run sp tr3 rect c3 c4 have "\<not> cell_changed (snd a) y x" by (rule refresh_scan_covers)
    with scanned(7) show ?thesis
      by (cases a) (simp add: cell_changed_def refresh_finish_keeps)
  qed
qed

section \<open>Concrete frames\<close>

text \<open>
  Four small runs of the engine, from \<open>tui_init\<close> through the drawing operations, and the
  state each of them ends in. The refresh of each state is then computed by rewriting.
\<close>

lemmas output_path_defs = tui_flush_vectored_all_def tui_flush_vectored_def tui_flush_def
  tui_write_vectored_def tui_write_def log_write_def tui_set_auto_flush_def tui_force_flush_def
  MAX_IOVECS_def WRITEV_BUFFER_SIZE_def VEC_FLUSH_THRESHOLD_def WRITEV_DATA_POOL_SIZE_def
  OUTPUT_BUFFER_SIZE_def BUFFER_FLUSH_THRESHOLD_def

lemmas tracker_defs = mark_dirty_def mark_dirty_region_def dirty_region_init_def
  init_sparse_dirty_tracking_def init_hierarchical_dirty_tracking_def dirty_region_static_def
  tile_consts Let_def flag_l1_tile_def flag_l2_block_def add_sparse_l1_tile_def
  add_sparse_l2_block_def check_l1_tile_bitmap_def check_l2_block_bitmap_def
  set_l1_tile_bitmap_def set_l2_block_bitmap_def alloc_dirty_tile_def bitmap_set_def
  bitmap_test_def signed_divide_int_def reset_dirty_region_def reset_sparse_dirty_tracking_def

lemmas cache_defs = init_esc_seq_cache_def esc_seq_cache_empty_def get_cached_attr_sequence_def
  build_attr_sequence_def intern_esc_sequence_def hash_string_def ESC_SEQ_POOL_SIZE_def
  ESC_SEQ_MAX_LEN_def ESC_SEQ_HASH_SIZE_def color_defs_static_def color_consts TUI_A_NORMAL_def
  TUI_A_BOLD_def TUI_A_COLOR_def MAX_CUSTOM_COLORS_def attr_combo_bucket_def
  ATTR_COMBO_CACHE_SIZE_def fmt_d_def dec_digits.simps digit_char_def get_rgb_values_def

lemmas refresh_defs = tui_refresh_def optimize_dirty_region_def row_has_changes_def
  col_has_changes_def cell_changed_def cell_ok_def scan_bounds_def choose_scanning_def
  refresh_scan_def scan_sparse_def scan_hier_sparse_def scan_hier_dense_def scan_linear_def
  meets_scan_def scan_tile_in_def scan_l1_tile_def scan_tile_row.simps tile_run_end.simps
  linear_run_extend.simps linear_run_trim.simps scan_linear_row.simps emit_run_def
  output_buffered_run_def output_buffered_run_vectored_def collect_run_def putchar_run_def
  copy_cell_def run_in_bounds_def apply_attributes_def fallback_attr_sequence_def
  get_pair_colors_def TUI_PAIR_NUMBER_def seq_bytes_def tui_move_cached_def relative_move_def
  get_cursor_pool_index_def precomputed_cursor_position_def cup_sequence_def
  cursor_cache_sequence_def CURSOR_CACHE_ROWS_def CURSOR_CACHE_COLS_def CURSOR_POS_POOL_SIZE_def
  refresh_finish_def reset_attr_state_def PRECOMP_RESET_def ESC_RESET_def
  has_l1_tile_changes_def has_l2_block_changes_def MAX_GAP_def signed_modulo_int_def

lemmas drawing_defs = tui_print_at_def tui_print_at_stdscr_def print_bytes.simps put_cell_def
  tui_wattron_def tui_wattroff_def handle_resize_def tui_init_def ESC_CLEAR_def
  TUI_A_NORMAL_def TUI_A_BOLD_def TUI_A_COLOR_def

text \<open>
  The cache that \<open>tui_init\<close> leaves: 31 sequences are interned and six attribute
  combinations cached, each with a pointer into the pool.
\<close>

lemma init_esc_seq_cache_static:
  "\<exists>table used.
     init_esc_seq_cache color_defs_static =
       \<lparr>esc_initialized = True, precomputed_initialized = True,
        hash_table = table, pool_size = 2048, pool_used = used,
        attr_combo_table =
          (\<lambda>_. [])
          (768 :=
             [\<lparr>combo_fg = 0, combo_bg = 7, combo_attrs = 0,
                combo_sequence = Interned ([CHR 0x1B] @ ''[0;30;47m''), combo_seq_length = 10\<rparr>],
           0 :=
             [\<lparr>combo_fg = 3, combo_bg = 0, combo_attrs = 2097152,
                combo_sequence = Interned ([CHR 0x1B] @ ''[0;1;33m''), combo_seq_length = 9\<rparr>,
              \<lparr>combo_fg = 1, combo_bg = 0, combo_attrs = 0,
                combo_sequence = Interned ([CHR 0x1B] @ ''[0;31m''), combo_seq_length = 7\<rparr>,
              \<lparr>combo_fg = 2, combo_bg = 0, combo_attrs = 0,
                combo_sequence = Interned ([CHR 0x1B] @ ''[0;32m''), combo_seq_length = 7\<rparr>,
              \<lparr>combo_fg = 7, combo_bg = 0, combo_attrs = 2097152,
                combo_sequence = Interned ([CHR 0x1B] @ ''[0;1m''), combo_seq_length = 6\<rparr>,
              \<lparr>combo_fg = 7, combo_bg = 0, combo_attrs = 0,
                combo_sequence = Interned ([CHR 0x1B] @ ''[0m''), combo_seq_length = 4\<rparr>]),
        attr_combo_pool_size = 1024, attr_combo_pool_used = 6\<rparr>"
  by (simp add: cache_defs Let_def)

text \<open>The two attribute combinations the frames use are among the six.\<close>

lemma cached_sequence_normal:
  "get_cached_attr_sequence color_defs_static 7 0 0 (init_esc_seq_cache color_defs_static)
     = (Some (Interned ([CHR 0x1B] @ ''[0m''), 4), init_esc_seq_cache color_defs_static)"
proof -
  from init_esc_seq_cache_static obtain table used
    where c: "init_esc_seq_cache color_defs_static =
       \<lparr>esc_initialized = True, precomputed_initialized = True,
        hash_table = table, pool_size = 2048, pool_used = used,
        attr_combo_table =
          (\<lambda>_. [])
          (768 :=
             [\<lparr>combo_fg = 0, combo_bg = 7, combo_attrs = 0,
                combo_sequence = Interned ([CHR 0x1B] @ ''[0;30;47m''), combo_seq_length = 10\<rparr>],
           0 :=
             [\<lparr>combo_fg = 3, combo_bg = 0, combo_attrs = 2097152,
                combo_sequence = Interned ([CHR 0x1B] @ ''[0;1;33m''), combo_seq_length = 9\<rparr>,
              \<lparr>combo_fg = 1, combo_bg = 0, combo_attrs = 0,
                combo_sequence = Interned ([CHR 0x1B] @ ''[0;31m''), combo_seq_length = 7\<rparr>,
              \<lparr>combo_fg = 2, combo_bg = 0, combo_attrs = 0,
                combo_sequence = Interned ([CHR 0x1B] @ ''[0;32m''), combo_seq_length = 7\<rparr>,
              \<lparr>combo_fg = 7, combo_bg = 0, combo_attrs = 2097152,
                combo_sequence = Interned ([CHR 0x1B] @ ''[0;1m''), combo_seq_length = 6\<rparr>,
              \<lparr>combo_fg = 7, combo_bg = 0, combo_attrs = 0,
                combo_sequence = Interned ([CHR 0x1B] @ ''[0m''), combo_seq_length = 4\<rparr>]),
        attr_combo_pool_size = 1024, attr_combo_pool_used = 6\<rparr>"
    by blast
  show ?thesis
    unfolding c
    by (simp add: get_cached_attr_sequence_def attr_combo_bucket_def ATTR_COMBO_CACHE_SIZE_def)
qed

lemma cached_sequence_bold:
  "get_cached_attr_sequence color_defs_static 7 0 2097152 (init_esc_seq_cache color_defs_static)
     = (Some (Interned ([CHR 0x1B] @ ''[0;1m''), 6), init_esc_seq_cache color_defs_static)"
proof -
  from init_esc_seq_cache_static obtain table used
    where c: "init_esc_seq_cache color_defs_static =
       \<lparr>esc_initialized = True, precomputed_initialized = True,
        hash_table = table, pool_size = 2048, pool_used = used,
        attr_combo_table =
          (\<lambda>_. [])
          (768 :=
             [\<lparr>combo_fg = 0, combo_bg = 7, combo_attrs = 0,
                combo_sequence = Interned ([CHR 0x1B] @ ''[0;30;47m''), combo_seq_length = 10\<rparr>],
           0 :=
             [\<lparr>combo_fg = 3, combo_bg = 0, combo_attrs = 2097152,
                combo_sequence = Interned ([CHR 0x1B] @ ''[0;1;33m''), combo_seq_length = 9\<rparr>,
              \<lparr>combo_fg = 1, combo_bg = 0, combo_attrs = 0,
                combo_sequence = Interned ([CHR 0x1B] @ ''[0;31m''), combo_seq_length = 7\<rparr>,
              \<lparr>combo_fg = 2, combo_bg = 0, combo_attrs = 0,
                combo_sequence = Interned ([CHR 0x1B] @ ''[0;32m''), combo_seq_length = 7\<rparr>,
              \<lparr>combo_fg = 7, combo_bg = 0, combo_attrs = 2097152,
                combo_sequence = Interned ([CHR 0x1B] @ ''[0;1m''), combo_seq_length = 6\<rparr>,
              \<lparr>combo_fg = 7, combo_bg = 0, combo_attrs = 0,
                combo_sequence = Interned ([CHR 0x1B] @ ''[0m''), combo_seq_length = 4\<rparr>]),
        attr_combo_pool_size = 1024, attr_combo_pool_used = 6\<rparr>"
    by blast
  show ?thesis
    unfolding c
    by (simp add: get_cached_attr_sequence_def attr_combo_bucket_def ATTR_COMBO_CACHE_SIZE_def)
qed

lemma cached_sequences_precomputed:
  "precomputed_initialized (init_esc_seq_cache color_defs_static)"
  using init_esc_seq_cache_static by auto

lemmas refresh_eval = cached_sequence_normal cached_sequence_bold cached_sequences_precomputed
  output_path_defs tracker_defs refresh_defs color_consts upto.simps TUI_A_NORMAL_def
  TUI_A_BOLD_def TUI_A_COLOR_def fmt_d_def dec_digits.simps digit_char_def





subsection \<open>Two marks in one row\<close>

text \<open>A terminal of one row and 17 columns; \<open>X\<close> is printed at column 7 and \<open>Y\<close> at column 16.\<close>

definition two_marks :: "tui_state option" where
  "two_marks =
     Option.bind (tui_print_at_stdscr 0 7 ''X'' (tui_init 1 17 False True))
       (\<lambda>(r, s). map_option snd (tui_print_at_stdscr 0 16 ''Y'' s))"

definition two_marks_state :: tui_state where
  "two_marks_state =
     \<lparr>tui_lines = 1, tui_cols = 17, buf_rows = 1, buf_cols = 17,
        bufs_allocated = True,
        screen_buf =
          (\<lambda>_ _. CHR '' '')
          (0 := (\<lambda>_. CHR '' '')(7 := CHR ''X'', 16 := CHR ''Y'')),
        attr_buf = (\<lambda>_ _. 0)(0 := (\<lambda>_. 0)(7 := 0, 16 := 0)),
        prev_screen_buf =
          (\<lambda>_ _. CHR 0x00)
          (0 := (\<lambda>_. CHR 0x00)(7 := CHR 0x00, 16 := CHR 0x00)),
        prev_attr_buf = (\<lambda>_ _. - 1)(0 := (\<lambda>_. - 1)(7 := - 1, 16 := - 1)),
        dirty_region =
          \<lparr>min_row = 0, max_row = 0, min_col = 7, max_col = 16,
             has_changes = True,
             l1_tiles =
               (\<lambda>_ _. False)(0 := (\<lambda>_. False)(0 := True, 2 := True)),
             l1_tiles_x = 3, l1_tiles_y = 1,
             l2_blocks = (\<lambda>_ _. False)(0 := (\<lambda>_. False)(0 := True)),
             l2_blocks_x = 1, l2_blocks_y = 1, use_hierarchical_tiles = True,
             use_sparse_tracking = True, frame_count = 0,
             sparse_beneficial_count = 0, prefer_sparse_mode = False,
             dirty_l1_tiles = [(0, 2), (0, 0)], dirty_l2_blocks = [(0, 0)],
             dirty_tile_free = 509, dirty_tile_pool_used = 3,
             l1_tile_bitmap = (\<lambda>_. 0)(0 := 5),
             l2_block_bitmap = (\<lambda>_. 0)(0 := 1)\<rparr>,
        cursor_last_row = - 1, cursor_last_col = - 1,
        cursor_cache_initialized = True, attr_last_fg = - 1,
        attr_last_bg = - 1, attr_last_attrs = - 1,
        attr_state_initialized = False, colors_initialized = False,
        color_pair_cache = init_color_pair_cache color_pair_cache_static,
        color_defs = color_defs_static,
        esc_seq_cache = init_esc_seq_cache color_defs_static,
        supports_unicode = False,
        stdscr =
          \<lparr>begy = 0, begx = 0, maxy = 1, maxx = 17, cury = 0, curx = 17,
             win_attr = 0, bkgd = 0, win_dirty = None\<rparr>,
        use_writev = True,
        writev_buf =
          \<lparr>vecs = [], total_bytes = 0, auto_flush_enabled = True,
             data_pool_used = 0\<rparr>,
        output_data = [], output_auto_flush = True,
        terminal =
          [CHR 0x1B, CHR ''['', CHR ''2'', CHR ''J'', CHR 0x1B, CHR ''['',
           CHR ''H''],
        write_log =
          [(Other_seq,
            [CHR 0x1B, CHR ''['', CHR ''2'', CHR ''J'', CHR 0x1B, CHR ''['',
             CHR ''H''])]\<rparr>"

lemma two_marks_eval: "two_marks = Some two_marks_state"
  unfolding two_marks_def two_marks_state_def
  by (simp add: drawing_defs output_path_defs tracker_defs color_consts upto.simps)

lemma two_marks_region:
  "refresh_scan_region two_marks_state = Some (0, 0, 7, 16)"
  "cell_ok two_marks_state 0 10" "cell_ok two_marks_state 0 16"
  "cell_tracked (dirty_region two_marks_state) 0 16"
  unfolding two_marks_state_def
  by (simp_all add: refresh_eval refresh_scan_region_def cell_tracked_def
        cong: let_weak_cong old.prod.case_cong_weak)

lemma two_marks_refresh:
  "map_option (\<lambda>(r, s). (r, prev_screen_buf s 0 10, screen_buf s 0 10))
     (tui_refresh two_marks_state) = Some (0, CHR 0x00, CHR '' '')"
  unfolding two_marks_state_def
  by (simp add: refresh_eval cong: let_weak_cong old.prod.case_cong_weak)

subsection \<open>Three cells with alternating attributes\<close>






subsection \<open>A run across a tile boundary\<close>






subsection \<open>Printing at a negative column after a resize\<close>

text \<open>
  A terminal of one row and 17 columns is resized to two rows and 20 columns, and
  \<open>hello\<close> is printed at column \<open>-3\<close> of row 0: the first three bytes are clipped, the
  last two go to columns 0 and 1.
\<close>

definition negative_column :: "tui_state option" where
  "negative_column =
     map_option snd (tui_print_at_stdscr 0 (- 3) ''hello''
                       (handle_resize 2 20 (tui_init 1 17 False True)))"

definition negative_column_state :: tui_state where
  "negative_column_state =
     \<lparr>tui_lines = 2, tui_cols = 20, buf_rows = 1, buf_cols = 17,
        bufs_allocated = True,
        screen_buf =
          (\<lambda>_ _. CHR '' '')
          (0 := (\<lambda>_. CHR '' '')(0 := CHR ''l'', 1 := CHR ''o'')),
        attr_buf = (\<lambda>_ _. 0)(0 := (\<lambda>_. 0)(0 := 0, 1 := 0)),
        prev_screen_buf =
          (\<lambda>_ _. CHR 0x00)
          (0 := (\<lambda>_. CHR 0x00)(0 := CHR 0x00, 1 := CHR 0x00)),
        prev_attr_buf = (\<lambda>_ _. - 1)(0 := (\<lambda>_. - 1)(0 := - 1, 1 := - 1)),
        dirty_region =
          \<lparr>min_row = 0, max_row = 0, min_col = - 3, max_col = 1,
             has_changes = True,
             l1_tiles = (\<lambda>_ _. False)(0 := (\<lambda>_. False)(0 := True)),
             l1_tiles_x = 3, l1_tiles_y = 1,
             l2_blocks = (\<lambda>_ _. False)(0 := (\<lambda>_. False)(0 := True)),
             l2_blocks_x = 1, l2_blocks_y = 1,
             use_hierarchical_tiles = True, use_sparse_tracking = True,
             frame_count = 0, sparse_beneficial_count = 0,
             prefer_sparse_mode = False, dirty_l1_tiles = [(0, 0)],
             dirty_l2_blocks = [(0, 0)], dirty_tile_free = 510,
             dirty_tile_pool_used = 2, l1_tile_bitmap = (\<lambda>_. 0)(0 := 1),
             l2_block_bitmap = (\<lambda>_. 0)(0 := 1)\<rparr>,
        cursor_last_row = - 1, cursor_last_col = - 1,
        cursor_cache_initialized = True, attr_last_fg = - 1,
        attr_last_bg = - 1, attr_last_attrs = - 1,
        attr_state_initialized = False, colors_initialized = False,
        color_pair_cache = init_color_pair_cache color_pair_cache_static,
        color_defs = color_defs_static,
        esc_seq_cache = init_esc_seq_cache color_defs_static,
        supports_unicode = False,
        stdscr =
          \<lparr>begy = 0, begx = 0, maxy = 2, maxx = 20, cury = 0, curx = 2,
             win_attr = 0, bkgd = 0, win_dirty = None\<rparr>,
        use_writev = True,
        writev_buf =
          \<lparr>vecs = [], total_bytes = 0, auto_flush_enabled = True,
             data_pool_used = 0\<rparr>,
        output_data = [], output_auto_flush = True,
        terminal =
          [CHR 0x1B, CHR ''['', CHR ''2'', CHR ''J'', CHR 0x1B, CHR ''['',
           CHR ''H''],
        write_log =
          [(Other_seq,
            [CHR 0x1B, CHR ''['', CHR ''2'', CHR ''J'', CHR 0x1B, CHR ''['',
             CHR ''H''])]\<rparr>"

lemma negative_column_eval: "negative_column = Some negative_column_state"
  unfolding negative_column_def negative_column_state_def
  by (simp add: drawing_defs output_path_defs tracker_defs color_consts upto.simps)

lemma handle_resize_keeps_allocation:
  "buf_rows (handle_resize new_lines new_cols s) = buf_rows s"
  "buf_cols (handle_resize new_lines new_cols s) = buf_cols s"
  "bufs_allocated (handle_resize new_lines new_cols s) = bufs_allocated s"
  "screen_buf (handle_resize new_lines new_cols s) = screen_buf s"
  "attr_buf (handle_resize new_lines new_cols s) = attr_buf s"
  "prev_screen_buf (handle_resize new_lines new_cols s) = prev_screen_buf s"
  "prev_attr_buf (handle_resize new_lines new_cols s) = prev_attr_buf s"
  by (simp_all add: handle_resize_def)

section \<open>The claims at the concrete frames\<close>

text \<open>
  The refresh right after \<open>tui_init\<close> is silent, and so is the second refresh of the frame
  of the two marks.
\<close>

theorem tui_refresh_clean_noop_witness:
  "(\<exists>s'. tui_refresh (tui_init 1 17 False True) = Some (0, s')
         \<and> silent (tui_init 1 17 False True) s')
   \<and> (\<exists>s s1 s2. two_marks = Some s \<and> tui_refresh s = Some (0, s1)
         \<and> tui_refresh s1 = Some (0, s2) \<and> silent s1 s2)"
proof -
  have "bufs_allocated (tui_init 1 17 False True)
        \<and> \<not> has_changes (dirty_region (tui_init 1 17 False True))"
    by (simp add: tui_init_def output_only_fields [OF tui_flush_output_only] tui_write_fields
          tracker_defs)
  with tui_refresh_clean_noop [of "tui_init 1 17 False True"]
  have a: "\<exists>s'. tui_refresh (tui_init 1 17 False True) = Some (0, s')
             \<and> silent (tui_init 1 17 False True) s'" by blast
  from two_marks_refresh obtain s1 where r: "tui_refresh two_marks_state = Some (0, s1)"
    by auto
  with tui_refresh_clean_noop [of two_marks_state s1]
  obtain s2 where "tui_refresh s1 = Some (0, s2)" "silent s1 s2" by blast
  with r two_marks_eval a show ?thesis by blast
qed



text \<open>
  The cell of the mark \<open>Y\<close> lies in the scan rectangle and in a listed tile, and its
  snapshot agrees with the logical grid after the refresh.
\<close>

theorem tui_refresh_snapshot_converges_witness:
  "\<exists>s s'. two_marks = Some s \<and> tui_refresh s = Some (0, s')
       \<and> refresh_scan_region s = Some (0, 0, 7, 16) \<and> cell_ok s 0 16
       \<and> cell_tracked (dirty_region s) 0 16
       \<and> prev_screen_buf s' 0 16 = screen_buf s' 0 16
       \<and> prev_attr_buf s' 0 16 = attr_buf s' 0 16"
proof -
  from two_marks_refresh obtain s' where r: "tui_refresh two_marks_state = Some (0, s')"
    by auto
  from tui_refresh_snapshot_converges [OF r two_marks_region(1) _ _ _ _ two_marks_region(3)
      two_marks_region(4)]
  have "prev_screen_buf s' 0 16 = screen_buf s' 0 16
        \<and> prev_attr_buf s' 0 16 = attr_buf s' 0 16" by simp
  with r two_marks_eval two_marks_region show ?thesis by blast
qed

text \<open>
  Claim C1 as stated fails for a cell of the scan rectangle that no drawing operation has
  marked. In the frame of the two marks the rectangle is columns 7 to 16 of row 0; the
  tile of columns 8 to 15 is not on the tracker's list and is not scanned, so that the
  snapshot of cell (0, 10) keeps the byte 0 that \<open>tui_init\<close> gave it, while the logical
  grid holds a blank.
\<close>

theorem tui_refresh_unmarked_cell_counterexample:
  "\<exists>s s'. two_marks = Some s \<and> tui_refresh s = Some (0, s')
       \<and> refresh_scan_region s = Some (0, 0, 7, 16) \<and> cell_ok s 0 10
       \<and> prev_screen_buf s' 0 10 \<noteq> screen_buf s' 0 10"
proof -
  from two_marks_refresh obtain s' where r: "tui_refresh two_marks_state = Some (0, s')"
    and c: "prev_screen_buf s' 0 10 = CHR 0x00" "screen_buf s' 0 10 = CHR '' ''"
    by auto
  from c have "prev_screen_buf s' 0 10 \<noteq> screen_buf s' 0 10" by simp
  with r two_marks_eval two_marks_region show ?thesis by blast
qed

text \<open>
  Claim C10 fails at the frame with the negative column. \<open>handle_resize\<close> leaves the
  allocation alone, and \<open>tui_print_at\<close> clips the bytes in front of column 0, but it
  records column \<open>-3\<close> as the left edge of the dirty rectangle. The next refresh hands
  that edge to \<open>row_has_changes\<close>, whose \<open>memcmp\<close> starts three cells in front of row 0 of
  the logical grid.
\<close>

theorem tui_refresh_negative_column_out_of_bounds:
  "\<exists>s. negative_column = Some s \<and> buf_rows s = 1 \<and> buf_cols s = 17
       \<and> min_col (dirty_region s) = - 3
       \<and> row_has_changes s 0 (- 3) 1 = None
       \<and> tui_refresh s = None"
proof -
  have "row_has_changes negative_column_state 0 (- 3) 1 = None"
    unfolding negative_column_state_def by (simp add: row_has_changes_def)
  moreover have "tui_refresh negative_column_state = None"
    unfolding negative_column_state_def
    by (simp add: refresh_eval cong: let_weak_cong old.prod.case_cong_weak)
  moreover have "buf_rows negative_column_state = 1" "buf_cols negative_column_state = 17"
    "min_col (dirty_region negative_column_state) = - 3"
    by (simp_all add: negative_column_state_def)
  ultimately show ?thesis using negative_column_eval by blast
qed

end
